(* ===== verification/Prelude.thy ===== *)
theory Prelude
  imports Main "HOL-Library.Word" "HOL-Library.Char_ord" "HOL-Library.List_Lexorder"
    "HOL-Library.Multiset"
begin

text \<open>
  Shared vocabulary of the development: C strings, separator-joined lists and their
  splitting, and the lemmas about them that the components use.

  A C string argument is a \<open>string\<close> option: \<open>None\<close> is the null pointer, \<open>Some s\<close> points to the
  bytes \<open>s\<close> followed by a terminator. What a C function sees of it is \<open>cstr s\<close>, the bytes
  before the first zero byte.
\<close>

named_theorems str_simps \<open>facts about C strings and separator-joined lists\<close>

section \<open>C strings\<close>

abbreviation NUL :: char where
  "NUL \<equiv> CHR 0x00"

definition cstr :: "string \<Rightarrow> string" where
  "cstr s = takeWhile (\<lambda>c. c \<noteq> NUL) s"

text \<open>\<open>strlen\<close> counts the bytes before the terminator.\<close>

definition strlen :: "string \<Rightarrow> nat" where
  "strlen s = length (cstr s)"

lemma cstr_no_nul [simp]: "NUL \<notin> set (cstr s)"
  by (auto simp: cstr_def dest: set_takeWhileD)

lemma cstr_id [simp]: "NUL \<notin> set s \<Longrightarrow> cstr s = s"
  by (simp add: cstr_def takeWhile_eq_all_conv)
     (metis)

lemma cstr_idem [simp]: "cstr (cstr s) = cstr s"
  by (rule cstr_id) simp

lemma strlen_id [simp]: "NUL \<notin> set s \<Longrightarrow> strlen s = length s"
  by (simp add: strlen_def)

lemma strlen_le: "strlen s \<le> length s"
  by (simp add: strlen_def cstr_def length_takeWhile_le)

lemma strlen_full_iff: "strlen s = length s \<longleftrightarrow> NUL \<notin> set s"
proof
  assume len: "strlen s = length s"
  have "cstr s = take (strlen s) s"
    by (simp add: strlen_def cstr_def takeWhile_eq_take [symmetric])
  with len have "cstr s = s" by simp
  then show "NUL \<notin> set s" by (metis cstr_no_nul)
qed simp

text \<open>\<open>nz\<close>: the null pointer reads as the empty string.\<close>

definition nz :: "string option \<Rightarrow> string" where
  "nz s = (case s of None \<Rightarrow> [] | Some t \<Rightarrow> cstr t)"

lemma nz_simps [simp]: "nz None = []" "nz (Some t) = cstr t"
  by (simp_all add: nz_def)

lemma nz_no_nul [simp]: "NUL \<notin> set (nz s)"
  by (cases s) auto

section \<open>Joining with a separator and splitting again\<close>

fun sepby :: "char \<Rightarrow> string list \<Rightarrow> string" where
  "sepby c [] = []"
| "sepby c [x] = x"
| "sepby c (x # y # ys) = x @ c # sepby c (y # ys)"

lemma sepby_Cons: "sepby c (x # xs) = x @ (if xs = [] then [] else c # sepby c xs)"
  by (cases xs) auto

lemma sepby_eq_Nil_iff: "(\<forall>x\<in>set xs. x \<noteq> []) \<Longrightarrow> sepby c xs = [] \<longleftrightarrow> xs = []"
  by (cases xs) (auto simp: sepby_Cons)

lemma set_sepby: "set (sepby c xs) \<subseteq> insert c (\<Union>(set ` set xs))"
  by (induction c xs rule: sepby.induct) auto

lemma sepby_notin: "d \<noteq> c \<Longrightarrow> (\<forall>x\<in>set xs. d \<notin> set x) \<Longrightarrow> d \<notin> set (sepby c xs)"
  using set_sepby [of c xs] by auto

lemma append_sep_inject:
  assumes "c \<notin> set x" "c \<notin> set y"
  shows "x @ c # s = y @ c # t \<longleftrightarrow> x = y \<and> s = t"
  using assms by (auto simp: append_eq_append_conv2 Cons_eq_append_conv append_eq_Cons_conv)

lemma append_sep_neq: "c \<notin> set y \<Longrightarrow> x @ c # s \<noteq> y"
  by auto

text \<open>Joining is injective on non-empty lists whose elements avoid the separator.\<close>

lemma sepby_inject:
  assumes "xs \<noteq> []" "ys \<noteq> []"
    and "\<forall>x\<in>set xs. c \<notin> set x" "\<forall>y\<in>set ys. c \<notin> set y"
  shows "sepby c xs = sepby c ys \<longleftrightarrow> xs = ys"
  using assms
proof (induction xs arbitrary: ys rule: list_nonempty_induct)
  case (single x)
  then obtain y zs where "ys = y # zs" by (cases ys) auto
  with single show ?case by (auto simp: sepby_Cons)
next
  case (cons x xs)
  then obtain y zs where ys: "ys = y # zs" by (cases ys) auto
  show ?case
  proof (cases "zs = []")
    case True
    with cons ys show ?thesis by (auto simp: sepby_Cons)
  next
    case False
    with cons ys show ?thesis by (auto simp: sepby_Cons append_sep_inject)
  qed
qed

text \<open>With non-empty elements the empty list is distinguished too.\<close>

lemma sepby_inject_nonempty:
  assumes "\<forall>x\<in>set xs. x \<noteq> [] \<and> c \<notin> set x" "\<forall>y\<in>set ys. y \<noteq> [] \<and> c \<notin> set y"
    and "sepby c xs = sepby c ys"
  shows "xs = ys"
proof (cases "xs = [] \<or> ys = []")
  case True
  with assms show ?thesis by (metis sepby.simps(1) sepby_eq_Nil_iff)
next
  case False
  with assms show ?thesis using sepby_inject [of xs ys c] by blast
qed

lemma sepby_snoc: "xs \<noteq> [] \<Longrightarrow> sepby c (xs @ [x]) = sepby c xs @ c # x"
  by (induction c xs rule: sepby.induct) auto

lemma length_sepby_le: "x \<in> set xs \<Longrightarrow> length x \<le> length (sepby c xs)"
  by (induction c xs rule: sepby.induct) auto

section \<open>Multisets of images\<close>

text \<open>If \<open>f\<close> determines \<open>g\<close> on \<open>S\<close>, equal multisets of \<open>f\<close>-images give equal multisets of \<open>g\<close>-images.\<close>

lemma mset_map_transfer:
  assumes fg: "\<And>x y. x \<in> S \<Longrightarrow> y \<in> S \<Longrightarrow> f x = f y \<Longrightarrow> g x = g y"
    and sub: "set xs \<subseteq> S" "set ys \<subseteq> S"
    and eq: "mset (map f xs) = mset (map f ys)"
  shows "mset (map g xs) = mset (map g ys)"
proof -
  define h where "h b = g (SOME x. x \<in> S \<and> f x = b)" for b
  have h: "h (f x) = g x" if "x \<in> S" for x
  proof -
    have "(SOME y. y \<in> S \<and> f y = f x) \<in> S \<and> f (SOME y. y \<in> S \<and> f y = f x) = f x"
      by (rule someI [of "\<lambda>y. y \<in> S \<and> f y = f x" x]) (use that in simp)
    with fg that show ?thesis unfolding h_def by blast
  qed
  have "map (h \<circ> f) xs = map g xs" "map (h \<circ> f) ys = map g ys"
    using sub h by (auto simp: subset_iff)
  moreover have "image_mset h (mset (map f xs)) = image_mset h (mset (map f ys))"
    using eq by simp
  ultimately show ?thesis by (metis map_map mset_map)
qed

lemma mset_map_eq_iff:
  assumes "\<And>x y. x \<in> S \<Longrightarrow> y \<in> S \<Longrightarrow> f x = f y \<longleftrightarrow> g x = g y" "set xs \<subseteq> S" "set ys \<subseteq> S"
  shows "mset (map f xs) = mset (map f ys) \<longleftrightarrow> mset (map g xs) = mset (map g ys)"
  using mset_map_transfer [of S f g xs ys] mset_map_transfer [of S g f xs ys] assms by blast

section \<open>Options\<close>

lemma option_eqI: "(\<And>v. x = Some v \<longleftrightarrow> y = Some v) \<Longrightarrow> x = y"
  by (cases x; cases y) auto

end
