(* ===== verification/Utf8.thy ===== *)
theory Utf8
  imports Prelude
begin

text \<open>
  The strict UTF-8 check of \<open>src/digest.c\<close> (\<open>utf8_valid\<close>) and a reference encoder for
  Unicode scalar values. The code works on unsigned 32-bit words with masks and shifts; the
  reference uses arithmetic on natural numbers. The main lemma shows that the check accepts
  exactly the encodings of scalar value sequences, so overlong forms, surrogates, values past
  U+10FFFF and truncated sequences are all refused.
\<close>

unbundle bit_operations_syntax

section \<open>The code\<close>

text \<open>\<open>*p\<close> read through an \<open>unsigned char\<close> pointer and promoted.\<close>

definition uc :: "char \<Rightarrow> 32 word" where
  "uc c = of_char c"

text \<open>
  The continuation loop: \<open>n\<close> more bytes are read, each must have the form 10xxxxxx. Reaching
  the end of the list is reading the terminator, which fails that test.
\<close>

fun utf8_tail :: "nat \<Rightarrow> 32 word \<Rightarrow> string \<Rightarrow> (32 word \<times> string) option" where
  "utf8_tail 0 cp s = Some (cp, s)"
| "utf8_tail (Suc n) cp [] = None"
| "utf8_tail (Suc n) cp (c # s) =
     (if uc c AND 0xC0 \<noteq> 0x80 then None
      else utf8_tail n (push_bit 6 cp OR (uc c AND 0x3F)) s)"

text \<open>The lead byte: how many bytes follow, the least legal value, the initial bits.\<close>

definition utf8_lead :: "32 word \<Rightarrow> (nat \<times> 32 word \<times> 32 word) option" where
  "utf8_lead c =
     (if c AND 0xE0 = 0xC0 then Some (1, 0x80, c AND 0x1F)
      else if c AND 0xF0 = 0xE0 then Some (2, 0x800, c AND 0x0F)
      else if c AND 0xF8 = 0xF0 then Some (3, 0x10000, c AND 0x07)
      else None)"

lemma utf8_tail_length: "utf8_tail n cp s = Some (cp', s') \<Longrightarrow> length s = length s' + n"
  by (induction n cp s rule: utf8_tail.induct) (auto split: if_splits)

function utf8_valid :: "string \<Rightarrow> bool" where
  "utf8_valid [] = True"
| "utf8_valid (c # s) =
     (if uc c < 0x80 then utf8_valid s
      else case utf8_lead (uc c) of
        None \<Rightarrow> False
      | Some (n, mn, cp0) \<Rightarrow>
          (case utf8_tail n cp0 s of
             None \<Rightarrow> False
           | Some (cp, s') \<Rightarrow>
               if cp < mn \<or> 0x10FFFF < cp \<or> (0xD800 \<le> cp \<and> cp \<le> 0xDFFF) then False
               else utf8_valid s'))"
  by pat_completeness auto
termination
  by (relation "measure length") (auto dest: utf8_tail_length)

section \<open>Reference encoder\<close>

definition scalar_value :: "nat \<Rightarrow> bool" where
  "scalar_value cp \<longleftrightarrow> cp \<le> 0x10FFFF \<and> \<not> (0xD800 \<le> cp \<and> cp \<le> 0xDFFF)"

definition utf8_encode :: "nat \<Rightarrow> string" where
  "utf8_encode cp =
     (if cp < 0x80 then [char_of cp]
      else if cp < 0x800 then [char_of (0xC0 + cp div 64), char_of (0x80 + cp mod 64)]
      else if cp < 0x10000 then
        [char_of (0xE0 + cp div 4096), char_of (0x80 + cp div 64 mod 64),
         char_of (0x80 + cp mod 64)]
      else
        [char_of (0xF0 + cp div 262144), char_of (0x80 + cp div 4096 mod 64),
         char_of (0x80 + cp div 64 mod 64), char_of (0x80 + cp mod 64)])"

section \<open>Masks and shifts as arithmetic\<close>

abbreviation ord :: "char \<Rightarrow> nat" where
  "ord c \<equiv> of_char c"

lemma ord_less_256: "ord c < 256"
  by (cases c) (simp add: of_char_def horner_sum_bound)


lemma unat_uc [simp]: "unat (uc c) = ord c"
proof -
  have "uc c = word_of_nat (ord c)"
    by (simp only: uc_def of_nat_of_char)
  moreover have "ord c < 2 ^ 32"
    by (rule less_le_trans [OF nat_of_char_less_256]) simp
  ultimately show ?thesis
    by (simp only: unat_of_nat take_bit_eq_mod mod_less) (simp add: take_bit_nat_eq_self)
qed

lemma unat_and_mask:
  "unat (w AND 0x3F :: 32 word) = unat w mod 64"
  "unat (w AND 0x1F :: 32 word) = unat w mod 32"
  "unat (w AND 0x0F :: 32 word) = unat w mod 16"
  "unat (w AND 0x07 :: 32 word) = unat w mod 8"
  "unat (w AND 0xFF :: 32 word) = unat w mod 256"
proof -
  have *: "unat (w AND mask n) = unat w mod 2 ^ n" for n
    by (simp flip: take_bit_eq_mask take_bit_eq_mod add: unsigned_take_bit_eq)
  show "unat (w AND 0x3F :: 32 word) = unat w mod 64" using * [of 6] by (simp add: mask_eq_exp_minus_1)
  show "unat (w AND 0x1F :: 32 word) = unat w mod 32" using * [of 5] by (simp add: mask_eq_exp_minus_1)
  show "unat (w AND 0x0F :: 32 word) = unat w mod 16" using * [of 4] by (simp add: mask_eq_exp_minus_1)
  show "unat (w AND 0x07 :: 32 word) = unat w mod 8" using * [of 3] by (simp add: mask_eq_exp_minus_1)
  show "unat (w AND 0xFF :: 32 word) = unat w mod 256" using * [of 8] by (simp add: mask_eq_exp_minus_1)
qed

text \<open>A high mask and the low mask below it split a byte into a sum.\<close>

lemma split_masks:
  fixes w :: "32 word"
  assumes "unat w < 256"
    and disj: "h AND l = 0" "h OR l = 0xFF"
  shows "unat (w AND h) + unat (w AND l) = unat w"
proof -
  have "(w AND h) + (w AND l) = (w AND h) OR (w AND l)"
    by (rule disjunctive_add_eq_or)
       (metis disj(1) and.assoc and.left_commute and_zero_eq)
  also have "\<dots> = w AND 0xFF"
    by (metis disj(2) bit.conj_disj_distrib)
  also have "\<dots> = w"
    using assms(1) by (simp add: word_unat_eq_iff unat_and_mask(5))
  finally have sum: "(w AND h) + (w AND l) = w" .
  have "w AND h \<le> w" "w AND h \<le> (w AND h) + (w AND l)"
    by (simp_all add: word_and_le1 word_and_le2 sum)
  then show ?thesis
    by (metis sum unat_plus_simple)
qed

lemma high_part_eq:
  fixes a w m n :: nat
  assumes "a + w mod m = w" "0 < m"
  shows "a = m * n \<longleftrightarrow> m * n \<le> w \<and> w < m * n + m"
proof -
  have "a = m * (w div m)"
    using assms(1) by (metis add_diff_cancel_right' minus_mod_eq_mult_div)
  moreover have "w div m = n \<longleftrightarrow> m * n \<le> w \<and> w < m * n + m"
    using assms(2) by (metis add.commute div_nat_eqI mult.commute mult_Suc_right
        dividend_less_times_div times_div_less_eq_dividend)
  ultimately show ?thesis using assms(2) by auto
qed

lemma byte_high_masks:
  assumes "unat w < 256"
  shows "(w AND 0xC0 = (0x80 :: 32 word)) \<longleftrightarrow> 128 \<le> unat w \<and> unat w < 192"
    and "(w AND 0xE0 = (0xC0 :: 32 word)) \<longleftrightarrow> 192 \<le> unat w \<and> unat w < 224"
    and "(w AND 0xF0 = (0xE0 :: 32 word)) \<longleftrightarrow> 224 \<le> unat w \<and> unat w < 240"
    and "(w AND 0xF8 = (0xF0 :: 32 word)) \<longleftrightarrow> 240 \<le> unat w \<and> unat w < 248"
proof -
  have "unat (w AND 0xC0) + unat w mod 64 = unat w"
    using split_masks [OF assms, of "0xC0" "0x3F"] by (simp add: unat_and_mask)
  from high_part_eq [OF this, of 2]
  show "(w AND 0xC0 = (0x80 :: 32 word)) \<longleftrightarrow> 128 \<le> unat w \<and> unat w < 192"
    by (simp add: word_unat_eq_iff)
  have "unat (w AND 0xE0) + unat w mod 32 = unat w"
    using split_masks [OF assms, of "0xE0" "0x1F"] by (simp add: unat_and_mask)
  from high_part_eq [OF this, of 6]
  show "(w AND 0xE0 = (0xC0 :: 32 word)) \<longleftrightarrow> 192 \<le> unat w \<and> unat w < 224"
    by (simp add: word_unat_eq_iff)
  have "unat (w AND 0xF0) + unat w mod 16 = unat w"
    using split_masks [OF assms, of "0xF0" "0x0F"] by (simp add: unat_and_mask)
  from high_part_eq [OF this, of 14]
  show "(w AND 0xF0 = (0xE0 :: 32 word)) \<longleftrightarrow> 224 \<le> unat w \<and> unat w < 240"
    by (simp add: word_unat_eq_iff)
  have "unat (w AND 0xF8) + unat w mod 8 = unat w"
    using split_masks [OF assms, of "0xF8" "0x07"] by (simp add: unat_and_mask)
  from high_part_eq [OF this, of 30]
  show "(w AND 0xF8 = (0xF0 :: 32 word)) \<longleftrightarrow> 240 \<le> unat w \<and> unat w < 248"
    by (simp add: word_unat_eq_iff)
qed

lemma push_or:
  assumes "unat cp < 2 ^ 26"
  shows "unat (push_bit 6 cp OR (w AND 0x3F) :: 32 word) = unat cp * 64 + unat w mod 64"
proof -
  have m: "(0x3F :: 32 word) = mask 6" by (simp add: mask_eq_exp_minus_1)
  have "push_bit 6 cp AND (w AND 0x3F) = 0"
    unfolding m by (rule bit_eqI) (auto simp: bit_simps)
  then have "push_bit 6 cp OR (w AND 0x3F) = push_bit 6 cp + (w AND 0x3F)"
    by (rule disjunctive_add_eq_or [symmetric])
  moreover have "unat (push_bit 6 cp) = unat cp * 64"
    using assms by (simp add: unsigned_push_bit_eq take_bit_push_bit)
       (simp add: push_bit_eq_mult take_bit_nat_eq_self)
  moreover have "unat cp * 64 + unat w mod 64 < 2 ^ 32"
  proof -
    have "unat cp * 64 + 64 \<le> 2 ^ 32" using assms by simp
    moreover have "unat w mod 64 < 64" by simp
    ultimately show ?thesis by linarith
  qed
  ultimately show ?thesis by (simp add: unat_word_ariths unat_and_mask)
qed

section \<open>Accepted strings are the encoded ones\<close>

definition cont_byte :: "char \<Rightarrow> bool" where
  "cont_byte c \<longleftrightarrow> 128 \<le> ord c \<and> ord c < 192"

lemma uc_masks [simp]:
  "(uc c AND 0xC0 = 0x80) = cont_byte c"
  "(uc c AND 0xE0 = 0xC0) = (192 \<le> ord c \<and> ord c < 224)"
  "(uc c AND 0xF0 = 0xE0) = (224 \<le> ord c \<and> ord c < 240)"
  "(uc c AND 0xF8 = 0xF0) = (240 \<le> ord c \<and> ord c < 248)"
  using byte_high_masks [of "uc c"] by (simp_all add: cont_byte_def)

lemma uc_ascii [simp]: "uc c < 0x80 \<longleftrightarrow> ord c < 128"
  by (simp add: word_less_nat_alt)

lemma cont_byte_low: "cont_byte c \<Longrightarrow> ord c mod 64 = ord c - 128"
  by (auto simp: cont_byte_def intro: mod_nat_eqI)

text \<open>The continuation loop over natural numbers.\<close>

fun tail_nat :: "nat \<Rightarrow> nat \<Rightarrow> string \<Rightarrow> (nat \<times> string) option" where
  "tail_nat 0 cp s = Some (cp, s)"
| "tail_nat (Suc n) cp [] = None"
| "tail_nat (Suc n) cp (c # s) =
     (if cont_byte c then tail_nat n (cp * 64 + (ord c - 128)) s else None)"

lemma utf8_tail_nat:
  "(unat cp + 1) * 64 ^ n \<le> 2 ^ 32 \<Longrightarrow>
   map_option (\<lambda>(w, r). (unat w, r)) (utf8_tail n cp s) = tail_nat n (unat cp) s"
proof (induction n cp s rule: utf8_tail.induct)
  case (3 n cp c s)
  let ?cp = "push_bit 6 cp OR (uc c AND 0x3F)"
  have "(unat cp + 1) * 64 \<le> (unat cp + 1) * 64 ^ Suc n"
    by (rule mult_left_mono) simp_all
  with "3.prems" have "(unat cp + 1) * 64 \<le> 2 ^ 32" by linarith
  then have v: "unat ?cp = unat cp * 64 + ord c mod 64"
    by (subst push_or) simp_all
  have "ord c mod 64 < 64" by simp
  then have "unat ?cp + 1 \<le> (unat cp + 1) * 64" unfolding v by simp
  then have "(unat ?cp + 1) * 64 ^ n \<le> (unat cp + 1) * 64 * 64 ^ n" by (rule mult_right_mono) simp
  also have "\<dots> \<le> 2 ^ 32" using "3.prems" by (simp only: mult.assoc power_Suc)
  finally have "(unat ?cp + 1) * 64 ^ n \<le> 2 ^ 32" .
  with "3.IH" show ?case by (cases "cont_byte c") (simp_all add: v cont_byte_low)
qed simp_all

definition lead_nat :: "nat \<Rightarrow> (nat \<times> nat \<times> nat) option" where
  "lead_nat k =
     (if 192 \<le> k \<and> k < 224 then Some (1, 0x80, k - 192)
      else if 224 \<le> k \<and> k < 240 then Some (2, 0x800, k - 224)
      else if 240 \<le> k \<and> k < 248 then Some (3, 0x10000, k - 240)
      else None)"

lemma utf8_lead_nat:
  "map_option (\<lambda>(n, a, b). (n, unat a, unat b)) (utf8_lead (uc c)) = lead_nat (ord c)"
proof -
  have "192 \<le> ord c \<and> ord c < 224 \<Longrightarrow> ord c mod 32 = ord c - 192"
    "224 \<le> ord c \<and> ord c < 240 \<Longrightarrow> ord c mod 16 = ord c - 224"
    "240 \<le> ord c \<and> ord c < 248 \<Longrightarrow> ord c mod 8 = ord c - 240"
    by (auto intro: mod_nat_eqI)
  then show ?thesis by (auto simp: utf8_lead_def lead_nat_def unat_and_mask)
qed

lemma utf8_valid_nat:
  "utf8_valid (c # s) =
     (if ord c < 128 then utf8_valid s
      else case lead_nat (ord c) of
        None \<Rightarrow> False
      | Some (n, mn, cp0) \<Rightarrow>
          (case tail_nat n cp0 s of
             None \<Rightarrow> False
           | Some (cp, s') \<Rightarrow> mn \<le> cp \<and> scalar_value cp \<and> utf8_valid s'))"
proof (cases "utf8_lead (uc c)")
  case None
  with utf8_lead_nat [of c] show ?thesis by (auto split: option.splits)
next
  case (Some l)
  obtain n a b where l: "l = (n, a, b)" by (cases l) 
  from Some l utf8_lead_nat [of c] have lead: "lead_nat (ord c) = Some (n, unat a, unat b)" by auto
  then have "(unat b + 1) * 64 ^ n \<le> 2 ^ 32"
    by (auto simp: lead_nat_def split: if_splits)
  from utf8_tail_nat [OF this, of s] show ?thesis
    using Some l lead
    by (cases "utf8_tail n b s")
       (auto simp: word_less_nat_alt word_le_nat_alt scalar_value_def split: option.splits)
qed


lemma tail_nat_Cons:
  "tail_nat (Suc 0) cp (c # s) = (if cont_byte c then Some (cp * 64 + (ord c - 128), s) else None)"
  "tail_nat 2 cp (c # s) = (if cont_byte c then tail_nat 1 (cp * 64 + (ord c - 128)) s else None)"
  "tail_nat 3 cp (c # s) = (if cont_byte c then tail_nat 2 (cp * 64 + (ord c - 128)) s else None)"
  by (simp_all add: numeral_2_eq_2 numeral_3_eq_3)

lemma cont_mod [simp]: "(128 + j mod 64) mod 256 = 128 + j mod (64 :: nat)"
proof (rule mod_less)
  have "j mod 64 < 64" by simp
  then show "128 + j mod 64 < 256" by linarith
qed

text \<open>Encoding side: the check accepts an encoded scalar value and continues after it.\<close>

lemma utf8_valid_encode:
  assumes "scalar_value k"
  shows "utf8_valid (utf8_encode k @ s) = utf8_valid s"
proof -
  have b: "k \<le> 0x10FFFF" using assms by (simp add: scalar_value_def)
  have ct: "cont_byte (char_of (128 + j mod 64))" for j :: nat
    by (simp add: cont_byte_def)
  consider "k < 0x80" | "0x80 \<le> k" "k < 0x800" | "0x800 \<le> k" "k < 0x10000" | "0x10000 \<le> k"
    by linarith
  then show ?thesis
  proof cases
    case 1
    then show ?thesis by (simp add: utf8_encode_def)
  next
    case 2
    then have "k div 64 * 64 + k mod 64 = k" "k div 64 < 32" by auto
    with 2 assms ct [of k] show ?thesis
      by (simp add: utf8_encode_def utf8_valid_nat lead_nat_def del: utf8_valid.simps)
  next
    case 3
    then have "k div 64 * 64 + k mod 64 = k" "k div 4096 * 64 + k div 64 mod 64 = k div 64"
      "k div 4096 < 16"
      by (auto simp: div_mult2_eq [of k 64 64, simplified])
    moreover from this have "4096 * (k div 4096) + k div 64 mod 64 * 64 + k mod 64 = k" by linarith
    ultimately show ?thesis
      using 3 assms ct [of k] ct [of "k div 64"]
      by (simp add: utf8_encode_def utf8_valid_nat lead_nat_def tail_nat_Cons del: utf8_valid.simps tail_nat.simps)
  next
    case 4
    with b have "k div 64 * 64 + k mod 64 = k" "k div 4096 * 64 + k div 64 mod 64 = k div 64"
      "k div 262144 * 64 + k div 4096 mod 64 = k div 4096" "k div 262144 < 8"
      by (auto simp: div_mult2_eq [of k 64 64, simplified] div_mult2_eq [of k 4096 64, simplified])
    moreover from this have
      "262144 * (k div 262144) + 4096 * (k div 4096 mod 64) + k div 64 mod 64 * 64 + k mod 64 = k"
      by linarith
    ultimately show ?thesis
      using 4 assms ct [of k] ct [of "k div 64"] ct [of "k div 4096"]
      by (simp add: utf8_encode_def utf8_valid_nat lead_nat_def tail_nat_Cons del: utf8_valid.simps tail_nat.simps)
  qed
qed

lemma tail_nat_SomeE:
  assumes "tail_nat (Suc n) cp s = Some r"
  obtains c t where "s = c # t" "cont_byte c" "tail_nat n (cp * 64 + (ord c - 128)) t = Some r"
  using assms by (cases s) (auto split: if_splits)

lemma utf8_encode_long:
  "0x80 \<le> k \<Longrightarrow> k < 0x800 \<Longrightarrow>
   utf8_encode k = [char_of (0xC0 + k div 64), char_of (0x80 + k mod 64)]"
  "0x800 \<le> k \<Longrightarrow> k < 0x10000 \<Longrightarrow>
   utf8_encode k = [char_of (0xE0 + k div 4096), char_of (0x80 + k div 64 mod 64),
     char_of (0x80 + k mod 64)]"
  "0x10000 \<le> k \<Longrightarrow>
   utf8_encode k = [char_of (0xF0 + k div 262144), char_of (0x80 + k div 4096 mod 64),
     char_of (0x80 + k div 64 mod 64), char_of (0x80 + k mod 64)]"
  by (simp_all only: utf8_encode_def split: if_split) simp_all

lemma char_of_offset:
  "b \<le> ord d \<Longrightarrow> char_of (b + (ord d - b)) = d"
  by simp

lemma divmod64:
  "r < 64 \<Longrightarrow> (a * 64 + r) div 64 = (a :: nat)"
  "r < 64 \<Longrightarrow> (a * 64 + r) mod 64 = (r :: nat)"
  by simp_all

lemma encode_tail_nat:
  assumes lead: "lead_nat (ord c) = Some (n, mn, cp0)" and tail: "tail_nat n cp0 s = Some (cp, s')"
    and mn: "mn \<le> cp"
  shows "c # s = utf8_encode cp @ s'"
proof -
  have rebuild: "char_of (128 + (ord d - 128)) = d" if "cont_byte d" for d
    using that by (simp add: cont_byte_def)
  from lead consider
      "n = 1" "mn = 0x80" "cp0 = ord c - 192" "192 \<le> ord c" "ord c < 224"
    | "n = 2" "mn = 0x800" "cp0 = ord c - 224" "224 \<le> ord c" "ord c < 240"
    | "n = 3" "mn = 0x10000" "cp0 = ord c - 240" "240 \<le> ord c" "ord c < 248"
    by (auto simp: lead_nat_def split: if_splits)
  then show ?thesis
  proof cases
    case 1
    with tail obtain c1 where s: "s = c1 # s'" and c1: "cont_byte c1"
      and cp: "cp = (ord c - 192) * 64 + (ord c1 - 128)"
      by (auto elim!: tail_nat_SomeE)
    from c1 have r: "ord c1 - 128 < 64" by (auto simp: cont_byte_def)
    with 1 have "cp < 0x800" "cp div 64 = ord c - 192" "cp mod 64 = ord c1 - 128"
      by (auto simp: cp)
    with 1 mn c1 s rebuild show ?thesis by (simp add: utf8_encode_def)
  next
    case 2
    with tail obtain c1 c2 where s: "s = c1 # c2 # s'" and c: "cont_byte c1" "cont_byte c2"
      and cp: "cp = ((ord c - 224) * 64 + (ord c1 - 128)) * 64 + (ord c2 - 128)"
      by (auto simp: numeral_2_eq_2 elim!: tail_nat_SomeE)
    from c have "ord c1 - 128 < 64" "ord c2 - 128 < 64" by (auto simp: cont_byte_def)
    note dm = divmod64 [OF this(1)] divmod64 [OF this(2)]
    have "cp div 4096 = cp div 64 div 64" by (simp add: div_mult2_eq [of cp 64 64, simplified])
    then have "cp div 4096 = ord c - 224" "cp div 64 mod 64 = ord c1 - 128" "cp mod 64 = ord c2 - 128"
      by (simp_all only: cp dm)
    moreover from this(1) 2(5) have "cp div 4096 < 16" by linarith
    then have "cp < 0x10000" by (simp add: div_less_iff_less_mult)
    ultimately show ?thesis using 2 mn c s
      by (simp only: utf8_encode_long char_of_offset rebuild append_Cons append_Nil)
  next
    case 3
    with tail obtain c1 c2 c3 where s: "s = c1 # c2 # c3 # s'"
      and c: "cont_byte c1" "cont_byte c2" "cont_byte c3"
      and cp: "cp = (((ord c - 240) * 64 + (ord c1 - 128)) * 64 + (ord c2 - 128)) * 64 + (ord c3 - 128)"
      by (auto simp: numeral_3_eq_3 elim!: tail_nat_SomeE)
    from c have "ord c1 - 128 < 64" "ord c2 - 128 < 64" "ord c3 - 128 < 64"
      by (auto simp: cont_byte_def)
    note dm = divmod64 [OF this(1)] divmod64 [OF this(2)] divmod64 [OF this(3)]
    have "cp div 4096 = cp div 64 div 64" "cp div 262144 = cp div 64 div 64 div 64"
      by (simp_all flip: div_mult2_eq)
    then have "cp div 262144 = ord c - 240" "cp div 4096 mod 64 = ord c1 - 128"
      "cp div 64 mod 64 = ord c2 - 128" "cp mod 64 = ord c3 - 128"
      by (simp_all only: cp dm)
    with 3 mn c s show ?thesis
      by (simp only: utf8_encode_long char_of_offset rebuild append_Cons append_Nil)
  qed
qed

text \<open>Decoding side: what the check accepts starts with an encoded scalar value.\<close>

lemma utf8_valid_decode:
  assumes "utf8_valid (c # s)"
  shows "\<exists>k s'. scalar_value k \<and> c # s = utf8_encode k @ s' \<and> utf8_valid s'"
proof (cases "ord c < 128")
  case True
  with assms show ?thesis
    by (intro exI [of _ "ord c"] exI [of _ s]) (simp add: utf8_encode_def scalar_value_def)
next
  case False
  with assms obtain n mn cp0 cp s' where
    lead: "lead_nat (ord c) = Some (n, mn, cp0)" and tail: "tail_nat n cp0 s = Some (cp, s')"
    and ok: "mn \<le> cp" "scalar_value cp" "utf8_valid s'"
    by (auto simp: utf8_valid_nat simp del: utf8_valid.simps split: option.splits)
  have "c # s = utf8_encode cp @ s'"
    using encode_tail_nat [OF lead tail ok(1)] .
  with ok show ?thesis by blast
qed

lemma utf8_valid_iff:
  "utf8_valid s \<longleftrightarrow> (\<exists>ks. (\<forall>k\<in>set ks. scalar_value k) \<and> s = concat (map utf8_encode ks))"
proof
  assume "utf8_valid s"
  then show "\<exists>ks. (\<forall>k\<in>set ks. scalar_value k) \<and> s = concat (map utf8_encode ks)"
  proof (induction s rule: length_induct)
    case (1 s)
    show ?case
    proof (cases s)
      case Nil
      then show ?thesis by (intro exI [of _ "[]"]) simp
    next
      case (Cons c t)
      with "1.prems" obtain k s' where k: "scalar_value k" "s = utf8_encode k @ s'" "utf8_valid s'"
        using utf8_valid_decode by blast
      moreover have "length s' < length s" using k(2) by (simp add: utf8_encode_def)
      ultimately obtain ks where "\<forall>k\<in>set ks. scalar_value k" "s' = concat (map utf8_encode ks)"
        using "1.IH" by blast
      with k show ?thesis by (intro exI [of _ "k # ks"]) simp
    qed
  qed
next
  assume "\<exists>ks. (\<forall>k\<in>set ks. scalar_value k) \<and> s = concat (map utf8_encode ks)"
  then obtain ks where "\<forall>k\<in>set ks. scalar_value k" and s: "s = concat (map utf8_encode ks)" by blast
  then have "utf8_valid (concat (map utf8_encode ks))"
    by (induction ks arbitrary: s) (simp_all add: utf8_valid_encode)
  with s show "utf8_valid s" by simp
qed

text \<open>C15. The hand-written UTF-8 check accepts a byte string exactly when it is the
  concatenation of the encodings of Unicode scalar values, so overlong forms, surrogates,
  truncated sequences and values past U+10FFFF never pass.\<close>

theorem utf8_valid_iff_encoding:
  "utf8_valid s \<longleftrightarrow> (\<exists>ks. list_all scalar_value ks \<and> s = concat (map utf8_encode ks))"
  unfolding list_all_iff by (rule utf8_valid_iff)

end
