(* ===== verification/Bytewise.thy ===== *)
theory Bytewise
  imports Prelude
begin

text \<open>
  The comparison \<open>cmp_bytewise\<close> of \<open>src/digest.c\<close> and the library's \<open>qsort\<close> under it. The C
  standard leaves the algorithm and the order of equal elements of \<open>qsort\<close> open; the locale
  \<open>comparator\<close> states what a comparison must satisfy for the result not to depend on that
  freedom, and its interpretation shows that the code's comparison does.
\<close>

section \<open>Sorting with a comparison function\<close>

text \<open>One admissible \<open>qsort\<close>: insertion sort driven by the sign of the comparison.\<close>

fun qinsert :: "('a \<Rightarrow> 'a \<Rightarrow> int) \<Rightarrow> 'a \<Rightarrow> 'a list \<Rightarrow> 'a list" where
  "qinsert cmp x [] = [x]"
| "qinsert cmp x (y # ys) = (if cmp x y \<le> 0 then x # y # ys else y # qinsert cmp x ys)"

fun qsort :: "('a \<Rightarrow> 'a \<Rightarrow> int) \<Rightarrow> 'a list \<Rightarrow> 'a list" where
  "qsort cmp [] = []"
| "qsort cmp (x # xs) = qinsert cmp x (qsort cmp xs)"

lemma mset_qinsert [simp]: "mset (qinsert cmp x xs) = add_mset x (mset xs)"
  by (induction xs) auto

lemma mset_qsort [simp]: "mset (qsort cmp xs) = mset xs"
  by (induction xs) auto

lemma set_qinsert [simp]: "set (qinsert cmp x xs) = insert x (set xs)"
  by (induction xs) auto

lemma set_qsort [simp]: "set (qsort cmp xs) = set xs"
  by (induction xs) auto

lemma length_qsort [simp]: "length (qsort cmp xs) = length xs"
  by (metis mset_qsort size_mset)

lemma qsort_eq_Nil [simp]: "qsort cmp xs = [] \<longleftrightarrow> xs = []"
  by (metis length_0_conv length_qsort)

section \<open>The contract of a comparison\<close>

locale comparator =
  fixes cmp :: "'a \<Rightarrow> 'a \<Rightarrow> int" and ok :: "'a \<Rightarrow> bool"
  assumes cmp_eq: "ok x \<Longrightarrow> ok y \<Longrightarrow> cmp x y = 0 \<Longrightarrow> x = y"
    and cmp_swap: "ok x \<Longrightarrow> ok y \<Longrightarrow> cmp y x = - cmp x y"
    and cmp_trans: "ok x \<Longrightarrow> ok y \<Longrightarrow> ok z \<Longrightarrow> cmp x y \<le> 0 \<Longrightarrow> cmp y z \<le> 0 \<Longrightarrow> cmp x z \<le> 0"
begin

abbreviation ordered :: "'a list \<Rightarrow> bool" where
  "ordered \<equiv> sorted_wrt (\<lambda>x y. cmp x y \<le> 0)"

lemma cmp_connex: "ok x \<Longrightarrow> ok y \<Longrightarrow> cmp x y \<le> 0 \<or> cmp y x \<le> 0"
  using cmp_swap [of x y] by linarith

lemma cmp_antisym: "ok x \<Longrightarrow> ok y \<Longrightarrow> cmp x y \<le> 0 \<Longrightarrow> cmp y x \<le> 0 \<Longrightarrow> x = y"
  using cmp_eq [of x y] cmp_swap [of x y] by simp

lemma ordered_qinsert:
  "ok x \<Longrightarrow> \<forall>y\<in>set ys. ok y \<Longrightarrow> ordered ys \<Longrightarrow> ordered (qinsert cmp x ys)"
  by (induction ys) (auto dest: cmp_connex intro: cmp_trans)

lemma ordered_qsort: "\<forall>x\<in>set xs. ok x \<Longrightarrow> ordered (qsort cmp xs)"
  by (induction xs) (auto intro!: ordered_qinsert)

text \<open>Any ordered rearrangement is this one: the algorithm behind \<open>qsort\<close> is immaterial.\<close>

lemma ordered_unique:
  "mset xs = mset ys \<Longrightarrow> \<forall>x\<in>set xs. ok x \<Longrightarrow> ordered xs \<Longrightarrow> ordered ys \<Longrightarrow> xs = ys"
proof (induction xs arbitrary: ys)
  case (Cons x xs)
  then obtain y zs where ys: "ys = y # zs" by (cases ys) auto
  have sets: "set (x # xs) = set (y # zs)"
    using Cons.prems(1) ys by (metis mset_eq_setD)
  have okay: "ok x" "ok y" using Cons.prems(2) sets by auto
  have "cmp x y \<le> 0"
  proof (cases "x = y")
    case True
    then show ?thesis using cmp_swap [OF okay(1) okay(1)] by simp
  next
    case False
    then have "y \<in> set xs" using sets by auto
    with Cons.prems(3) show ?thesis by simp
  qed
  moreover have "cmp y x \<le> 0"
  proof (cases "x = y")
    case True
    then show ?thesis using cmp_swap [OF okay(1) okay(1)] by simp
  next
    case False
    then have "x \<in> set zs" using sets by auto
    with Cons.prems(4) ys show ?thesis by simp
  qed
  ultimately have xy: "x = y" using cmp_antisym okay by blast
  with Cons.prems ys have "xs = zs" by (intro Cons.IH) auto
  with xy ys show ?case by simp
qed simp

lemma qsort_unique:
  assumes "\<forall>x\<in>set xs. ok x" "mset ys = mset xs" "ordered ys"
  shows "ys = qsort cmp xs"
proof (rule ordered_unique)
  show "mset ys = mset (qsort cmp xs)" using assms(2) by simp
  show "\<forall>x\<in>set ys. ok x" using assms(1,2) by (metis mset_eq_setD)
  show "ordered (qsort cmp xs)" by (rule ordered_qsort [OF assms(1)])
qed (fact assms(3))

lemma qsort_cong_mset:
  assumes "\<forall>x\<in>set xs. ok x" "mset xs = mset ys"
  shows "qsort cmp xs = qsort cmp ys"
proof -
  have "\<forall>x\<in>set ys. ok x" using assms by (metis mset_eq_setD)
  then show ?thesis using qsort_unique [OF assms(1), of "qsort cmp ys"] assms(2) ordered_qsort
    by simp
qed

end

section \<open>The code's comparison\<close>

text \<open>
  Both pointers advance while the bytes agree; reading the end of a list is reading the
  terminator, whose value is 0. The result is the difference of the unsigned bytes.
\<close>

fun cmp_bytewise :: "string \<Rightarrow> string \<Rightarrow> int" where
  "cmp_bytewise [] [] = 0"
| "cmp_bytewise [] (y # ys) = 0 - of_char y"
| "cmp_bytewise (x # xs) [] = of_char x - 0"
| "cmp_bytewise (x # xs) (y # ys) =
     (if x \<noteq> y then of_char x - of_char y else cmp_bytewise xs ys)"

lemma of_char_int_eq: "(of_char x :: int) = of_char y \<longleftrightarrow> x = y"
  by simp

lemma of_char_pos: "x \<noteq> NUL \<Longrightarrow> 0 < (of_char x :: int)"
proof -
  assume "x \<noteq> NUL"
  then have "(of_char x :: int) \<noteq> of_char NUL" by (subst of_char_int_eq)
  then have "(of_char x :: int) \<noteq> 0" by simp
  moreover have "(of_char x :: int) = int (of_char x)" by (rule of_nat_of_char [symmetric])
  ultimately show ?thesis by linarith
qed

lemma cmp_bytewise_swap: "cmp_bytewise y x = - cmp_bytewise x y"
  by (induction x y rule: cmp_bytewise.induct) auto

lemma cmp_bytewise_eq:
  "NUL \<notin> set x \<Longrightarrow> NUL \<notin> set y \<Longrightarrow> cmp_bytewise x y = 0 \<longleftrightarrow> x = y"
proof (induction x y rule: cmp_bytewise.induct)
  case (2 y ys)
  then show ?case using of_char_pos [of y] by auto
next
  case (3 x xs)
  then show ?case using of_char_pos [of x] by auto
qed auto

text \<open>On C strings it is the lexicographic order of unsigned bytes.\<close>

lemma cmp_bytewise_le:
  "NUL \<notin> set x \<Longrightarrow> NUL \<notin> set y \<Longrightarrow> cmp_bytewise x y \<le> 0 \<longleftrightarrow> x \<le> y"
proof (induction x y rule: cmp_bytewise.induct)
  case (2 y ys)
  then show ?case using of_char_pos [of y] by auto
next
  case (3 x xs)
  then show ?case using of_char_pos [of x] by auto
next
  case (4 x xs y ys)
  have "(of_char x :: int) < of_char y \<longleftrightarrow> x < y"
    by (metis less_char_def of_nat_less_iff of_nat_of_char)
  with 4 show ?case by auto
qed auto

interpretation bytewise: comparator cmp_bytewise "\<lambda>s. NUL \<notin> set s"
proof unfold_locales
  fix x y z :: string
  assume ok: "NUL \<notin> set x" "NUL \<notin> set y"
  show "cmp_bytewise x y = 0 \<Longrightarrow> x = y" using ok by (simp add: cmp_bytewise_eq)
  show "cmp_bytewise y x = - cmp_bytewise x y" by (rule cmp_bytewise_swap)
  assume "NUL \<notin> set z" "cmp_bytewise x y \<le> 0" "cmp_bytewise y z \<le> 0"
  with ok show "cmp_bytewise x z \<le> 0" by (simp add: cmp_bytewise_le)
qed

lemma qsort_bytewise_sorted:
  assumes "\<forall>x\<in>set xs. NUL \<notin> set x"
  shows "sorted (qsort cmp_bytewise xs)"
proof -
  have "sorted_wrt (\<lambda>x y. cmp_bytewise x y \<le> 0) (qsort cmp_bytewise xs)"
    using assms by (rule bytewise.ordered_qsort)
  then show ?thesis
    by (rule sorted_wrt_mono_rel [rotated]) (use assms in \<open>simp add: cmp_bytewise_le\<close>)
qed

lemma qsort_bytewise_sort:
  "\<forall>x\<in>set xs. NUL \<notin> set x \<Longrightarrow> qsort cmp_bytewise xs = sort xs"
  by (rule properties_for_sort [symmetric]) (auto intro: qsort_bytewise_sorted)

end
