(* ===== verification/Alloc.thy ===== *)
theory Alloc
  imports Prelude
begin

text \<open>
  Computations that allocate. The digest and request code calls \<open>malloc\<close>, \<open>calloc\<close>,
  \<open>realloc\<close> and \<open>strdup\<close>; any of these may fail, and every failure is a branch of the
  source. The allocator is an oracle: \<open>A k\<close> says whether the \<open>k\<close>-th request succeeds, and a
  computation threads the number of requests made so far. All properties hold for every
  oracle; \<open>tcorrect\<close> statements assume one that never fails.

  A computation ends with \<open>Inr\<close> of a value or with \<open>Inl\<close> of the reason the code returns -1
  or a null pointer for. The source collapses the reasons; they are kept apart here so that
  the success conditions can be stated exactly.
\<close>

named_theorems alloc_rules \<open>rules for the partial and total correctness of allocating code\<close>

datatype refusal = Violation | NoMem | TooLarge | HashFail

type_synonym allocator = "nat \<Rightarrow> bool"
type_synonym 'a am = "allocator \<Rightarrow> nat \<Rightarrow> (refusal + 'a) \<times> nat"

definition aret :: "'a \<Rightarrow> 'a am" where
  "aret x = (\<lambda>A k. (Inr x, k))"

definition afail :: "refusal \<Rightarrow> 'a am" where
  "afail e = (\<lambda>A k. (Inl e, k))"

definition abind :: "'a am \<Rightarrow> ('a \<Rightarrow> 'b am) \<Rightarrow> 'b am" where
  "abind m f = (\<lambda>A k. case m A k of (Inl e, k') \<Rightarrow> (Inl e, k') | (Inr x, k') \<Rightarrow> f x A k')"

text \<open>One allocation request.\<close>

definition aalloc :: "unit am" where
  "aalloc = (\<lambda>A k. if A k then (Inr (), Suc k) else (Inl NoMem, Suc k))"

text \<open>Guard: the code's \<open>if (...) return -1\<close>.\<close>

definition aguard :: "bool \<Rightarrow> refusal \<Rightarrow> unit am" where
  "aguard b e = (if b then aret () else afail e)"

section \<open>Correctness judgements\<close>

text \<open>
  \<open>pcorrect m P\<close>: whatever the allocator does, a value returned by \<open>m\<close> satisfies \<open>P\<close>.
  \<open>tcorrect m P\<close>: with an allocator that never fails, \<open>m\<close> returns a value and it satisfies \<open>P\<close>.
\<close>

definition pcorrect :: "'a am \<Rightarrow> ('a \<Rightarrow> bool) \<Rightarrow> bool" where
  "pcorrect m P \<longleftrightarrow> (\<forall>A k x k'. m A k = (Inr x, k') \<longrightarrow> P x)"

definition tcorrect :: "'a am \<Rightarrow> ('a \<Rightarrow> bool) \<Rightarrow> bool" where
  "tcorrect m P \<longleftrightarrow> (\<forall>A k. (\<forall>i. A i) \<longrightarrow> (\<exists>x k'. m A k = (Inr x, k') \<and> P x))"

lemma pcI: "(\<And>A k x k'. m A k = (Inr x, k') \<Longrightarrow> P x) \<Longrightarrow> pcorrect m P"
  unfolding pcorrect_def by blast

lemma pcD: "pcorrect m P \<Longrightarrow> m A k = (Inr x, k') \<Longrightarrow> P x"
  unfolding pcorrect_def by blast

lemma tcI: "(\<And>A k. \<forall>i. A i \<Longrightarrow> \<exists>x k'. m A k = (Inr x, k') \<and> P x) \<Longrightarrow> tcorrect m P"
  unfolding tcorrect_def by blast

lemma tcE:
  assumes "tcorrect m P" "\<forall>i. A i"
  obtains x k' where "m A k = (Inr x, k')" "P x"
  using assms unfolding tcorrect_def by blast

lemma pc_ret [alloc_rules]: "P x \<Longrightarrow> pcorrect (aret x) P"
  by (simp add: pcorrect_def aret_def)

lemma pc_fail [alloc_rules]: "pcorrect (afail e) P"
  by (simp add: pcorrect_def afail_def)

lemma pc_alloc [alloc_rules]: "P () \<Longrightarrow> pcorrect aalloc P"
  by (simp add: pcorrect_def)

lemma pc_guard [alloc_rules]: "(b \<Longrightarrow> P ()) \<Longrightarrow> pcorrect (aguard b e) P"
  by (simp add: aguard_def pcorrect_def aret_def afail_def)

lemma pc_bind:
  "pcorrect m R \<Longrightarrow> (\<And>x. R x \<Longrightarrow> pcorrect (f x) P) \<Longrightarrow> pcorrect (abind m f) P"
  by (rule pcI) (auto simp: abind_def dest: pcD split: prod.splits sum.splits)

lemma pc_weaken: "pcorrect m P \<Longrightarrow> (\<And>x. P x \<Longrightarrow> Q x) \<Longrightarrow> pcorrect m Q"
  by (rule pcI) (blast dest: pcD)

lemma tc_ret [alloc_rules]: "P x \<Longrightarrow> tcorrect (aret x) P"
  by (simp add: tcorrect_def aret_def)

lemma tc_alloc [alloc_rules]: "P () \<Longrightarrow> tcorrect aalloc P"
  by (simp add: tcorrect_def aalloc_def)

lemma tc_guard [alloc_rules]: "b \<Longrightarrow> P () \<Longrightarrow> tcorrect (aguard b e) P"
  by (simp add: aguard_def tc_ret)

lemma tc_bind:
  "tcorrect m R \<Longrightarrow> (\<And>x. R x \<Longrightarrow> tcorrect (f x) P) \<Longrightarrow> tcorrect (abind m f) P"
proof (rule tcI)
  fix A :: allocator and k
  assume m: "tcorrect m R" and f: "\<And>x. R x \<Longrightarrow> tcorrect (f x) P" and A: "\<forall>i. A i"
  obtain x k1 where x: "m A k = (Inr x, k1)" "R x" using m A by (rule tcE)
  obtain y k2 where "f x A k1 = (Inr y, k2)" "P y" using f [OF x(2)] A by (rule tcE)
  with x show "\<exists>y k'. abind m f A k = (Inr y, k') \<and> P y" by (simp add: abind_def)
qed

lemma tc_weaken: "tcorrect m P \<Longrightarrow> (\<And>x. P x \<Longrightarrow> Q x) \<Longrightarrow> tcorrect m Q"
  by (rule tcI) (blast elim: tcE)

text \<open>The same rules read backwards, so that \<open>intro\<close> can walk through a chain of steps.\<close>

lemma pc_bind_wp [alloc_rules]: "pcorrect m (\<lambda>x. pcorrect (f x) P) \<Longrightarrow> pcorrect (abind m f) P"
  by (erule pc_bind)

lemma tc_bind_wp [alloc_rules]: "tcorrect m (\<lambda>x. tcorrect (f x) P) \<Longrightarrow> tcorrect (abind m f) P"
  by (erule tc_bind)

section \<open>Mapping a computation over a list\<close>

text \<open>The loop "for each element: build, or give up on the first failure".\<close>

fun amap :: "('a \<Rightarrow> 'b am) \<Rightarrow> 'a list \<Rightarrow> 'b list am" where
  "amap f [] = aret []"
| "amap f (x # xs) = abind (f x) (\<lambda>y. abind (amap f xs) (\<lambda>ys. aret (y # ys)))"

lemma pc_amap:
  assumes "\<And>x. pcorrect (f x) (P x)"
  shows "pcorrect (amap f xs) (\<lambda>ys. list_all2 P xs ys)"
proof (induction xs)
  case (Cons x xs)
  show ?case
    by (simp, rule pc_bind [OF assms], rule pc_bind [OF Cons.IH], rule pc_ret, simp)
qed (simp add: pc_ret)

lemma tc_amap:
  assumes "\<And>x. x \<in> set xs \<Longrightarrow> tcorrect (f x) (P x)"
  shows "tcorrect (amap f xs) (\<lambda>ys. list_all2 P xs ys)"
  using assms
proof (induction xs)
  case (Cons x xs)
  then have hd: "tcorrect (f x) (P x)" and tl: "tcorrect (amap f xs) (list_all2 P xs)"
    by simp_all
  show ?case
    by (simp, rule tc_bind [OF hd], rule tc_bind [OF tl], rule tc_ret, simp)
qed (simp add: tc_ret)

end
