(* ===== verification/Digest_Buffer.thy ===== *)
theory Digest_Buffer
  imports Alloc
begin

text \<open>
  The growable, size-bounded byte buffer of \<open>src/digest.c\<close> (\<open>buf\<close>, \<open>buf_reserve\<close>, \<open>buf_add\<close>,
  \<open>buf_addc\<close>) and the separator loop that the encoders run over it. \<open>bdata\<close> is the first \<open>len\<close>
  bytes behind the pointer, \<open>bcap\<close> the allocated size.
\<close>

definition max_canon :: nat where
  "max_canon = 4 * 1024 * 1024"

record buf =
  bdata :: string
  bcap :: nat

definition empty_buf :: buf where
  "empty_buf = \<lparr>bdata = [], bcap = 0\<rparr>"

text \<open>
  \<open>while (nc < need) nc *= 2\<close>. The start value is never 0 (an empty buffer starts from 64); for
  0 the loop would not move, and the model returns it unchanged.
\<close>

function grow_cap :: "nat \<Rightarrow> nat \<Rightarrow> nat" where
  "grow_cap nc need = (if nc < need \<and> 0 < nc then grow_cap (2 * nc) need else nc)"
  by pat_completeness auto
termination
  by (relation "measure (\<lambda>(nc, need). need - nc)") auto

declare grow_cap.simps [simp del]

definition buf_reserve :: "buf \<Rightarrow> nat \<Rightarrow> buf am" where
  "buf_reserve b extra =
     (if max_canon < length (bdata b) \<or> max_canon - length (bdata b) < extra then afail TooLarge
      else let need = length (bdata b) + extra in
        if need \<le> bcap b then aret b
        else let nc = grow_cap (if bcap b \<noteq> 0 then bcap b else 64) need in
          abind aalloc (\<lambda>_. aret (b\<lparr>bcap := nc\<rparr>)))"

definition buf_add :: "buf \<Rightarrow> string \<Rightarrow> buf am" where
  "buf_add b d = abind (buf_reserve b (length d)) (\<lambda>b. aret (b\<lparr>bdata := bdata b @ d\<rparr>))"

definition buf_addc :: "buf \<Rightarrow> char \<Rightarrow> buf am" where
  "buf_addc b c = buf_add b [c]"

text \<open>The loop that appends items with a separator before every item but the first.\<close>

fun join_loop :: "char \<Rightarrow> buf \<Rightarrow> bool \<Rightarrow> string list \<Rightarrow> buf am" where
  "join_loop sep b first [] = aret b"
| "join_loop sep b first (x # xs) =
     abind (if first then aret b else buf_addc b sep) (\<lambda>b.
     abind (buf_add b x) (\<lambda>b. join_loop sep b False xs))"

section \<open>Growth and bounds\<close>

lemma grow_cap_ge: "0 < nc \<Longrightarrow> need \<le> grow_cap nc need \<and> nc \<le> grow_cap nc need"
proof (induction nc need rule: grow_cap.induct)
  case (1 nc need)
  then show ?case
    by (cases "nc < need") (force simp: grow_cap.simps [of nc need])+
qed

lemma grow_cap_le: "0 < nc \<Longrightarrow> grow_cap nc need \<le> max nc (2 * need)"
proof (induction nc need rule: grow_cap.induct)
  case (1 nc need)
  then show ?case
    by (cases "nc < need") (auto simp: grow_cap.simps [of nc need])
qed

text \<open>
  The invariant of every buffer: the contents fit the allocation, the contents stay within
  the cap, and the allocation is at most twice the cap (so no size computation can wrap in a
  64-bit \<open>size_t\<close>).
\<close>

definition buf_ok :: "buf \<Rightarrow> bool" where
  "buf_ok b \<longleftrightarrow> length (bdata b) \<le> bcap b \<and> length (bdata b) \<le> max_canon \<and>
     bcap b \<le> 2 * max_canon"

lemma buf_ok_empty: "buf_ok empty_buf"
  by (simp add: buf_ok_def empty_buf_def)

lemma buf_reserve_ok:
  assumes "buf_ok b"
  shows "pcorrect (buf_reserve b n) (\<lambda>b'. bdata b' = bdata b \<and> buf_ok b' \<and>
    length (bdata b) + n \<le> bcap b' \<and> length (bdata b) + n \<le> max_canon)"
proof -
  let ?s = "if bcap b \<noteq> 0 then bcap b else 64" and ?n = "length (bdata b) + n"
  have pos: "0 < ?s" and small: "?s \<le> 2 * max_canon"
    using assms by (auto simp: buf_ok_def max_canon_def)
  have "?n \<le> grow_cap ?s ?n" "?s \<le> grow_cap ?s ?n" "grow_cap ?s ?n \<le> max ?s (2 * ?n)"
    using grow_cap_ge [OF pos] grow_cap_le [OF pos] by blast+
  with assms small show ?thesis
    unfolding buf_reserve_def Let_def
    by (auto simp: buf_ok_def intro!: alloc_rules split: if_splits)
qed

lemma buf_add_ok:
  assumes "buf_ok b"
  shows "pcorrect (buf_add b d) (\<lambda>b'. bdata b' = bdata b @ d \<and> buf_ok b')"
  unfolding buf_add_def
  by (rule pc_bind [OF buf_reserve_ok [OF assms]], rule pc_ret) (auto simp: buf_ok_def)

section \<open>What the operations append\<close>

lemma pc_reserve:
  "pcorrect (buf_reserve b n) (\<lambda>b'. bdata b' = bdata b \<and> length (bdata b) + n \<le> max_canon)"
  unfolding buf_reserve_def Let_def by (auto intro!: alloc_rules split: if_splits)

lemma pc_add [alloc_rules]:
  "(\<And>c. length (bdata b) + length d \<le> max_canon \<Longrightarrow> P \<lparr>bdata = bdata b @ d, bcap = c\<rparr>) \<Longrightarrow>
   pcorrect (buf_add b d) P"
  unfolding buf_add_def
  by (rule pc_bind [OF pc_reserve], rule pc_ret) (metis buf.surjective old.unit.exhaust buf.update_convs(1))

lemma tc_reserve:
  "length (bdata b) + n \<le> max_canon \<Longrightarrow> tcorrect (buf_reserve b n) (\<lambda>b'. bdata b' = bdata b)"
  unfolding buf_reserve_def Let_def by (auto intro!: alloc_rules split: if_splits)

lemma tc_add [alloc_rules]:
  "length (bdata b) + length d \<le> max_canon \<Longrightarrow> (\<And>c. P \<lparr>bdata = bdata b @ d, bcap = c\<rparr>) \<Longrightarrow>
   tcorrect (buf_add b d) P"
  unfolding buf_add_def
  by (rule tc_bind [OF tc_reserve], assumption, rule tc_ret)
     (metis buf.surjective old.unit.exhaust buf.update_convs(1))

lemma pc_addc [alloc_rules]:
  "(\<And>k. length (bdata b) < max_canon \<Longrightarrow> P \<lparr>bdata = bdata b @ [c], bcap = k\<rparr>) \<Longrightarrow>
   pcorrect (buf_addc b c) P"
  unfolding buf_addc_def by (rule pc_add) simp

lemma tc_addc [alloc_rules]:
  "length (bdata b) < max_canon \<Longrightarrow> (\<And>k. P \<lparr>bdata = bdata b @ [c], bcap = k\<rparr>) \<Longrightarrow>
   tcorrect (buf_addc b c) P"
  unfolding buf_addc_def by (rule tc_add) auto

text \<open>The bytes the separator loop adds.\<close>

definition joined :: "char \<Rightarrow> bool \<Rightarrow> string list \<Rightarrow> string" where
  "joined sep first xs = (if first \<or> xs = [] then [] else [sep]) @ sepby sep xs"

lemma joined_Cons: "joined sep first (x # xs) = (if first then [] else [sep]) @ x @ joined sep False xs"
  by (simp add: joined_def sepby_Cons)

lemma pc_join:
  "pcorrect (join_loop sep b first xs)
     (\<lambda>b'. bdata b' = bdata b @ joined sep first xs \<and>
       (length (bdata b) \<le> max_canon \<longrightarrow> length (bdata b') \<le> max_canon))"
proof (induction xs arbitrary: b first)
  case Nil
  show ?case by (simp add: joined_def pc_ret)
next
  case (Cons x xs)
  show ?case
    by (simp only: join_loop.simps)
       (auto intro!: alloc_rules pc_weaken [OF Cons.IH] simp: joined_Cons)
qed

lemma tc_join:
  "length (bdata b) + length (joined sep first xs) \<le> max_canon \<Longrightarrow>
   tcorrect (join_loop sep b first xs) (\<lambda>b'. bdata b' = bdata b @ joined sep first xs)"
proof (induction xs arbitrary: b first)
  case Nil
  show ?case by (simp add: joined_def tc_ret)
next
  case (Cons x xs)
  from Cons.prems show ?case
    by (simp only: join_loop.simps)
       (auto intro!: alloc_rules tc_weaken [OF Cons.IH] simp: joined_Cons split: if_splits)
qed

end
