(* ===== verification/Digest.thy ===== *)
theory Digest
  imports Utf8 Bytewise Digest_Buffer
begin

text \<open>
  The schema-1 plan digest of \<open>src/digest.c\<close>: the domain tables, the field check, the sorted
  sub-lists, the four record encoders, the canonical byte string and its hash, the canonical
  resource, and the normalisation of inline signing keys.

  OpenSSL's SHA-256 is a parameter \<open>evp\<close>: it maps the bytes to the raw digest, or to
  \<open>None\<close> when a context call fails. Every encoder returns the hex digest and the canonical
  bytes; \<open>Inl\<close> is the code's -1, in which case nothing is written to the caller's buffer.
\<close>

section \<open>Domains\<close>

definition US :: char where "US = CHR 0x1F"
definition RS :: char where "RS = CHR 0x1E"

definition TXN_VERBS :: "string list" where
  "TXN_VERBS = [''apt.install'', ''apt.remove'', ''apt.purge'', ''apt.upgrade'', ''apt.dist_upgrade'']"
definition HOLD_VERBS :: "string list" where
  "HOLD_VERBS = [''apt.hold'', ''apt.unhold'']"
definition ACTIONS :: "string list" where
  "ACTIONS = [''install'', ''upgrade'', ''downgrade'', ''remove'', ''purge'']"
definition FLAGS :: "string list" where
  "FLAGS = [''hold'', ''auto'', ''essential'', ''protected'']"
definition CFG_STATES :: "string list" where
  "CFG_STATES = [''half-installed'', ''unpacked'', ''half-configured'', ''triggers-awaited'',
     ''triggers-pending'']"
definition HOLD_STATES :: "string list" where
  "HOLD_STATES = [''hold'', ''install'']"
definition UPD_OPT_KEYS :: "string list" where
  "UPD_OPT_KEYS = [''signed-by'', ''architectures'', ''trusted'']"

text \<open>\<open>strcmp\<close> against each entry in turn.\<close>

fun in_set :: "string \<Rightarrow> string list \<Rightarrow> bool" where
  "in_set s [] = False"
| "in_set s (x # xs) = (if s = x then True else in_set s xs)"

lemma in_set_iff [simp]: "in_set s xs \<longleftrightarrow> s \<in> set xs"
  by (induction xs) auto

section \<open>Records\<close>

record txn_record =
  t_package :: "string option"
  t_architecture :: "string option"
  t_action :: "string option"
  t_from_version :: "string option"
  t_to_version :: "string option"
  t_flags :: "string option list"

record cfg_record =
  c_package :: "string option"
  c_architecture :: "string option"
  c_current_version :: "string option"
  c_state :: "string option"

record hold_record =
  h_package :: "string option"
  h_from_state :: "string option"
  h_to_state :: "string option"

text \<open>The parallel arrays \<open>opt_keys\<close> and \<open>opt_vals\<close> are one list of pairs.\<close>

record src_record =
  s_uri :: "string option"
  s_suite :: "string option"
  s_components :: "string option list"
  s_opts :: "(string option \<times> string option) list"

section \<open>Fields and sub-lists\<close>

fun no_delims :: "string \<Rightarrow> bool" where
  "no_delims [] = True"
| "no_delims (c # s) =
     (if c = US \<or> c = RS \<or> c = CHR '','' \<or> c = CHR ''='' then False else no_delims s)"

definition field_ok :: "string option \<Rightarrow> bool" where
  "field_ok s = (case s of None \<Rightarrow> True | Some t \<Rightarrow> no_delims (cstr t) \<and> utf8_valid (cstr t))"

fun adjacent_dup :: "string list \<Rightarrow> bool" where
  "adjacent_dup (x # y # ys) = (if x = y then True else adjacent_dup (y # ys))"
| "adjacent_dup _ = False"

text \<open>
  A finished buffer is terminated and returned as a C string; the string is the contents
  without the terminator that was appended last.
\<close>

definition c_string :: "buf \<Rightarrow> string am" where
  "c_string b = abind (buf_addc b NUL) (\<lambda>b. aret (butlast (bdata b)))"

text \<open>Validate, sort a copy, optionally refuse a duplicate, join with commas.\<close>

definition join_sorted :: "string option list \<Rightarrow> bool \<Rightarrow> string list option \<Rightarrow> string am" where
  "join_sorted items dedup allowed =
     abind (aguard (list_all (\<lambda>i. field_ok i \<and>
       (case allowed of None \<Rightarrow> True | Some tbl \<Rightarrow> in_set (nz i) tbl)) items) Violation) (\<lambda>_.
     abind aalloc (\<lambda>_.
     let tmp = qsort cmp_bytewise (map nz items) in
     abind (aguard (\<not> (dedup \<and> adjacent_dup tmp)) Violation) (\<lambda>_.
     abind (join_loop CHR '','' empty_buf True tmp) (\<lambda>b.
     c_string b))))"

text \<open>The check loop of \<open>join_sorted_kv\<close>: \<open>seen\<close> holds the keys of the earlier pairs.\<close>

fun kv_check :: "string list \<Rightarrow> string list \<Rightarrow> (string option \<times> string option) list \<Rightarrow> bool" where
  "kv_check allowed seen [] = True"
| "kv_check allowed seen ((k, v) # kvs) =
     (if \<not> field_ok k \<or> \<not> field_ok v \<or> \<not> in_set (nz k) allowed then False
      else if in_set (nz k) seen then False
      else kv_check allowed (seen @ [nz k]) kvs)"

definition kv_bytes :: "string option \<times> string option \<Rightarrow> string" where
  "kv_bytes kv = nz (fst kv) @ CHR ''='' # nz (snd kv)"

definition join_sorted_kv :: "(string option \<times> string option) list \<Rightarrow> string list \<Rightarrow> string am" where
  "join_sorted_kv kvs allowed =
     abind (aguard (kv_check allowed [] kvs) Violation) (\<lambda>_.
     abind aalloc (\<lambda>_.
     abind (amap (\<lambda>kv. abind aalloc (\<lambda>_. aret (kv_bytes kv))) kvs) (\<lambda>pairs.
     abind (join_loop CHR '','' empty_buf True (qsort cmp_bytewise pairs)) (\<lambda>b.
     c_string b))))"

definition add_field :: "buf \<Rightarrow> string option \<Rightarrow> buf am" where
  "add_field b s = abind (aguard (field_ok s) Violation) (\<lambda>_. buf_add b (nz s))"

definition add_field_us :: "buf \<Rightarrow> string option \<Rightarrow> buf am" where
  "add_field_us b s = abind (add_field b s) (\<lambda>b. buf_addc b US)"

section \<open>Hash and canonical string\<close>

definition hexdigit :: "nat \<Rightarrow> char" where
  "hexdigit n = ''0123456789abcdef'' ! n"

definition hex_of :: "8 word list \<Rightarrow> string" where
  "hex_of md = concat (map (\<lambda>b. [hexdigit (unat (drop_bit 4 b)), hexdigit (unat (and b 0xF))]) md)"

definition pkgx_sha256_hex :: "(string \<Rightarrow> 8 word list option) \<Rightarrow> string \<Rightarrow> string option" where
  "pkgx_sha256_hex evp data =
     (case evp data of
        None \<Rightarrow> None
      | Some md \<Rightarrow> if length md = 32 then Some (hex_of md) else None)"

definition finalize ::
  "(string \<Rightarrow> 8 word list option) \<Rightarrow> string \<Rightarrow> string list \<Rightarrow> (string \<times> string) am" where
  "finalize evp verb recs =
     abind (aguard (field_ok (Some verb)) Violation) (\<lambda>_.
     let recs = qsort cmp_bytewise recs in
     abind (buf_addc empty_buf CHR ''1'') (\<lambda>b.
     abind (buf_addc b RS) (\<lambda>b.
     abind (buf_add b (cstr verb)) (\<lambda>b.
     abind (buf_addc b RS) (\<lambda>b.
     abind (join_loop RS b True recs) (\<lambda>b.
     case pkgx_sha256_hex evp (bdata b) of
       None \<Rightarrow> afail HashFail
     | Some hex \<Rightarrow> aret (hex, bdata b)))))))"

section \<open>Per-verb encoders\<close>

definition pkg_txn_record :: "txn_record \<Rightarrow> string am" where
  "pkg_txn_record r =
     abind (aguard (in_set (nz (t_action r)) ACTIONS) Violation) (\<lambda>_.
     abind (join_sorted (t_flags r) True (Some FLAGS)) (\<lambda>flags.
     abind (add_field_us empty_buf (t_package r)) (\<lambda>b.
     abind (add_field_us b (t_architecture r)) (\<lambda>b.
     abind (add_field_us b (t_action r)) (\<lambda>b.
     abind (add_field_us b (t_from_version r)) (\<lambda>b.
     abind (add_field_us b (t_to_version r)) (\<lambda>b.
     abind (buf_add b flags) (\<lambda>b.
     c_string b))))))))"

definition cfg_record_bytes :: "cfg_record \<Rightarrow> string am" where
  "cfg_record_bytes r =
     abind (aguard (in_set (nz (c_state r)) CFG_STATES) Violation) (\<lambda>_.
     abind (add_field_us empty_buf (c_package r)) (\<lambda>b.
     abind (add_field_us b (c_architecture r)) (\<lambda>b.
     abind (add_field_us b (c_current_version r)) (\<lambda>b.
     abind (add_field b (c_state r)) (\<lambda>b.
     c_string b)))))"

definition hold_record_bytes :: "hold_record \<Rightarrow> string am" where
  "hold_record_bytes r =
     abind (aguard (in_set (nz (h_from_state r)) HOLD_STATES \<and>
       in_set (nz (h_to_state r)) HOLD_STATES) Violation) (\<lambda>_.
     abind (add_field_us empty_buf (h_package r)) (\<lambda>b.
     abind (add_field_us b (h_from_state r)) (\<lambda>b.
     abind (add_field b (h_to_state r)) (\<lambda>b.
     c_string b))))"

definition src_record_bytes :: "src_record \<Rightarrow> string am" where
  "src_record_bytes r =
     abind (join_sorted (s_components r) True None) (\<lambda>comps.
     abind (join_sorted_kv (s_opts r) UPD_OPT_KEYS) (\<lambda>opts.
     abind (add_field_us empty_buf (s_uri r)) (\<lambda>b.
     abind (add_field_us b (s_suite r)) (\<lambda>b.
     abind (buf_add b comps) (\<lambda>b.
     abind (buf_addc b US) (\<lambda>b.
     abind (buf_add b opts) (\<lambda>b.
     c_string b)))))))"

text \<open>Each digest: one array allocation, one record after another, then \<open>finalize\<close>.\<close>

definition pkgx_digest_pkg_txn ::
  "(string \<Rightarrow> 8 word list option) \<Rightarrow> string option \<Rightarrow> txn_record list \<Rightarrow> (string \<times> string) am" where
  "pkgx_digest_pkg_txn evp verb recs =
     abind (aguard (verb \<noteq> None \<and> in_set (nz verb) TXN_VERBS) Violation) (\<lambda>_.
     abind aalloc (\<lambda>_.
     abind (amap pkg_txn_record recs) (\<lambda>built. finalize evp (nz verb) built)))"

definition pkgx_digest_configure ::
  "(string \<Rightarrow> 8 word list option) \<Rightarrow> cfg_record list \<Rightarrow> (string \<times> string) am" where
  "pkgx_digest_configure evp recs =
     abind aalloc (\<lambda>_.
     abind (amap cfg_record_bytes recs) (\<lambda>built. finalize evp ''apt.configure'' built))"

definition pkgx_digest_hold ::
  "(string \<Rightarrow> 8 word list option) \<Rightarrow> string option \<Rightarrow> hold_record list \<Rightarrow> (string \<times> string) am" where
  "pkgx_digest_hold evp verb recs =
     abind (aguard (verb \<noteq> None \<and> in_set (nz verb) HOLD_VERBS) Violation) (\<lambda>_.
     abind aalloc (\<lambda>_.
     abind (amap hold_record_bytes recs) (\<lambda>built. finalize evp (nz verb) built)))"

definition pkgx_digest_update ::
  "(string \<Rightarrow> 8 word list option) \<Rightarrow> src_record list \<Rightarrow> (string \<times> string) am" where
  "pkgx_digest_update evp recs =
     abind aalloc (\<lambda>_.
     abind (amap src_record_bytes recs) (\<lambda>built. finalize evp ''apt.update'' built))"

definition pkgx_resource :: "string option list \<Rightarrow> string am" where
  "pkgx_resource targets = join_sorted targets True None"

section \<open>Inline signing keys\<close>

definition PGP_BEGIN :: string where
  "PGP_BEGIN = ''-----BEGIN PGP PUBLIC KEY BLOCK-----''"
definition PGP_END :: string where
  "PGP_END = ''-----END PGP PUBLIC KEY BLOCK-----''"

text \<open>
  The scan for the last footer: \<open>i\<close> runs from the end of the header while a footer still
  fits, and the last match wins. The recursion counts the remaining positions.
\<close>

fun last_footer :: "string \<Rightarrow> nat \<Rightarrow> nat \<Rightarrow> nat option \<Rightarrow> nat option" where
  "last_footer v i 0 epos = epos"
| "last_footer v i (Suc n) epos =
     last_footer v (Suc i) n (if take (length PGP_END) (drop i v) = PGP_END then Some i else epos)"

fun only_space :: "string \<Rightarrow> bool" where
  "only_space [] = True"
| "only_space (c # s) =
     (if c \<noteq> CHR 0x0A \<and> c \<noteq> CHR 0x0D \<and> c \<noteq> CHR '' '' \<and> c \<noteq> CHR 0x09 then False
      else only_space s)"

datatype token_result = KeepOriginal | HashFailed | Token string

definition pkgx_signed_by_inline_token ::
  "(string \<Rightarrow> 8 word list option) \<Rightarrow> string option \<Rightarrow> token_result" where
  "pkgx_signed_by_inline_token evp value =
     (case value of
        None \<Rightarrow> KeepOriginal
      | Some v \<Rightarrow>
          if length v < length PGP_BEGIN \<or> take (length PGP_BEGIN) v \<noteq> PGP_BEGIN then KeepOriginal
          else
            case last_footer v (length PGP_BEGIN)
                   (length v + 1 - length PGP_BEGIN - length PGP_END) None of
              None \<Rightarrow> KeepOriginal
            | Some epos \<Rightarrow>
                if \<not> only_space (drop (epos + length PGP_END) v) then KeepOriginal
                else case pkgx_sha256_hex evp v of
                    None \<Rightarrow> HashFailed
                  | Some hex \<Rightarrow> Token (''inline-sha256:'' @ hex))"

end
