(* ===== verification/Digest_Spec.thy ===== *)
theory Digest_Spec
  imports Digest
begin

text \<open>
  What the digest encoders compute: a reference encoding of each record kind, the validity
  conditions, and the generic argument (locale \<open>record_codec\<close>) that the digest of a list of
  records is the reference canonical string, refuses exactly the invalid plans, does not
  depend on the order of the records, and determines them.
\<close>

section \<open>Reference encoding\<close>

definition csv :: "string list \<Rightarrow> string" where
  "csv xs = sepby CHR '','' (sort xs)"

definition txn_ok :: "txn_record \<Rightarrow> bool" where
  "txn_ok r \<longleftrightarrow> nz (t_action r) \<in> set ACTIONS \<and>
     (\<forall>f\<in>set (t_flags r). field_ok f \<and> nz f \<in> set FLAGS) \<and> distinct (map nz (t_flags r)) \<and>
     list_all field_ok [t_package r, t_architecture r, t_action r, t_from_version r, t_to_version r]"

definition txn_bytes :: "txn_record \<Rightarrow> string" where
  "txn_bytes r = sepby US [nz (t_package r), nz (t_architecture r), nz (t_action r),
     nz (t_from_version r), nz (t_to_version r), csv (map nz (t_flags r))]"

lemma adjacent_dup_sorted: "sorted xs \<Longrightarrow> adjacent_dup xs \<longleftrightarrow> \<not> distinct xs"
  by (induction xs rule: adjacent_dup.induct) (auto)

definition items_ok :: "string option list \<Rightarrow> bool \<Rightarrow> string list option \<Rightarrow> bool" where
  "items_ok items dedup allowed \<longleftrightarrow>
     (\<forall>i\<in>set items. field_ok i \<and> (case allowed of None \<Rightarrow> True | Some tbl \<Rightarrow> nz i \<in> set tbl)) \<and>
     (dedup \<longrightarrow> distinct (map nz items))"

lemma bdata_empty [simp]: "bdata empty_buf = []"
  by (simp add: empty_buf_def)

lemma qsort_nz [simp]: "qsort cmp_bytewise (map nz items) = sort (map nz items)"
  by (rule qsort_bytewise_sort) auto

lemma adjacent_dup_sort [simp]: "adjacent_dup (sort xs) \<longleftrightarrow> \<not> distinct xs"
  using adjacent_dup_sorted [of "sort xs"] by simp

lemma pc_join_eq [alloc_rules]:
  "(\<And>c. length (bdata b) \<le> max_canon \<longrightarrow> length (bdata b @ joined sep first xs) \<le> max_canon \<Longrightarrow>
     P \<lparr>bdata = bdata b @ joined sep first xs, bcap = c\<rparr>) \<Longrightarrow> pcorrect (join_loop sep b first xs) P"
  by (rule pc_weaken [OF pc_join]) (metis buf.surjective old.unit.exhaust)

lemma tc_join_eq [alloc_rules]:
  "length (bdata b) + length (joined sep first xs) \<le> max_canon \<Longrightarrow>
   (\<And>c. P \<lparr>bdata = bdata b @ joined sep first xs, bcap = c\<rparr>) \<Longrightarrow> tcorrect (join_loop sep b first xs) P"
  by (rule tc_weaken [OF tc_join], assumption) (metis buf.surjective old.unit.exhaust)

lemma joined_True [simp]: "joined sep True xs = sepby sep xs"
  by (simp add: joined_def)

lemma pc_c_string [alloc_rules]:
  "(length (bdata b) < max_canon \<Longrightarrow> P (bdata b)) \<Longrightarrow> pcorrect (c_string b) P"
  unfolding c_string_def by (intro alloc_rules) simp

lemma tc_c_string [alloc_rules]:
  "length (bdata b) < max_canon \<Longrightarrow> P (bdata b) \<Longrightarrow> tcorrect (c_string b) P"
  unfolding c_string_def by (intro alloc_rules) simp_all

lemma pc_join_sorted [alloc_rules]:
  "(items_ok items dedup allowed \<Longrightarrow> length (csv (map nz items)) < max_canon \<Longrightarrow>
     P (csv (map nz items))) \<Longrightarrow> pcorrect (join_sorted items dedup allowed) P"
  unfolding join_sorted_def Let_def qsort_nz
  by (intro alloc_rules) (auto simp: items_ok_def csv_def list_all_iff split: option.splits)

lemma tc_join_sorted [alloc_rules]:
  "items_ok items dedup allowed \<Longrightarrow> length (csv (map nz items)) < max_canon \<Longrightarrow> P (csv (map nz items)) \<Longrightarrow>
   tcorrect (join_sorted items dedup allowed) P"
  unfolding join_sorted_def Let_def qsort_nz
  by (intro alloc_rules) (auto simp: items_ok_def csv_def list_all_iff split: option.splits)

section \<open>Options\<close>

definition kvs_ok :: "string list \<Rightarrow> (string option \<times> string option) list \<Rightarrow> bool" where
  "kvs_ok allowed kvs \<longleftrightarrow>
     (\<forall>(k, v)\<in>set kvs. field_ok k \<and> field_ok v \<and> nz k \<in> set allowed) \<and>
     distinct (map (nz \<circ> fst) kvs)"

lemma kv_check_iff:
  "kv_check allowed seen kvs \<longleftrightarrow> kvs_ok allowed kvs \<and> set seen \<inter> set (map (nz \<circ> fst) kvs) = {}"
proof (induction allowed seen kvs rule: kv_check.induct)
  case (2 allowed seen k v kvs)
  then show ?case by (auto simp: kvs_ok_def)
qed (simp add: kvs_ok_def)

lemma kv_check_Nil [simp]: "kv_check allowed [] kvs = kvs_ok allowed kvs"
  by (simp add: kv_check_iff)

lemma kv_bytes_no_nul [simp]: "NUL \<notin> set (kv_bytes kv)"
  by (simp add: kv_bytes_def)

lemma qsort_kv [simp]: "qsort cmp_bytewise (map kv_bytes kvs) = sort (map kv_bytes kvs)"
  by (rule qsort_bytewise_sort) auto

lemma pc_amap_eq:
  assumes "\<And>x. pcorrect (f x) (\<lambda>y. ok x \<and> y = g x)" and "(\<forall>x\<in>set xs. ok x) \<Longrightarrow> P (map g xs)"
  shows "pcorrect (amap f xs) P"
proof (rule pc_weaken [OF pc_amap [of f "\<lambda>x y. ok x \<and> y = g x"]])
  fix ys assume "list_all2 (\<lambda>x y. ok x \<and> y = g x) xs ys"
  then have "(\<forall>x\<in>set xs. ok x) \<and> ys = map g xs"
    by (induction rule: list_all2_induct) auto
  with assms(2) show "P ys" by simp
qed (rule assms(1))

lemma tc_amap_eq:
  assumes "\<And>x. x \<in> set xs \<Longrightarrow> tcorrect (f x) (\<lambda>y. y = g x)" and "P (map g xs)"
  shows "tcorrect (amap f xs) P"
proof (rule tc_weaken [OF tc_amap [of xs f "\<lambda>x y. y = g x"]])
  fix ys assume "list_all2 (\<lambda>x y. y = g x) xs ys"
  then have "ys = map g xs" by (induction rule: list_all2_induct) auto
  with assms(2) show "P ys" by simp
qed (rule assms(1))

lemma pc_join_sorted_kv [alloc_rules]:
  "(kvs_ok allowed kvs \<Longrightarrow> P (csv (map kv_bytes kvs))) \<Longrightarrow> pcorrect (join_sorted_kv kvs allowed) P"
  unfolding join_sorted_kv_def
  by (intro alloc_rules pc_amap_eq [where g = kv_bytes and ok = "\<lambda>_. True"]) (auto simp: csv_def)

lemma tc_join_sorted_kv [alloc_rules]:
  "kvs_ok allowed kvs \<Longrightarrow> length (csv (map kv_bytes kvs)) < max_canon \<Longrightarrow>
   P (csv (map kv_bytes kvs)) \<Longrightarrow> tcorrect (join_sorted_kv kvs allowed) P"
  unfolding join_sorted_kv_def
  by (intro alloc_rules tc_amap_eq [where g = kv_bytes]) (auto simp: csv_def)

section \<open>Fields\<close>

lemma pc_add_field [alloc_rules]:
  "(\<And>c. field_ok s \<Longrightarrow> P \<lparr>bdata = bdata b @ nz s, bcap = c\<rparr>) \<Longrightarrow> pcorrect (add_field b s) P"
  unfolding add_field_def by (intro alloc_rules) auto

lemma tc_add_field [alloc_rules]:
  "field_ok s \<Longrightarrow> length (bdata b) + length (nz s) \<le> max_canon \<Longrightarrow>
   (\<And>c. P \<lparr>bdata = bdata b @ nz s, bcap = c\<rparr>) \<Longrightarrow> tcorrect (add_field b s) P"
  unfolding add_field_def by (intro alloc_rules) auto

lemma pc_add_field_us [alloc_rules]:
  "(\<And>c. field_ok s \<Longrightarrow> P \<lparr>bdata = bdata b @ nz s @ [US], bcap = c\<rparr>) \<Longrightarrow> pcorrect (add_field_us b s) P"
  unfolding add_field_us_def by (intro alloc_rules) auto

lemma tc_add_field_us [alloc_rules]:
  "field_ok s \<Longrightarrow> length (bdata b) + length (nz s) < max_canon \<Longrightarrow>
   (\<And>c. P \<lparr>bdata = bdata b @ nz s @ [US], bcap = c\<rparr>) \<Longrightarrow> tcorrect (add_field_us b s) P"
  unfolding add_field_us_def by (intro alloc_rules) auto

section \<open>The four record kinds\<close>

lemma pc_txn: "pcorrect (pkg_txn_record r) (\<lambda>s. txn_ok r \<and> s = txn_bytes r)"
  unfolding pkg_txn_record_def
  by (intro alloc_rules) (auto simp: txn_ok_def txn_bytes_def items_ok_def)

lemma tc_txn:
  "txn_ok r \<Longrightarrow> length (txn_bytes r) < max_canon \<Longrightarrow> tcorrect (pkg_txn_record r) (\<lambda>s. s = txn_bytes r)"
  unfolding pkg_txn_record_def
  by (intro alloc_rules) (auto simp: txn_ok_def txn_bytes_def items_ok_def)

definition cfg_ok :: "cfg_record \<Rightarrow> bool" where
  "cfg_ok r \<longleftrightarrow> nz (c_state r) \<in> set CFG_STATES \<and>
     list_all field_ok [c_package r, c_architecture r, c_current_version r, c_state r]"

definition cfg_bytes :: "cfg_record \<Rightarrow> string" where
  "cfg_bytes r = sepby US [nz (c_package r), nz (c_architecture r), nz (c_current_version r),
     nz (c_state r)]"

lemma pc_cfg: "pcorrect (cfg_record_bytes r) (\<lambda>s. cfg_ok r \<and> s = cfg_bytes r)"
  unfolding cfg_record_bytes_def
  by (intro alloc_rules) (auto simp: cfg_ok_def cfg_bytes_def)

lemma tc_cfg:
  "cfg_ok r \<Longrightarrow> length (cfg_bytes r) < max_canon \<Longrightarrow> tcorrect (cfg_record_bytes r) (\<lambda>s. s = cfg_bytes r)"
  unfolding cfg_record_bytes_def
  by (intro alloc_rules) (auto simp: cfg_ok_def cfg_bytes_def)

definition hold_ok :: "hold_record \<Rightarrow> bool" where
  "hold_ok r \<longleftrightarrow> nz (h_from_state r) \<in> set HOLD_STATES \<and> nz (h_to_state r) \<in> set HOLD_STATES \<and>
     list_all field_ok [h_package r, h_from_state r, h_to_state r]"

definition hold_bytes :: "hold_record \<Rightarrow> string" where
  "hold_bytes r = sepby US [nz (h_package r), nz (h_from_state r), nz (h_to_state r)]"

lemma pc_hold: "pcorrect (hold_record_bytes r) (\<lambda>s. hold_ok r \<and> s = hold_bytes r)"
  unfolding hold_record_bytes_def
  by (intro alloc_rules) (auto simp: hold_ok_def hold_bytes_def)

lemma tc_hold:
  "hold_ok r \<Longrightarrow> length (hold_bytes r) < max_canon \<Longrightarrow> tcorrect (hold_record_bytes r) (\<lambda>s. s = hold_bytes r)"
  unfolding hold_record_bytes_def
  by (intro alloc_rules) (auto simp: hold_ok_def hold_bytes_def)

definition src_ok :: "src_record \<Rightarrow> bool" where
  "src_ok r \<longleftrightarrow> list_all field_ok [s_uri r, s_suite r] \<and>
     (\<forall>c\<in>set (s_components r). field_ok c) \<and> distinct (map nz (s_components r)) \<and>
     kvs_ok UPD_OPT_KEYS (s_opts r)"

definition src_bytes :: "src_record \<Rightarrow> string" where
  "src_bytes r = sepby US [nz (s_uri r), nz (s_suite r), csv (map nz (s_components r)),
     csv (map kv_bytes (s_opts r))]"

lemma pc_src: "pcorrect (src_record_bytes r) (\<lambda>s. src_ok r \<and> s = src_bytes r)"
  unfolding src_record_bytes_def
  by (intro alloc_rules) (auto simp: src_ok_def src_bytes_def items_ok_def)

lemma tc_src:
  "src_ok r \<Longrightarrow> length (src_bytes r) < max_canon \<Longrightarrow> tcorrect (src_record_bytes r) (\<lambda>s. s = src_bytes r)"
  unfolding src_record_bytes_def
  by (intro alloc_rules) (auto simp: src_ok_def src_bytes_def items_ok_def)

end
