(* ===== verification/Digest_Codec.thy ===== *)
theory Digest_Codec
  imports Digest_Spec
begin

text \<open>
  The hash in hexadecimal, the canonical byte string, and the locale \<open>record_codec\<close>: the
  contract between a record encoder and the digest built from it. The lemmas inside the
  locale are proved once and used for the four record kinds of \<open>src/digest.c\<close>.
\<close>

section \<open>The hash in hexadecimal\<close>

lemma hexdigit_inject:
  assumes "m < 16" "n < 16"
  shows "hexdigit m = hexdigit n \<longleftrightarrow> m = n"
proof -
  have "distinct ''0123456789abcdef''" by simp
  then show ?thesis
    unfolding hexdigit_def by (rule nth_eq_iff_index_eq) (use assms in simp_all)
qed

lemma byte_nibbles:
  fixes b :: "8 word"
  shows "unat (drop_bit 4 b) = unat b div 16" "unat (and b 0xF) = unat b mod 16"
proof -
  show "unat (drop_bit 4 b) = unat b div 16"
    by (simp add: drop_bit_eq_div unat_div)
  have "unat (and b (mask 4)) = unat b mod 2 ^ 4"
    by (simp only: take_bit_eq_mask [symmetric] unsigned_take_bit_eq) (simp add: take_bit_eq_mod)
  then show "unat (and b 0xF) = unat b mod 16" by (simp add: mask_eq_exp_minus_1)
qed

lemma byte_hex_inject:
  fixes a b :: "8 word"
  assumes "hexdigit (unat (drop_bit 4 a)) = hexdigit (unat (drop_bit 4 b))"
    and "hexdigit (unat (and a 0xF)) = hexdigit (unat (and b 0xF))"
  shows "a = b"
proof -
  have lt: "unat c div 16 < 16" "unat c mod 16 < 16" for c :: "8 word"
    using unsigned_less [of c, where ?'a = nat] by auto
  have "unat a div 16 = unat b div 16" "unat a mod 16 = unat b mod 16"
    using assms lt by (simp_all add: byte_nibbles hexdigit_inject)
  then have "unat a = unat b" by (metis div_mult_mod_eq)
  then show ?thesis by (simp add: word_unat_eq_iff)
qed

lemma hex_of_Nil [simp]: "hex_of [] = []"
  by (simp add: hex_of_def)

lemma hex_of_Cons: "hex_of (b # bs) =
  hexdigit (unat (drop_bit 4 b)) # hexdigit (unat (and b 0xF)) # hex_of bs"
  by (simp add: hex_of_def)

lemma length_hex_of [simp]: "length (hex_of md) = 2 * length md"
  by (induction md) (simp_all add: hex_of_Cons)

lemma hex_of_inject: "hex_of a = hex_of b \<longleftrightarrow> a = b"
proof
  show "hex_of a = hex_of b \<Longrightarrow> a = b"
  proof (induction a arbitrary: b)
    case Nil
    then show ?case by (cases b) (simp_all add: hex_of_Cons)
  next
    case (Cons x xs)
    then obtain y ys where b: "b = y # ys" by (cases b) (simp_all add: hex_of_Cons)
    with Cons show ?case by (auto simp: hex_of_Cons intro: byte_hex_inject)
  qed
qed simp

lemma hexdigit_set: "n < 16 \<Longrightarrow> hexdigit n \<in> set ''0123456789abcdef''"
  unfolding hexdigit_def by (rule nth_mem) simp

lemma hex_of_digits: "set (hex_of md) \<subseteq> set ''0123456789abcdef''"
proof (induction md)
  case (Cons b md)
  have "unat b div 16 < 16" "unat b mod 16 < 16"
    using unsigned_less [of b, where ?'a = nat] by auto
  then have "hexdigit (unat (drop_bit 4 b)) \<in> set ''0123456789abcdef''"
    "hexdigit (unat (and b 0xF)) \<in> set ''0123456789abcdef''"
    by (simp_all only: byte_nibbles hexdigit_set)
  with Cons show ?case by (simp add: hex_of_Cons)
qed simp

section \<open>The canonical byte string\<close>

definition canon_bytes :: "string \<Rightarrow> string list \<Rightarrow> string" where
  "canon_bytes verb recs = CHR ''1'' # RS # verb @ RS # sepby RS (sort recs)"

definition hashed :: "(string \<Rightarrow> 8 word list option) \<Rightarrow> string \<times> string \<Rightarrow> bool" where
  "hashed evp p \<longleftrightarrow> (\<exists>md. evp (snd p) = Some md \<and> length md = 32 \<and> fst p = hex_of md)"

lemma sha_Some_iff:
  "pkgx_sha256_hex evp d = Some h \<longleftrightarrow> (\<exists>md. evp d = Some md \<and> length md = 32 \<and> h = hex_of md)"
  by (auto simp: pkgx_sha256_hex_def split: option.splits)

lemma pc_finalize [alloc_rules]:
  assumes nul: "\<forall>r\<in>set recs. NUL \<notin> set r"
    and P: "\<And>h. field_ok (Some verb) \<Longrightarrow> length (canon_bytes (cstr verb) recs) \<le> max_canon \<Longrightarrow>
      hashed evp (h, canon_bytes (cstr verb) recs) \<Longrightarrow> P (h, canon_bytes (cstr verb) recs)"
  shows "pcorrect (finalize evp verb recs) P"
  unfolding finalize_def Let_def qsort_bytewise_sort [OF nul]
  by (intro alloc_rules)
     (auto intro!: alloc_rules P [unfolded canon_bytes_def] simp: hashed_def sha_Some_iff split: option.splits)

lemma tc_finalize [alloc_rules]:
  assumes nul: "\<forall>r\<in>set recs. NUL \<notin> set r"
    and "field_ok (Some verb)" "length (canon_bytes (cstr verb) recs) \<le> max_canon"
    and "hashed evp (h, canon_bytes (cstr verb) recs)"
    and P: "P (h, canon_bytes (cstr verb) recs)"
  shows "tcorrect (finalize evp verb recs) P"
  unfolding finalize_def Let_def qsort_bytewise_sort [OF nul]
  by (intro alloc_rules)
     (use assms in \<open>auto intro!: alloc_rules P simp: canon_bytes_def hashed_def pkgx_sha256_hex_def\<close>)

lemma canon_bytes_perm: "mset rs = mset rs' \<Longrightarrow> canon_bytes v rs = canon_bytes v rs'"
  unfolding canon_bytes_def by (metis sorted_list_of_multiset_mset)

lemma canon_bytes_inject:
  assumes "RS \<notin> set v" "RS \<notin> set v'"
    and "\<forall>r\<in>set rs. r \<noteq> [] \<and> RS \<notin> set r" "\<forall>r\<in>set rs'. r \<noteq> [] \<and> RS \<notin> set r"
  shows "canon_bytes v rs = canon_bytes v' rs' \<longleftrightarrow> v = v' \<and> mset rs = mset rs'"
proof
  assume "canon_bytes v rs = canon_bytes v' rs'"
  then have "v = v'" and s: "sepby RS (sort rs) = sepby RS (sort rs')"
    using assms(1,2) by (simp_all add: canon_bytes_def append_sep_inject)
  moreover have "sort rs = sort rs'"
    by (rule sepby_inject_nonempty [OF _ _ s]) (use assms in simp_all)
  then have "mset rs = mset rs'" by (metis mset_sort)
  ultimately show "v = v' \<and> mset rs = mset rs'" by blast
qed (auto intro: canon_bytes_perm)

lemma length_mem_canon: "r \<in> set rs \<Longrightarrow> length r < length (canon_bytes v rs)"
  using length_sepby_le [of r "sort rs" RS] by (simp add: canon_bytes_def)


section \<open>The contract of a record encoder\<close>

text \<open>
  \<open>enc\<close> is the code's encoder, \<open>ok\<close> the validity of a record, \<open>bytes\<close> its reference encoding
  and \<open>norm\<close> the information that encoding carries. The digest entry points rely on nothing
  else about the record kind.
\<close>

locale record_codec =
  fixes enc :: "'r \<Rightarrow> string am" and ok :: "'r \<Rightarrow> bool" and bytes :: "'r \<Rightarrow> string"
    and norm :: "'r \<Rightarrow> 'n"
  assumes enc_partial: "pcorrect (enc r) (\<lambda>s. ok r \<and> s = bytes r)"
    and enc_total: "ok r \<Longrightarrow> length (bytes r) < max_canon \<Longrightarrow> tcorrect (enc r) (\<lambda>s. s = bytes r)"
    and bytes_nonempty: "bytes r \<noteq> []"
    and bytes_no_nul: "NUL \<notin> set (bytes r)"
    and bytes_no_rs: "ok r \<Longrightarrow> RS \<notin> set (bytes r)"
    and bytes_inject: "ok r \<Longrightarrow> ok r' \<Longrightarrow> bytes r = bytes r' \<longleftrightarrow> norm r = norm r'"
begin

abbreviation digest_body ::
  "(string \<Rightarrow> 8 word list option) \<Rightarrow> string \<Rightarrow> 'r list \<Rightarrow> (string \<times> string) am" where
  "digest_body evp verb recs \<equiv> abind aalloc (\<lambda>_. abind (amap enc recs) (finalize evp verb))"

abbreviation canon :: "string \<Rightarrow> 'r list \<Rightarrow> string" where
  "canon verb recs \<equiv> canon_bytes (cstr verb) (map bytes recs)"

lemma body_partial:
  "pcorrect (digest_body evp verb recs)
     (\<lambda>p. (\<forall>r\<in>set recs. ok r) \<and> snd p = canon verb recs \<and> length (snd p) \<le> max_canon \<and> hashed evp p)"
  by (intro alloc_rules pc_amap_eq [where g = bytes and ok = ok] enc_partial)
     (auto simp: bytes_no_nul)

lemma body_total:
  assumes "\<forall>r\<in>set recs. ok r" "field_ok (Some verb)" "length (canon verb recs) \<le> max_canon"
    and "hashed evp (h, canon verb recs)"
  shows "tcorrect (digest_body evp verb recs) (\<lambda>p. p = (h, canon verb recs))"
proof (intro alloc_rules tc_amap_eq [where g = bytes])
  fix r assume r: "r \<in> set recs"
  then have "length (bytes r) < length (canon verb recs)" by (intro length_mem_canon) simp
  with assms(3) have "length (bytes r) < max_canon" by simp
  with r assms(1) show "tcorrect (enc r) (\<lambda>y. y = bytes r)" by (intro enc_total) auto
qed (use assms bytes_no_nul in auto)

lemma mset_bytes_iff:
  assumes "\<forall>r\<in>set rs. ok r" "\<forall>r\<in>set rs'. ok r"
  shows "mset (map bytes rs) = mset (map bytes rs') \<longleftrightarrow> mset (map norm rs) = mset (map norm rs')"
  by (rule mset_map_eq_iff [where S = "Collect ok"]) (use assms bytes_inject in auto)

text \<open>The canonical string determines the verb and the multiset of normalised records.\<close>

lemma canon_determines:
  assumes "\<forall>r\<in>set rs. ok r" "\<forall>r\<in>set rs'. ok r" "RS \<notin> set (cstr v)" "RS \<notin> set (cstr v')"
  shows "canon v rs = canon v' rs' \<longleftrightarrow> cstr v = cstr v' \<and> mset (map norm rs) = mset (map norm rs')"
  using assms bytes_no_rs bytes_nonempty mset_bytes_iff [OF assms(1,2)]
  by (subst canon_bytes_inject) auto

end

end
