(* ===== verification/Digest_Kinds.thy ===== *)
theory Digest_Kinds
  imports Digest_Codec
begin

text \<open>
  The four record kinds of \<open>src/digest.c\<close> satisfy the contract \<open>record_codec\<close>: what each kind
  carries (its normal form), why its separators cannot occur in its fields, and the
  interpretations on the encoders translated from the code.
\<close>

section \<open>Clean fields\<close>

lemma no_delims_iff: "no_delims s \<longleftrightarrow> US \<notin> set s \<and> RS \<notin> set s \<and> CHR '','' \<notin> set s \<and> CHR ''='' \<notin> set s"
  by (induction s) auto

lemma field_ok_nz:
  assumes "field_ok s"
  shows "US \<notin> set (nz s)" "RS \<notin> set (nz s)" "CHR '','' \<notin> set (nz s)" "CHR ''='' \<notin> set (nz s)"
  using assms by (cases s; simp add: field_ok_def no_delims_iff)+

lemma seps_distinct [simp]:
  "US \<noteq> RS" "RS \<noteq> US" "CHR '','' \<noteq> US" "CHR '','' \<noteq> RS" "CHR ''='' \<noteq> US" "CHR ''='' \<noteq> RS"
  "US \<noteq> CHR ''=''" "RS \<noteq> CHR ''=''" "US \<noteq> CHR '',''" "RS \<noteq> CHR '',''" "US \<noteq> NUL" "RS \<noteq> NUL" "NUL \<noteq> US" "NUL \<noteq> RS"
  by (simp_all add: US_def RS_def)

lemma set_csv: "set (csv xs) \<subseteq> insert CHR '','' (\<Union> (set ` set xs))"
  using set_sepby [of "CHR '',''" "sort xs"] by (simp add: csv_def)

lemma csv_clean:
  assumes "\<forall>x\<in>set xs. c \<notin> set x" "c \<noteq> CHR '',''"
  shows "c \<notin> set (csv xs)"
  using set_csv [of xs] assms by auto

lemma csv_perm: "mset xs = mset ys \<Longrightarrow> csv xs = csv ys"
  unfolding csv_def by (metis sorted_list_of_multiset_mset)

lemma csv_inject:
  assumes "\<forall>x\<in>set xs. x \<noteq> [] \<and> CHR '','' \<notin> set x" "\<forall>y\<in>set ys. y \<noteq> [] \<and> CHR '','' \<notin> set y"
  shows "csv xs = csv ys \<longleftrightarrow> mset xs = mset ys"
proof
  assume "csv xs = csv ys"
  then have "sepby CHR '','' (sort xs) = sepby CHR '','' (sort ys)" by (simp add: csv_def)
  then have "sort xs = sort ys"
    by (rule sepby_inject_nonempty [rotated 2]) (use assms in simp_all)
  then show "mset xs = mset ys" by (metis mset_sort)
qed (rule csv_perm)

text \<open>
  Component lists may contain the empty name; the one-element list of it joins to the empty
  string, as the empty list does. Every other list is determined.
\<close>

definition comps_norm :: "string list \<Rightarrow> string multiset" where
  "comps_norm xs = (if xs = [[]] then {#} else mset xs)"

lemma csv_eq_Nil: "\<forall>x\<in>set xs. CHR '','' \<notin> set x \<Longrightarrow> csv xs = [] \<longleftrightarrow> xs = [] \<or> xs = [[]]"
proof -
  have "sepby c zs = [] \<longleftrightarrow> zs = [] \<or> zs = [[]]" for c zs
    by (induction c zs rule: sepby.induct) auto
  moreover have "sort xs = [[]] \<longleftrightarrow> xs = [[]]"
    by (metis mset_single_iff_right mset_sort sort_key_simps(1,2) insort_key.simps(1) mset.simps)
  moreover have "sort xs = [] \<longleftrightarrow> xs = []"
    by (metis length_0_conv length_sort)
  ultimately show ?thesis by (simp add: csv_def)
qed

lemma csv_comps_inject:
  assumes "\<forall>x\<in>set xs. CHR '','' \<notin> set x" "\<forall>y\<in>set ys. CHR '','' \<notin> set y"
  shows "csv xs = csv ys \<longleftrightarrow> comps_norm xs = comps_norm ys"
proof (cases "csv xs = [] \<or> csv ys = []")
  case True
  have "mset zs = {#} \<longleftrightarrow> zs = []" for zs :: "string list" by simp
  with True assms show ?thesis
    using csv_eq_Nil [of xs] csv_eq_Nil [of ys] unfolding comps_norm_def by (auto dest: sym)
next
  case False
  then have ne: "xs \<noteq> []" "ys \<noteq> []" "xs \<noteq> [[]]" "ys \<noteq> [[]]"
    using csv_eq_Nil [OF assms(1)] csv_eq_Nil [OF assms(2)] by auto
  have "csv xs = csv ys \<longleftrightarrow> sort xs = sort ys"
    unfolding csv_def using ne assms by (intro sepby_inject) (simp_all, metis length_0_conv length_sort, metis length_0_conv length_sort)
  also have "\<dots> \<longleftrightarrow> mset xs = mset ys" by (metis mset_sort sorted_list_of_multiset_mset)
  finally show ?thesis using ne by (simp add: comps_norm_def)
qed

text \<open>Key-value strings carry their pair.\<close>

definition kv_pair :: "string option \<times> string option \<Rightarrow> string \<times> string" where
  "kv_pair kv = (nz (fst kv), nz (snd kv))"

lemma kv_inject:
  "CHR ''='' \<notin> set (nz (fst a)) \<Longrightarrow> CHR ''='' \<notin> set (nz (fst b)) \<Longrightarrow>
   kv_bytes a = kv_bytes b \<longleftrightarrow> kv_pair a = kv_pair b"
  by (auto simp: kv_bytes_def kv_pair_def append_sep_inject)

lemma kvs_inject:
  assumes "kvs_ok t xs" "kvs_ok t ys"
  shows "csv (map kv_bytes xs) = csv (map kv_bytes ys) \<longleftrightarrow> mset (map kv_pair xs) = mset (map kv_pair ys)"
proof -
  have ok: "\<forall>kv\<in>set zs. field_ok (fst kv) \<and> field_ok (snd kv)" if "kvs_ok t zs" for zs
    using that by (auto simp: kvs_ok_def)
  then have cl: "\<forall>s\<in>set (map kv_bytes zs). s \<noteq> [] \<and> CHR '','' \<notin> set s" if "kvs_ok t zs" for zs
    using that by (auto simp: kv_bytes_def dest!: field_ok_nz(3))
  have "csv (map kv_bytes xs) = csv (map kv_bytes ys) \<longleftrightarrow> mset (map kv_bytes xs) = mset (map kv_bytes ys)"
    by (rule csv_inject) (use cl assms in blast)+
  also have "\<dots> \<longleftrightarrow> mset (map kv_pair xs) = mset (map kv_pair ys)"
    by (rule mset_map_eq_iff [where S = "{kv. field_ok (fst kv)}"])
       (use ok assms in \<open>auto intro!: kv_inject dest: field_ok_nz(4)\<close>)
  finally show ?thesis .
qed

section \<open>What each record kind carries\<close>

definition txn_norm where
  "txn_norm r = (nz (t_package r), nz (t_architecture r), nz (t_action r), nz (t_from_version r),
     nz (t_to_version r), mset (map nz (t_flags r)))"

definition cfg_norm where
  "cfg_norm r = (nz (c_package r), nz (c_architecture r), nz (c_current_version r), nz (c_state r))"

definition hold_norm where
  "hold_norm r = (nz (h_package r), nz (h_from_state r), nz (h_to_state r))"

definition src_norm where
  "src_norm r = (nz (s_uri r), nz (s_suite r), comps_norm (map nz (s_components r)),
     mset (map kv_pair (s_opts r)))"

lemma FLAGS_clean: "f \<in> set FLAGS \<Longrightarrow> f \<noteq> [] \<and> CHR '','' \<notin> set f \<and> US \<notin> set f \<and> RS \<notin> set f \<and> NUL \<notin> set f"
  by (auto simp: FLAGS_def US_def RS_def)

lemma sepby_US_inject:
  assumes "length xs = length ys" "xs \<noteq> []" "\<forall>x\<in>set xs. US \<notin> set x" "\<forall>y\<in>set ys. US \<notin> set y"
  shows "sepby US xs = sepby US ys \<longleftrightarrow> xs = ys"
  using assms by (intro sepby_inject) auto

lemma flags_clean:
  assumes "txn_ok r" "c \<in> {US, RS, NUL}"
  shows "c \<notin> set (csv (map nz (t_flags r)))"
  by (rule csv_clean) (use assms FLAGS_clean in \<open>auto simp: txn_ok_def\<close>)

interpretation txn: record_codec pkg_txn_record txn_ok txn_bytes txn_norm
proof unfold_locales
  fix r r' :: txn_record
  show "pcorrect (pkg_txn_record r) (\<lambda>s. txn_ok r \<and> s = txn_bytes r)" by (rule pc_txn)
  show "txn_ok r \<Longrightarrow> length (txn_bytes r) < max_canon \<Longrightarrow> tcorrect (pkg_txn_record r) (\<lambda>s. s = txn_bytes r)"
    by (rule tc_txn)
  show "txn_bytes r \<noteq> []" by (simp add: txn_bytes_def)
  show "NUL \<notin> set (txn_bytes r)"
    by (simp add: txn_bytes_def) (rule csv_clean, auto)
  assume ok: "txn_ok r"
  show "RS \<notin> set (txn_bytes r)"
    unfolding txn_bytes_def
    by (rule sepby_notin) (use ok flags_clean [OF ok] in \<open>auto simp: txn_ok_def field_ok_nz\<close>)
  assume ok': "txn_ok r'"
  have csv: "csv (map nz (t_flags r)) = csv (map nz (t_flags r')) \<longleftrightarrow>
      mset (map nz (t_flags r)) = mset (map nz (t_flags r'))"
    by (rule csv_inject) (use ok ok' FLAGS_clean in \<open>auto simp: txn_ok_def\<close>)
  have "txn_bytes r = txn_bytes r' \<longleftrightarrow>
      [nz (t_package r), nz (t_architecture r), nz (t_action r), nz (t_from_version r),
        nz (t_to_version r), csv (map nz (t_flags r))] =
      [nz (t_package r'), nz (t_architecture r'), nz (t_action r'), nz (t_from_version r'),
        nz (t_to_version r'), csv (map nz (t_flags r'))]"
    unfolding txn_bytes_def
    by (rule sepby_US_inject)
       (use ok ok' flags_clean [OF ok, of US] flags_clean [OF ok', of US] in
         \<open>simp_all add: txn_ok_def field_ok_nz\<close>)
  with csv show "txn_bytes r = txn_bytes r' \<longleftrightarrow> txn_norm r = txn_norm r'"
    by (simp add: txn_norm_def)
qed

interpretation cfg: record_codec cfg_record_bytes cfg_ok cfg_bytes cfg_norm
proof unfold_locales
  fix r r' :: cfg_record
  show "pcorrect (cfg_record_bytes r) (\<lambda>s. cfg_ok r \<and> s = cfg_bytes r)" by (rule pc_cfg)
  show "cfg_ok r \<Longrightarrow> length (cfg_bytes r) < max_canon \<Longrightarrow> tcorrect (cfg_record_bytes r) (\<lambda>s. s = cfg_bytes r)"
    by (rule tc_cfg)
  show "cfg_bytes r \<noteq> []" by (simp add: cfg_bytes_def)
  show "NUL \<notin> set (cfg_bytes r)" by (simp add: cfg_bytes_def)
  assume ok: "cfg_ok r"
  show "RS \<notin> set (cfg_bytes r)"
    using ok by (auto simp: cfg_bytes_def cfg_ok_def field_ok_nz)
  assume ok': "cfg_ok r'"
  show "cfg_bytes r = cfg_bytes r' \<longleftrightarrow> cfg_norm r = cfg_norm r'"
    unfolding cfg_bytes_def
    by (subst sepby_US_inject) (use ok ok' in \<open>auto simp: cfg_ok_def cfg_norm_def field_ok_nz\<close>)
qed

interpretation hold: record_codec hold_record_bytes hold_ok hold_bytes hold_norm
proof unfold_locales
  fix r r' :: hold_record
  show "pcorrect (hold_record_bytes r) (\<lambda>s. hold_ok r \<and> s = hold_bytes r)" by (rule pc_hold)
  show "hold_ok r \<Longrightarrow> length (hold_bytes r) < max_canon \<Longrightarrow> tcorrect (hold_record_bytes r) (\<lambda>s. s = hold_bytes r)"
    by (rule tc_hold)
  show "hold_bytes r \<noteq> []" by (simp add: hold_bytes_def)
  show "NUL \<notin> set (hold_bytes r)" by (simp add: hold_bytes_def)
  assume ok: "hold_ok r"
  show "RS \<notin> set (hold_bytes r)"
    using ok by (auto simp: hold_bytes_def hold_ok_def field_ok_nz)
  assume ok': "hold_ok r'"
  show "hold_bytes r = hold_bytes r' \<longleftrightarrow> hold_norm r = hold_norm r'"
    unfolding hold_bytes_def
    by (subst sepby_US_inject) (use ok ok' in \<open>auto simp: hold_ok_def hold_norm_def field_ok_nz\<close>)
qed

lemma kvs_clean:
  assumes "kvs_ok t kvs" "c \<in> {US, RS}"
  shows "c \<notin> set (csv (map kv_bytes kvs))"
proof (rule csv_clean)
  show "\<forall>x\<in>set (map kv_bytes kvs). c \<notin> set x"
    using assms by (fastforce simp: kv_bytes_def kvs_ok_def field_ok_nz)
qed (use assms in auto)

lemma comps_clean:
  assumes "\<forall>x\<in>set cs. field_ok x" "c \<in> {US, RS}"
  shows "c \<notin> set (csv (map nz cs))"
  by (rule csv_clean) (use assms in \<open>auto simp: field_ok_nz\<close>)

interpretation src: record_codec src_record_bytes src_ok src_bytes src_norm
proof unfold_locales
  fix r r' :: src_record
  show "pcorrect (src_record_bytes r) (\<lambda>s. src_ok r \<and> s = src_bytes r)" by (rule pc_src)
  show "src_ok r \<Longrightarrow> length (src_bytes r) < max_canon \<Longrightarrow> tcorrect (src_record_bytes r) (\<lambda>s. s = src_bytes r)"
    by (rule tc_src)
  show "src_bytes r \<noteq> []" by (simp add: src_bytes_def)
  have "NUL \<notin> set (csv (map nz (s_components r)))" "NUL \<notin> set (csv (map kv_bytes (s_opts r)))"
    by (rule csv_clean; auto)+
  then show "NUL \<notin> set (src_bytes r)" by (simp add: src_bytes_def)
  assume ok: "src_ok r"
  show "RS \<notin> set (src_bytes r)"
    using ok kvs_clean [of _ "s_opts r" RS] comps_clean [of "s_components r" RS]
    by (auto simp: src_bytes_def src_ok_def field_ok_nz)
  assume ok': "src_ok r'"
  have "csv (map nz (s_components r)) = csv (map nz (s_components r')) \<longleftrightarrow>
      comps_norm (map nz (s_components r)) = comps_norm (map nz (s_components r'))"
    by (rule csv_comps_inject) (use ok ok' in \<open>auto simp: src_ok_def field_ok_nz\<close>)
  moreover have "csv (map kv_bytes (s_opts r)) = csv (map kv_bytes (s_opts r')) \<longleftrightarrow>
      mset (map kv_pair (s_opts r)) = mset (map kv_pair (s_opts r'))"
    by (rule kvs_inject) (use ok ok' in \<open>auto simp: src_ok_def\<close>)
  moreover have "src_bytes r = src_bytes r' \<longleftrightarrow>
      [nz (s_uri r), nz (s_suite r), csv (map nz (s_components r)), csv (map kv_bytes (s_opts r))] =
      [nz (s_uri r'), nz (s_suite r'), csv (map nz (s_components r')), csv (map kv_bytes (s_opts r'))]"
    unfolding src_bytes_def
    by (rule sepby_US_inject)
       (use ok ok' kvs_clean comps_clean in \<open>auto simp: src_ok_def field_ok_nz\<close>)
  ultimately show "src_bytes r = src_bytes r' \<longleftrightarrow> src_norm r = src_norm r'"
    by (simp add: src_norm_def)
qed

end
