(* ===== verification/Digest_Props.thy ===== *)
theory Digest_Props
  imports Digest_Kinds
begin

text \<open>
  The properties of the plan digest over all four record kinds: which plans have a digest,
  what is hashed, that the order of records does not matter, and that a digest binds the plan.
\<close>

section \<open>Plans\<close>

text \<open>
  A plan as the entrypoint hands it to the digest: the verb of the two families that share an
  encoder, and the records. \<open>plan_digest\<close> is the choice of encoder (\<open>effect.cc\<close>,
  \<open>apt_common.cc\<close>); the rest of this section is the reference side.
\<close>

datatype plan =
    Txn "string option" "txn_record list"
  | Cfg "cfg_record list"
  | Hold "string option" "hold_record list"
  | Upd "src_record list"

fun plan_digest :: "(string \<Rightarrow> 8 word list option) \<Rightarrow> plan \<Rightarrow> (string \<times> string) am" where
  "plan_digest evp (Txn v rs) = pkgx_digest_pkg_txn evp v rs"
| "plan_digest evp (Cfg rs) = pkgx_digest_configure evp rs"
| "plan_digest evp (Hold v rs) = pkgx_digest_hold evp v rs"
| "plan_digest evp (Upd rs) = pkgx_digest_update evp rs"

fun plan_ok :: "plan \<Rightarrow> bool" where
  "plan_ok (Txn v rs) \<longleftrightarrow> v \<noteq> None \<and> nz v \<in> set TXN_VERBS \<and> (\<forall>r\<in>set rs. txn_ok r)"
| "plan_ok (Cfg rs) \<longleftrightarrow> (\<forall>r\<in>set rs. cfg_ok r)"
| "plan_ok (Hold v rs) \<longleftrightarrow> v \<noteq> None \<and> nz v \<in> set HOLD_VERBS \<and> (\<forall>r\<in>set rs. hold_ok r)"
| "plan_ok (Upd rs) \<longleftrightarrow> (\<forall>r\<in>set rs. src_ok r)"

fun plan_verb :: "plan \<Rightarrow> string" where
  "plan_verb (Txn v rs) = nz v"
| "plan_verb (Cfg rs) = ''apt.configure''"
| "plan_verb (Hold v rs) = nz v"
| "plan_verb (Upd rs) = ''apt.update''"

fun plan_records :: "plan \<Rightarrow> string list" where
  "plan_records (Txn v rs) = map txn_bytes rs"
| "plan_records (Cfg rs) = map cfg_bytes rs"
| "plan_records (Hold v rs) = map hold_bytes rs"
| "plan_records (Upd rs) = map src_bytes rs"

definition plan_canon :: "plan \<Rightarrow> string" where
  "plan_canon p = canon_bytes (plan_verb p) (plan_records p)"

text \<open>What the digest is meant to bind: the verb and the multiset of normalised records.\<close>

fun same_plan :: "plan \<Rightarrow> plan \<Rightarrow> bool" where
  "same_plan (Txn v rs) (Txn v' rs') \<longleftrightarrow>
     nz v = nz v' \<and> image_mset txn_norm (mset rs) = image_mset txn_norm (mset rs')"
| "same_plan (Cfg rs) (Cfg rs') \<longleftrightarrow> image_mset cfg_norm (mset rs) = image_mset cfg_norm (mset rs')"
| "same_plan (Hold v rs) (Hold v' rs') \<longleftrightarrow>
     nz v = nz v' \<and> image_mset hold_norm (mset rs) = image_mset hold_norm (mset rs')"
| "same_plan (Upd rs) (Upd rs') \<longleftrightarrow> image_mset src_norm (mset rs) = image_mset src_norm (mset rs')"
| "same_plan _ _ \<longleftrightarrow> False"

lemma verbs_plain:
  "v \<in> set TXN_VERBS \<union> set HOLD_VERBS \<union> {''apt.configure'', ''apt.update''} \<Longrightarrow>
   cstr v = v \<and> RS \<notin> set v \<and> field_ok (Some v)"
  by (auto simp: TXN_VERBS_def HOLD_VERBS_def field_ok_def cstr_def US_def RS_def)

lemma plan_verb_plain: "plan_ok p \<Longrightarrow> cstr (plan_verb p) = plan_verb p \<and> RS \<notin> set (plan_verb p)
  \<and> field_ok (Some (plan_verb p))"
  by (rule verbs_plain, cases p) auto

lemma plan_digest_partial:
  "pcorrect (plan_digest evp p)
     (\<lambda>(h, c). plan_ok p \<and> c = plan_canon p \<and> length c \<le> max_canon \<and> hashed evp (h, c))"
proof (cases p)
  case (Txn v rs)
  show ?thesis
    unfolding Txn plan_digest.simps pkgx_digest_pkg_txn_def
    by (rule pc_bind_wp, rule pc_guard, rule pc_weaken [OF txn.body_partial])
       (auto simp: plan_canon_def verbs_plain)
next
  case (Cfg rs)
  show ?thesis
    unfolding Cfg plan_digest.simps pkgx_digest_configure_def
    by (rule pc_weaken [OF cfg.body_partial]) (auto simp: plan_canon_def verbs_plain)
next
  case (Hold v rs)
  show ?thesis
    unfolding Hold plan_digest.simps pkgx_digest_hold_def
    by (rule pc_bind_wp, rule pc_guard, rule pc_weaken [OF hold.body_partial])
       (auto simp: plan_canon_def verbs_plain)
next
  case (Upd rs)
  show ?thesis
    unfolding Upd plan_digest.simps pkgx_digest_update_def
    by (rule pc_weaken [OF src.body_partial]) (auto simp: plan_canon_def verbs_plain)
qed

lemma plan_digest_total:
  assumes "plan_ok p" "length (plan_canon p) \<le> max_canon" "hashed evp (h, plan_canon p)"
  shows "tcorrect (plan_digest evp p) (\<lambda>q. q = (h, plan_canon p))"
proof -
  note v = plan_verb_plain [OF assms(1)]
  show ?thesis
  proof (cases p)
    case (Txn w rs)
    with assms v show ?thesis
      using txn.body_total [of rs "nz w" evp h]
      by (auto simp: pkgx_digest_pkg_txn_def plan_canon_def intro!: tc_bind_wp tc_guard)
  next
    case (Cfg rs)
    with assms v show ?thesis
      using cfg.body_total [of rs "''apt.configure''" evp h]
      by (auto simp: pkgx_digest_configure_def plan_canon_def)
  next
    case (Hold w rs)
    with assms v show ?thesis
      using hold.body_total [of rs "nz w" evp h]
      by (auto simp: pkgx_digest_hold_def plan_canon_def intro!: tc_bind_wp tc_guard)
  next
    case (Upd rs)
    with assms v show ?thesis
      using src.body_total [of rs "''apt.update''" evp h]
      by (auto simp: pkgx_digest_update_def plan_canon_def)
  qed
qed


section \<open>Two plans\<close>

lemma plan_ok_norm_records:
  assumes "plan_ok p" "plan_ok q"
  shows "plan_canon p = plan_canon q \<longleftrightarrow> same_plan p q"
proof -
  note v = plan_verb_plain [OF assms(1)] plan_verb_plain [OF assms(2)]
  have verb: "plan_verb p = plan_verb q" if "plan_canon p = plan_canon q"
    using that v by (simp add: plan_canon_def canon_bytes_def append_sep_inject)
  have disj: "set TXN_VERBS \<inter> set HOLD_VERBS = {}"
    "''apt.configure'' \<notin> set TXN_VERBS \<union> set HOLD_VERBS" "''apt.update'' \<notin> set TXN_VERBS \<union> set HOLD_VERBS"
    by (simp_all add: TXN_VERBS_def HOLD_VERBS_def)
  show ?thesis
  proof (cases p; cases q)
    fix w w' rs rs' assume "p = Txn w rs" "q = Txn w' rs'"
    with assms v txn.canon_determines [of rs rs' "nz w" "nz w'"] show ?thesis
      by (simp add: plan_canon_def)
  next
    fix rs rs' assume "p = Cfg rs" "q = Cfg rs'"
    with assms v cfg.canon_determines [of rs rs' "''apt.configure''" "''apt.configure''"] show ?thesis
      by (simp add: plan_canon_def)
  next
    fix w w' rs rs' assume "p = Hold w rs" "q = Hold w' rs'"
    with assms v hold.canon_determines [of rs rs' "nz w" "nz w'"] show ?thesis
      by (simp add: plan_canon_def)
  next
    fix rs rs' assume "p = Upd rs" "q = Upd rs'"
    with assms v src.canon_determines [of rs rs' "''apt.update''" "''apt.update''"] show ?thesis
      by (simp add: plan_canon_def)
  qed (use assms verb disj in auto)
qed

text \<open>Reordering the records of a plan.\<close>

fun reordered :: "plan \<Rightarrow> plan \<Rightarrow> bool" where
  "reordered (Txn v rs) (Txn v' rs') \<longleftrightarrow> v = v' \<and> mset rs = mset rs'"
| "reordered (Cfg rs) (Cfg rs') \<longleftrightarrow> mset rs = mset rs'"
| "reordered (Hold v rs) (Hold v' rs') \<longleftrightarrow> v = v' \<and> mset rs = mset rs'"
| "reordered (Upd rs) (Upd rs') \<longleftrightarrow> mset rs = mset rs'"
| "reordered _ _ \<longleftrightarrow> False"

lemma reordered_ok: "reordered p q \<Longrightarrow> plan_ok p \<longleftrightarrow> plan_ok q"
  by (cases p; cases q) (auto dest: mset_eq_setD)

lemma reordered_canon: "reordered p q \<Longrightarrow> plan_canon p = plan_canon q"
  unfolding plan_canon_def
  by (cases p; cases q) (auto intro!: canon_bytes_perm)

definition accepted :: "(refusal + 'a) \<times> nat \<Rightarrow> 'a option" where
  "accepted x = (case fst x of Inl _ \<Rightarrow> None | Inr v \<Rightarrow> Some v)"

lemma accepted_Some [simp]: "accepted x = Some v \<longleftrightarrow> (\<exists>k. x = (Inr v, k))"
  by (cases x) (auto simp: accepted_def split: sum.splits)

lemma plan_digest_accepted:
  assumes "\<forall>i. A i"
  shows "accepted (plan_digest evp p A k) = Some (h, c) \<longleftrightarrow>
    plan_ok p \<and> c = plan_canon p \<and> length c \<le> max_canon \<and> hashed evp (h, c)"
proof
  assume "accepted (plan_digest evp p A k) = Some (h, c)"
  then show "plan_ok p \<and> c = plan_canon p \<and> length c \<le> max_canon \<and> hashed evp (h, c)"
    using pcD [OF plan_digest_partial] by fastforce
next
  assume "plan_ok p \<and> c = plan_canon p \<and> length c \<le> max_canon \<and> hashed evp (h, c)"
  then have "tcorrect (plan_digest evp p) (\<lambda>q. q = (h, c))"
    using plan_digest_total by blast
  then show "accepted (plan_digest evp p A k) = Some (h, c)"
    using assms by (auto elim!: tcE [of _ _ A k])
qed



section \<open>A concrete plan\<close>

definition ex_evp :: "string \<Rightarrow> 8 word list option" where
  "ex_evp d = Some (replicate 32 (of_nat (length d)))"

definition hold_of :: "string \<Rightarrow> hold_record" where
  "hold_of p = \<lparr>h_package = Some p, h_from_state = Some ''install'', h_to_state = Some ''hold''\<rparr>"

definition ex_hold :: "string list \<Rightarrow> plan" where
  "ex_hold ps = Hold (Some ''apt.hold'') (map hold_of ps)"

definition ex_hex :: string where
  "ex_hex = hex_of (replicate 32 (41 :: 8 word))"

lemma ex_plan_ok: "plan_ok (ex_hold [''vim'', ''bash''])" "plan_ok (ex_hold [''vim''])"
  by code_simp+

lemma ex_canon:
  "plan_canon (ex_hold [''vim'', ''bash'']) =
     ''1'' @ RS # ''apt.hold'' @ RS # ''bash'' @ US # ''install'' @ US # ''hold'' @ RS #
     ''vim'' @ US # ''install'' @ US # ''hold''"
  "plan_canon (ex_hold [''vim'']) = ''1'' @ RS # ''apt.hold'' @ RS # ''vim'' @ US # ''install'' @ US # ''hold''"
  by code_simp+

lemma ex_digest:
  "accepted (plan_digest ex_evp (ex_hold [''vim'', ''bash'']) (\<lambda>_. True) 0) =
     Some (hex_of (replicate 32 45), plan_canon (ex_hold [''vim'', ''bash'']))"
  "accepted (plan_digest ex_evp (ex_hold [''bash'', ''vim'']) (\<lambda>_. True) 0) =
     Some (hex_of (replicate 32 45), plan_canon (ex_hold [''vim'', ''bash'']))"
  "accepted (plan_digest ex_evp (ex_hold [''vim'']) (\<lambda>_. True) 0) =
     Some (hex_of (replicate 32 27), plan_canon (ex_hold [''vim'']))"
proof -
  have len: "length (plan_canon (ex_hold [''vim'', ''bash''])) = 45"
    "length (plan_canon (ex_hold [''vim''])) = 27"
    by (simp_all add: ex_canon)
  have "reordered (ex_hold [''bash'', ''vim'']) (ex_hold [''vim'', ''bash''])"
    by (simp add: ex_hold_def)
  then have r: "plan_ok (ex_hold [''bash'', ''vim''])"
    "plan_canon (ex_hold [''bash'', ''vim'']) = plan_canon (ex_hold [''vim'', ''bash''])"
    using ex_plan_ok reordered_ok reordered_canon by blast+
  show "accepted (plan_digest ex_evp (ex_hold [''vim'', ''bash'']) (\<lambda>_. True) 0) =
     Some (hex_of (replicate 32 45), plan_canon (ex_hold [''vim'', ''bash'']))"
   "accepted (plan_digest ex_evp (ex_hold [''bash'', ''vim'']) (\<lambda>_. True) 0) =
     Some (hex_of (replicate 32 45), plan_canon (ex_hold [''vim'', ''bash'']))"
   "accepted (plan_digest ex_evp (ex_hold [''vim'']) (\<lambda>_. True) 0) =
     Some (hex_of (replicate 32 27), plan_canon (ex_hold [''vim'']))"
    using len r by (simp_all only: plan_digest_accepted simp_thms ex_plan_ok)
      (simp_all add: hashed_def ex_evp_def max_canon_def)
qed

section \<open>Properties\<close>

text \<open>C13. Whatever the allocator does, a digest that is returned belongs to a valid plan; the
canonical bytes are the reference encoding of that plan and within the 4 MiB cap, and the hex
string is the SHA-256 of exactly those bytes.\<close>

theorem digest_sound:
  assumes "plan_digest evp p A k = (Inr (h, c), k')"
  shows "plan_ok p \<and> c = plan_canon p \<and> length c \<le> 4194304 \<and>
    (\<exists>md. evp c = Some md \<and> length md = 32 \<and> h = hex_of md)"
  using pcD [OF plan_digest_partial assms] by (auto simp: hashed_def max_canon_def)

theorem digest_sound_witness:
  "\<exists>h c k'. plan_digest ex_evp (ex_hold [''vim'', ''bash'']) (\<lambda>_. True) 0 = (Inr (h, c), k') \<and>
     length c = 45 \<and> length c \<le> 4194304 \<and> (\<exists>md. ex_evp c = Some md \<and> h = hex_of md)"
proof -
  from ex_digest(1) obtain k' where d: "plan_digest ex_evp (ex_hold [''vim'', ''bash'']) (\<lambda>_. True) 0 =
     (Inr (hex_of (replicate 32 45), plan_canon (ex_hold [''vim'', ''bash''])), k')" by auto
  show ?thesis
    by (intro exI conjI, rule d, simp add: ex_canon) (use digest_sound [OF d] in \<open>auto simp: hex_of_inject\<close>)
qed

text \<open>C14. With memory available, the digest is returned for exactly the valid plans whose
canonical encoding fits the cap and hashes; nothing else is refused and nothing else accepted.\<close>

theorem digest_accepts_exactly:
  assumes "\<forall>i. A i"
  shows "(\<exists>k'. plan_digest evp p A k = (Inr (h, c), k')) \<longleftrightarrow>
    plan_ok p \<and> c = plan_canon p \<and> length c \<le> 4194304 \<and>
    (\<exists>md. evp c = Some md \<and> length md = 32 \<and> h = hex_of md)"
  using plan_digest_accepted [OF assms, of evp p k h c] by (auto simp: hashed_def max_canon_def)

theorem digest_accepts_exactly_witness:
  "\<exists>k'. plan_digest ex_evp (ex_hold [''vim'', ''bash'']) (\<lambda>_. True) 0 =
     (Inr (hex_of (replicate 32 45), plan_canon (ex_hold [''vim'', ''bash''])), k')"
  by (subst digest_accepts_exactly) (simp_all add: ex_plan_ok ex_canon ex_evp_def)

text \<open>The order in which libapt lists the records never reaches the digest: reordering the
records of any plan, valid or not, gives the same answer.\<close>

theorem digest_order_independent:
  assumes "reordered p q" and "\<forall>i. A i" and "\<forall>i. B i"
  shows "accepted (plan_digest evp p A k) = accepted (plan_digest evp q B l)"
proof (rule option_eqI)
  fix hc show "accepted (plan_digest evp p A k) = Some hc \<longleftrightarrow> accepted (plan_digest evp q B l) = Some hc"
    using plan_digest_accepted [OF assms(2)] plan_digest_accepted [OF assms(3)]
      reordered_ok [OF assms(1)] reordered_canon [OF assms(1)]
    by (cases hc) (simp del: accepted_Some)
qed

theorem digest_order_independent_witness:
  "accepted (plan_digest ex_evp (ex_hold [''vim'', ''bash'']) (\<lambda>_. True) 0) =
     accepted (plan_digest ex_evp (ex_hold [''bash'', ''vim'']) (\<lambda>_. True) 7)"
  by (rule digest_order_independent) (simp_all add: ex_hold_def)

text \<open>C12. The digest binds the plan: for two accepted plans whose canonical strings the hash
tells apart, the hex digests agree exactly when verb and multiset of normalised records agree.\<close>

theorem digest_binds_plan:
  assumes "plan_digest evp p A k = (Inr (h, c), k')" and "plan_digest evp q B l = (Inr (h', c'), l')"
    and collision_free: "evp c = evp c' \<longrightarrow> c = c'"
  shows "h = h' \<longleftrightarrow> same_plan p q"
proof -
  note p = pcD [OF plan_digest_partial assms(1)] and q = pcD [OF plan_digest_partial assms(2)]
  from p q have "h = h' \<longleftrightarrow> c = c'"
    using collision_free by (auto simp: hashed_def hex_of_inject)
  with p q show ?thesis using plan_ok_norm_records by auto
qed

theorem digest_binds_plan_witness:
  "hex_of (replicate 32 45) \<noteq> hex_of (replicate 32 27) \<and>
   \<not> same_plan (ex_hold [''vim'', ''bash'']) (ex_hold [''vim''])"
proof -
  obtain k' where d: "plan_digest ex_evp (ex_hold [''vim'', ''bash'']) (\<lambda>_. True) 0 =
     (Inr (hex_of (replicate 32 45), plan_canon (ex_hold [''vim'', ''bash''])), k')" using ex_digest(1) by auto
  obtain l' where e: "plan_digest ex_evp (ex_hold [''vim'']) (\<lambda>_. True) 0 =
     (Inr (hex_of (replicate 32 27), plan_canon (ex_hold [''vim''])), l')" using ex_digest(3) by auto
  have "hex_of (replicate 32 45) = hex_of (replicate 32 27) \<longleftrightarrow>
      same_plan (ex_hold [''vim'', ''bash'']) (ex_hold [''vim''])"
    by (rule digest_binds_plan [OF d e]) (simp add: ex_evp_def ex_canon)
  moreover have "hex_of (replicate 32 45) \<noteq> hex_of (replicate 32 27)"
    by (simp add: hex_of_inject)
  ultimately show ?thesis by blast
qed


text \<open>C16. Memory: growing a buffer keeps its contents, never exceeds the 4 MiB cap, never writes
past the allocation, and the doubling stays below 8 MiB, so no \<open>size_t\<close> can wrap.\<close>

theorem buf_add_bounds:
  assumes "buf_ok b" and "buf_add b d A k = (Inr b', k')"
  shows "bdata b' = bdata b @ d \<and> buf_ok b' \<and> length (bdata b') \<le> bcap b' \<and>
    length (bdata b') \<le> 4194304 \<and> bcap b' \<le> 8388608"
  using pcD [OF buf_add_ok [OF assms(1)] assms(2)] by (auto simp: buf_ok_def max_canon_def)

lemma ex_buf_add: "buf_add empty_buf ''ab'' (\<lambda>_. True) 0 = (Inr \<lparr>bdata = ''ab'', bcap = 64\<rparr>, 1)"
proof -
  have "grow_cap 64 2 = 64" by (simp add: grow_cap.simps)
  then show ?thesis
    by (simp add: buf_add_def numeral_2_eq_2 [symmetric] buf_reserve_def abind_def aret_def aalloc_def empty_buf_def max_canon_def)
qed

theorem buf_add_bounds_witness: "buf_ok \<lparr>bdata = ''ab'', bcap = 64\<rparr>"
  using buf_add_bounds [OF buf_ok_empty ex_buf_add] by blast


lemma resource_accepted:
  assumes "\<forall>i. A i"
  shows "accepted (pkgx_resource ts A k) = Some s \<longleftrightarrow>
    items_ok ts True None \<and> s = csv (map nz ts) \<and> length s < max_canon"
proof
  have pc: "pcorrect (pkgx_resource ts) (\<lambda>s. items_ok ts True None \<and> s = csv (map nz ts) \<and> length s < max_canon)"
    unfolding pkgx_resource_def by (intro alloc_rules) auto
  assume "accepted (pkgx_resource ts A k) = Some s"
  then show "items_ok ts True None \<and> s = csv (map nz ts) \<and> length s < max_canon"
    using pcD [OF pc] by fastforce
next
  assume "items_ok ts True None \<and> s = csv (map nz ts) \<and> length s < max_canon"
  then have "tcorrect (pkgx_resource ts) (\<lambda>x. x = s)"
    unfolding pkgx_resource_def by (intro alloc_rules) auto
  then show "accepted (pkgx_resource ts A k) = Some s"
    using assms by (auto elim!: tcE [of _ _ A k])
qed

text \<open>With memory available, the canonical resource exists exactly for lists of clean target
names without duplicates that fit the buffer cap, and it is the sorted, comma-joined list.\<close>

theorem resource_exact:
  assumes "\<forall>i. A i"
  shows "(\<exists>k'. pkgx_resource ts A k = (Inr s, k')) \<longleftrightarrow>
    (\<forall>t\<in>set ts. field_ok t) \<and> distinct (map nz ts) \<and>
    s = sepby CHR '','' (sort (map nz ts)) \<and> length s < 4194304"
  using resource_accepted [OF assms, of ts k s] by (auto simp: items_ok_def csv_def max_canon_def)

theorem resource_exact_witness:
  "\<exists>k'. pkgx_resource [Some ''vim'', Some ''bash''] (\<lambda>_. True) 0 = (Inr ''bash,vim'', k')"
proof (subst resource_exact)
  have "field_ok (Some ''vim'')" "field_ok (Some ''bash'')" by code_simp+
  moreover have "sepby CHR '','' (sort [''vim'', ''bash'']) = ''bash,vim''"
    "map nz [Some ''vim'', Some ''bash''] = [''vim'', ''bash'']" by code_simp+
  ultimately show "(\<forall>t\<in>set [Some ''vim'', Some ''bash'']. field_ok t) \<and>
    distinct (map nz [Some ''vim'', Some ''bash'']) \<and>
    ''bash,vim'' = sepby CHR '','' (sort (map nz [Some ''vim'', Some ''bash''])) \<and>
    length ''bash,vim'' < 4194304"
    by (simp del: sort_key_simps)
qed simp

text \<open>Two target lists of non-empty names get the same resource exactly when they name the
same targets with the same multiplicities, whatever the allocator did for either.\<close>

theorem resource_binds_targets:
  assumes "pkgx_resource ts A k = (Inr s, k')" and "pkgx_resource us B l = (Inr s', l')"
    and "\<forall>t\<in>set ts \<union> set us. nz t \<noteq> []"
  shows "s = s' \<longleftrightarrow> mset (map nz ts) = mset (map nz us)"
proof -
  have pc: "pcorrect (pkgx_resource zs) (\<lambda>s. items_ok zs True None \<and> s = csv (map nz zs))" for zs
    unfolding pkgx_resource_def by (intro alloc_rules) auto
  have t: "\<forall>x\<in>set (map nz zs). x \<noteq> [] \<and> CHR '','' \<notin> set x"
    if "items_ok zs True None" "\<forall>t\<in>set zs. nz t \<noteq> []" for zs
    using that field_ok_nz(3) by (auto simp: items_ok_def)
  have "csv (map nz ts) = csv (map nz us) \<longleftrightarrow> mset (map nz ts) = mset (map nz us)"
    using pcD [OF pc assms(1)] pcD [OF pc assms(2)] assms(3) by (intro csv_inject t) auto
  with pcD [OF pc assms(1)] pcD [OF pc assms(2)] show ?thesis by simp
qed

lemma ex_resource:
  "\<exists>k'. pkgx_resource [Some ''vim'', Some ''bash''] (\<lambda>_. True) 0 = (Inr ''bash,vim'', k')"
  "\<exists>k'. pkgx_resource [Some ''bash'', Some ''vim''] (\<lambda>_. True) 0 = (Inr ''bash,vim'', k')"
proof -
  have ok: "items_ok [Some ''vim'', Some ''bash''] True None" "items_ok [Some ''bash'', Some ''vim''] True None"
    by code_simp+
  have csv: "csv [''vim'', ''bash''] = ''bash,vim''" "csv [''bash'', ''vim''] = ''bash,vim''"
    "map nz [Some ''vim'', Some ''bash''] = [''vim'', ''bash'']"
    "map nz [Some ''bash'', Some ''vim''] = [''bash'', ''vim'']" by code_simp+
  have "accepted (pkgx_resource [Some ''vim'', Some ''bash''] (\<lambda>_. True) 0) = Some ''bash,vim''"
    "accepted (pkgx_resource [Some ''bash'', Some ''vim''] (\<lambda>_. True) 0) = Some ''bash,vim''"
    using ok csv by (simp_all add: resource_accepted max_canon_def del: accepted_Some)
  then show "\<exists>k'. pkgx_resource [Some ''vim'', Some ''bash''] (\<lambda>_. True) 0 = (Inr ''bash,vim'', k')"
    "\<exists>k'. pkgx_resource [Some ''bash'', Some ''vim''] (\<lambda>_. True) 0 = (Inr ''bash,vim'', k')"
    by simp_all
qed

theorem resource_binds_targets_witness:
  "mset (map nz [Some ''vim'', Some ''bash'']) = mset (map nz [Some ''bash'', Some ''vim''])"
proof -
  obtain k' l' where
    d: "pkgx_resource [Some ''vim'', Some ''bash''] (\<lambda>_. True) 0 = (Inr ''bash,vim'', k')"
    and e: "pkgx_resource [Some ''bash'', Some ''vim''] (\<lambda>_. True) 0 = (Inr ''bash,vim'', l')"
    using ex_resource by blast
  have "\<forall>t\<in>set [Some ''vim'', Some ''bash''] \<union> set [Some ''bash'', Some ''vim'']. nz t \<noteq> []"
    by code_simp
  from resource_binds_targets [OF d e this] show ?thesis by blast
qed

section \<open>Inline signing keys\<close>

text \<open>A footer at position \<open>i\<close>.\<close>

definition footer_at :: "string \<Rightarrow> nat \<Rightarrow> bool" where
  "footer_at v i \<longleftrightarrow> take (length PGP_END) (drop i v) = PGP_END"

lemma last_footer_spec:
  "last_footer v i n e = Some p \<longleftrightarrow>
     (i \<le> p \<and> p < i + n \<and> footer_at v p \<and> (\<forall>j. p < j \<and> j < i + n \<longrightarrow> \<not> footer_at v j)) \<or>
     (e = Some p \<and> (\<forall>j. i \<le> j \<and> j < i + n \<longrightarrow> \<not> footer_at v j))"
proof (induction n arbitrary: i e)
  case (Suc n)
  have split: "(\<forall>j. i \<le> j \<and> j < i + Suc n \<longrightarrow> Q j) \<longleftrightarrow> Q i \<and> (\<forall>j. Suc i \<le> j \<and> j < Suc i + n \<longrightarrow> Q j)" for Q
    by (metis Suc_leI add_Suc add_Suc_right le_add1 le_imp_less_Suc le_neq_implies_less nat_less_le less_eq_Suc_le not_less_eq_eq)
  show ?case
    unfolding last_footer.simps Suc.IH split footer_at_def [symmetric]
    by (cases "footer_at v i")
       (auto simp: less_Suc_eq_le Suc_le_eq dest: le_neq_implies_less)
qed auto

lemma only_space_iff: "only_space s \<longleftrightarrow> set s \<subseteq> {CHR 0x0A, CHR 0x0D, CHR '' '', CHR 0x09}"
  by (induction s) auto

definition inline_key :: "string \<Rightarrow> bool" where
  "inline_key v \<longleftrightarrow> (\<exists>mid ws. v = PGP_BEGIN @ mid @ PGP_END @ ws \<and>
     set ws \<subseteq> {CHR 0x0A, CHR 0x0D, CHR '' '', CHR 0x09})"


lemma PGP_len: "length PGP_BEGIN = 36" "length PGP_END = 34" "last PGP_END = CHR ''-''" "PGP_END \<noteq> []"
  by (simp_all add: PGP_BEGIN_def PGP_END_def)

lemma footer_last_char:
  assumes "footer_at v j"
  shows "j + length PGP_END \<le> length v" "v ! (j + length PGP_END - 1) = CHR ''-''"
proof -
  have t: "take (length PGP_END) (drop j v) = PGP_END" using assms by (simp add: footer_at_def)
  then have "length (take (length PGP_END) (drop j v)) = length PGP_END" by simp
  then show le: "j + length PGP_END \<le> length v" by (simp add: PGP_len)
  have "last PGP_END = drop j v ! (length PGP_END - 1)"
    by (subst t [symmetric]) (use le in \<open>simp add: last_conv_nth PGP_len\<close>)
  with le show "v ! (j + length PGP_END - 1) = CHR ''-''" by (simp add: PGP_len add.commute)
qed

lemma inline_key_iff:
  "inline_key v \<longleftrightarrow> length PGP_BEGIN \<le> length v \<and> take (length PGP_BEGIN) v = PGP_BEGIN \<and>
     (\<exists>p. last_footer v (length PGP_BEGIN) (length v + 1 - length PGP_BEGIN - length PGP_END) None = Some p \<and>
       only_space (drop (p + length PGP_END) v))" (is "_ \<longleftrightarrow> ?R")
proof
  assume "inline_key v"
  then obtain mid ws where v: "v = PGP_BEGIN @ mid @ PGP_END @ ws"
    and ws: "set ws \<subseteq> {CHR 0x0A, CHR 0x0D, CHR '' '', CHR 0x09}" by (auto simp: inline_key_def)
  let ?p = "length PGP_BEGIN + length mid"
  have at: "footer_at v ?p" by (simp add: v footer_at_def)
  have "\<not> footer_at v j" if "?p < j" for j
  proof
    assume j: "footer_at v j"
    let ?e = "j + length PGP_END - 1"
    have e: "?p + length PGP_END \<le> ?e" "?e < length v"
      using that footer_last_char(1) [OF j] by (simp_all add: PGP_len)
    then have "v ! ?e = ws ! (?e - ?p - length PGP_END)" "?e - ?p - length PGP_END < length ws"
      by (auto simp: v nth_append PGP_len)
    then have "v ! ?e \<in> set ws" by simp
    with ws footer_last_char(2) [OF j] show False by auto
  qed
  moreover have "?p < length PGP_BEGIN + (length v + 1 - length PGP_BEGIN - length PGP_END)"
    by (simp add: v PGP_len)
  ultimately have "last_footer v (length PGP_BEGIN) (length v + 1 - length PGP_BEGIN - length PGP_END) None = Some ?p"
    unfolding last_footer_spec using at by simp
  moreover have "only_space (drop (?p + length PGP_END) v)"
    using ws by (simp add: v only_space_iff)
  ultimately show ?R by (auto simp: v)
next
  assume ?R
  then obtain p where b: "take (length PGP_BEGIN) v = PGP_BEGIN" and p: "length PGP_BEGIN \<le> p"
    and at: "footer_at v p" and sp: "only_space (drop (p + length PGP_END) v)"
    by (auto simp: last_footer_spec)
  have "drop p v = PGP_END @ drop (p + length PGP_END) v"
    using at append_take_drop_id [of "length PGP_END" "drop p v"] by (simp add: footer_at_def add.commute)
  moreover have "v = PGP_BEGIN @ take (p - length PGP_BEGIN) (drop (length PGP_BEGIN) v) @ drop p v"
    using b p append_take_drop_id [of "length PGP_BEGIN" v]
      append_take_drop_id [of "p - length PGP_BEGIN" "drop (length PGP_BEGIN) v"] by simp
  ultimately show "inline_key v"
    using sp unfolding inline_key_def only_space_iff by metis
qed

text \<open>An inline signing key is replaced by the hash of its exact bytes if and only if the value
is an armoured block: the header, anything, the footer, and only white space after it. Any
other value is kept, and a hash failure is reported.\<close>

theorem signed_by_token_exact:
  "pkgx_signed_by_inline_token evp value =
     (case value of
        None \<Rightarrow> KeepOriginal
      | Some v \<Rightarrow>
          if \<not> inline_key v then KeepOriginal
          else case evp v of
              None \<Rightarrow> HashFailed
            | Some md \<Rightarrow> if length md = 32 then Token (''inline-sha256:'' @ hex_of md) else HashFailed)"
  by (auto simp: pkgx_signed_by_inline_token_def inline_key_iff pkgx_sha256_hex_def split: option.splits)

end
