(* ===== verification/Libapt.thy ===== *)
theory Libapt
  imports Prelude
begin

text \<open>
  What libapt hands to this program, under the names of its API: packages with the state of the
  cache and of the dependency cache, the entries of the source list, and the calls the program
  makes. libapt itself is not part of the repository. A call is answered like a system call (see
  \<open>Os\<close>); walking over a cache, or looking a package up, is one call whose answer is the list of
  packages found. An empty answer to a lookup is the end iterator.
\<close>

section \<open>Packages\<close>

datatype selection = SelInstall | SelHold | SelDeInstall | SelPurge | SelUnknown

datatype install_state = NotInstalled | UnPacked | HalfConfigured | HalfInstalled | ConfigFiles
  | Installed | TriggersAwaited | TriggersPending

text \<open>A version: its string, and whether its priority is \<open>required\<close>.\<close>

record version =
  v_str :: string
  v_required :: bool

record apt_pkg =
  a_name :: string
  a_arch :: string
  a_current_ver :: "version option"
  a_inst_ver :: "version option"
  a_selected :: selection
  a_current_state :: install_state
  a_essential :: bool
  a_important :: bool
  a_auto :: bool
  a_delete :: bool
  a_purge :: bool
  a_new_install :: bool
  a_upgrade :: bool
  a_downgrade :: bool
  a_needs_nothing :: bool

section \<open>Sources\<close>

datatype tri_state = TRI_YES | TRI_NO | TRI_UNSET | TRI_DONTCARE

text \<open>\<open>m_targets\<close> lists the \<open>COMPONENT\<close> and \<open>ARCHITECTURE\<close> options of the index targets.\<close>

record meta_index =
  m_uri :: string
  m_dist :: string
  m_targets :: "(string \<times> string) list"
  m_signed_by :: string
  m_trusted :: tri_state

section \<open>Calls\<close>

datatype upgrade_mode = FORBID_REMOVE_PACKAGES | ALLOW_EVERYTHING

text \<open>\<open>ReadCache\<close>: the packages of the cache and their planned changes, \<open>CreatePM\<close> the package
manager, \<open>LockLists\<close> the probe of the lists lock. \<open>True\<close> in \<open>OpenCache\<close> asks for the lock.\<close>

datatype apt_call =
    InitConfig
  | InitSystem
  | ConfigSet string string
  | ConfigFind string string
  | ConfigFindDir string
  | SystemLock
  | UnLockInner
  | LockInner
  | OpenCache bool
  | GetPkgCache
  | GetDepCache
  | GetSourceList
  | GetPolicy
  | CandidateVer string
  | IsLocked
  | ReadCache
  | BrokenCount
  | FindPkg string
  | NewResolver
  | Protect string
  | MarkDelete string bool
  | ResolverRemove string
  | MarkInstall string bool
  | Resolve bool
  | Upgrade upgrade_mode
  | ApplyStatus
  | MinimizeUpgrade
  | CreatePM
  | OpenRecords
  | PendingError
  | GetArchives
  | FetchArchives
  | DoInstall
  | LockLists string
  | ReadMainList
  | ListUpdate
  | PushErrors
  | RevertErrors
  | DumpErrors

end
