(* ===== verification/Os.thy ===== *)
theory Os
  imports Alloc Libapt "HOL-Library.Word" "HOL-Library.Signed_Division"
begin

text \<open>
  Code that talks to the operating system. The kernel's behaviour is a script: every system
  call consumes one \<open>reply\<close>, a dump of everything the call can hand back (return value,
  \<open>errno\<close>, bytes, a time), and the call together with its reply is appended to a log. All
  properties hold for every script. A computation returns \<open>None\<close> when the script ends, that is
  when it has not returned within the calls the script describes; its log up to that point is
  still there, so safety properties are stated for unfinished runs too.

  Actions that need no answer (wiping a buffer, closing a descriptor) are logged as notes. The
  allocator oracle of \<open>Alloc\<close> is part of the world.
\<close>

named_theorems wp_rules \<open>weakest preconditions of the system-call monad, as equations\<close>
named_theorems tr_rules \<open>trace specifications as introduction rules, one case at a time\<close>

section \<open>The world\<close>

datatype errno = EINTR | EAGAIN | EINPROGRESS | EOther

record reply =
  r_ret :: int
  r_errno :: errno
  r_data :: string
  r_sec :: int
  r_nsec :: int
  r_pkgs :: "apt_pkg list"
  r_sources :: "meta_index option list"

datatype poll_event = POLLIN | POLLOUT

text \<open>Descriptors and their close-on-exec flag; the environment; child processes.\<close>

datatype fd_call = Dup int | Dup2 int int | GetFlags int | SetFlags int int | OpenNull | OpenProcFd | ReadDir int

datatype proc_call = ClearEnv | SetEnv string string | PipePair | ActionsInit | ActionsDup2 int int
  | ActionsClose int | PosixSpawn "string list" "string list" | Waitpid int

datatype call =
    ClockGettime
  | Poll int poll_event int
  | ReadFd int nat
  | WriteFd int string
  | SendFd int string
  | SocketUnix
  | ConnectUnix int string
  | GetSoError int
  | GetPeerCred int
  | Nanosleep int int
  | Sigpipe bool
  | Fd fd_call
  | Proc proc_call
  | Apt apt_call

datatype event =
    Sys call reply
  | Blocked call
  | Wipe string
  | Realloc string
  | CloseFd int

record os =
  answers :: "reply list"
  log :: "event list"
  aorc :: allocator
  acnt :: nat

type_synonym 'a io = "os \<Rightarrow> 'a option \<times> os"

definition ireturn :: "'a \<Rightarrow> 'a io" where
  "ireturn x = (\<lambda>w. (Some x, w))"

definition ibind :: "'a io \<Rightarrow> ('a \<Rightarrow> 'b io) \<Rightarrow> 'b io" where
  "ibind m f = (\<lambda>w. case m w of (None, w') \<Rightarrow> (None, w') | (Some x, w') \<Rightarrow> f x w')"

definition emit :: "event \<Rightarrow> unit io" where
  "emit e = (\<lambda>w. (Some (), w\<lparr>log := log w @ [e]\<rparr>))"

definition syscall :: "call \<Rightarrow> reply io" where
  "syscall c = (\<lambda>w. case answers w of
      [] \<Rightarrow> (None, w\<lparr>log := log w @ [Blocked c]\<rparr>)
    | r # rs \<Rightarrow> (Some r, w\<lparr>answers := rs, log := log w @ [Sys c r]\<rparr>))"

text \<open>Allocating code inside the system-call monad; \<open>None\<close> inside is the code's failure value.\<close>

definition allocating :: "'a am \<Rightarrow> 'a option io" where
  "allocating m = (\<lambda>w. case m (aorc w) (acnt w) of
      (Inl e, k) \<Rightarrow> (Some None, w\<lparr>acnt := k\<rparr>)
    | (Inr x, k) \<Rightarrow> (Some (Some x), w\<lparr>acnt := k\<rparr>))"

section \<open>Loops\<close>

text \<open>
  \<open>while\<close>/\<open>for (;;)\<close> loops around system calls: the body either goes on with a new state or
  leaves the loop. The number of rounds is bounded by the length of the script plus one;
  \<open>io_loop_unfold\<close> shows that the bound is never felt by a body that makes a call per round.
\<close>

fun rounds :: "nat \<Rightarrow> ('s \<Rightarrow> ('s + 'a) io) \<Rightarrow> 's \<Rightarrow> 'a io" where
  "rounds 0 body s w = (None, w)"
| "rounds (Suc n) body s w =
     (case body s w of
        (None, w') \<Rightarrow> (None, w')
      | (Some (Inr x), w') \<Rightarrow> (Some x, w')
      | (Some (Inl s'), w') \<Rightarrow> rounds n body s' w')"

definition io_loop :: "('s \<Rightarrow> ('s + 'a) io) \<Rightarrow> 's \<Rightarrow> 'a io" where
  "io_loop body s = (\<lambda>w. rounds (Suc (length (answers w))) body s w)"

definition again :: "'s \<Rightarrow> ('s + 'a) io" where
  "again s = ireturn (Inl s)"

definition leave :: "'a \<Rightarrow> ('s + 'a) io" where
  "leave x = ireturn (Inr x)"

definition consuming :: "('s \<Rightarrow> ('s + 'a) io) \<Rightarrow> bool" where
  "consuming body \<longleftrightarrow>
     (\<forall>s w s' w'. body s w = (Some (Inl s'), w') \<longrightarrow> length (answers w') < length (answers w))"

lemma rounds_enough:
  assumes "consuming body" "length (answers w) < m" "length (answers w) < n"
  shows "rounds m body s w = rounds n body s w"
  using assms(2,3)
proof (induction m arbitrary: n s w)
  case (Suc m)
  then obtain k where n: "n = Suc k" by (cases n) auto
  have "rounds m body s' w' = rounds k body s' w'" if "body s w = (Some (Inl s'), w')" for s' w'
  proof (rule Suc.IH)
    have "length (answers w') < length (answers w)" using assms(1) that by (auto simp: consuming_def)
    with Suc.prems n show "length (answers w') < m" "length (answers w') < k" by simp_all
  qed
  then show ?case by (auto simp: n split: option.split sum.split prod.split)
qed simp

theorem io_loop_unfold:
  assumes "consuming body"
  shows "io_loop body s = ibind (body s) (\<lambda>r. case r of Inl s' \<Rightarrow> io_loop body s' | Inr x \<Rightarrow> ireturn x)"
proof
  fix w
  have "rounds (length (answers w)) body s' w' = rounds (Suc (length (answers w'))) body s' w'"
    if "body s w = (Some (Inl s'), w')" for s' w'
    using assms that by (intro rounds_enough) (auto simp: consuming_def)
  then show "io_loop body s w =
      ibind (body s) (\<lambda>r. case r of Inl s' \<Rightarrow> io_loop body s' | Inr x \<Rightarrow> ireturn x) w"
    by (auto simp: io_loop_def ibind_def ireturn_def simp del: rounds.simps(1)
      split: option.split sum.split prod.split)
qed

section \<open>Weakest preconditions\<close>

text \<open>
  \<open>wp m Q E w\<close>: started in \<open>w\<close>, the computation either returns and satisfies \<open>Q\<close>, or its script
  ends in a world that satisfies \<open>E\<close>.
\<close>

definition wp :: "'a io \<Rightarrow> ('a \<Rightarrow> os \<Rightarrow> bool) \<Rightarrow> (os \<Rightarrow> bool) \<Rightarrow> os \<Rightarrow> bool" where
  "wp m Q E w = (case m w of (None, w') \<Rightarrow> E w' | (Some x, w') \<Rightarrow> Q x w')"

lemma wp_return [wp_rules]: "wp (ireturn x) Q E w = Q x w"
  by (simp add: wp_def ireturn_def)

lemma wp_again [wp_rules]: "wp (again s) Q E w = Q (Inl s) w"
  by (simp add: again_def wp_return)

lemma wp_leave [wp_rules]: "wp (leave x) Q E w = Q (Inr x) w"
  by (simp add: leave_def wp_return)

lemma wp_bind [wp_rules]: "wp (ibind m f) Q E w = wp m (\<lambda>x. wp (f x) Q E) E w"
  by (auto simp: wp_def ibind_def split: prod.split option.split)

lemma wp_emit [wp_rules]: "wp (emit e) Q E w = Q () (w\<lparr>log := log w @ [e]\<rparr>)"
  by (simp add: wp_def emit_def)

lemma wp_syscall [wp_rules]:
  "wp (syscall c) Q E w \<longleftrightarrow>
     (answers w = [] \<longrightarrow> E (w\<lparr>log := log w @ [Blocked c]\<rparr>)) \<and>
     (\<forall>r rs. answers w = r # rs \<longrightarrow> Q r (w\<lparr>answers := rs, log := log w @ [Sys c r]\<rparr>))"
  by (auto simp: wp_def syscall_def split: list.split)

lemma wp_allocating [wp_rules]:
  "wp (allocating m) Q E w \<longleftrightarrow>
     (\<forall>e k. m (aorc w) (acnt w) = (Inl e, k) \<longrightarrow> Q None (w\<lparr>acnt := k\<rparr>)) \<and>
     (\<forall>x k. m (aorc w) (acnt w) = (Inr x, k) \<longrightarrow> Q (Some x) (w\<lparr>acnt := k\<rparr>))"
  by (auto simp: wp_def allocating_def split: prod.split sum.split)

lemma wp_if [wp_rules]: "wp (if b then m else n) Q E w = (if b then wp m Q E w else wp n Q E w)"
  by simp

lemma wp_mono:
  assumes "wp m Q E w" "\<And>x w. Q x w \<Longrightarrow> Q' x w" "\<And>w. E w \<Longrightarrow> E' w"
  shows "wp m Q' E' w"
  using assms by (auto simp: wp_def split: prod.splits option.splits)

lemma wp_conj: "wp m Q E w \<Longrightarrow> wp m Q' E' w \<Longrightarrow> wp m (\<lambda>x w. Q x w \<and> Q' x w) (\<lambda>w. E w \<and> E' w) w"
  by (auto simp: wp_def split: prod.splits option.splits)

lemma wp_I: "(\<And>x w'. m w = (Some x, w') \<Longrightarrow> Q x w') \<Longrightarrow> (\<And>w'. m w = (None, w') \<Longrightarrow> E w') \<Longrightarrow> wp m Q E w"
  by (auto simp: wp_def split: prod.splits option.splits)

lemma wp_Some: "wp m Q E w \<Longrightarrow> m w = (Some x, w') \<Longrightarrow> Q x w'"
  by (simp add: wp_def)

lemma wp_None: "wp m Q E w \<Longrightarrow> m w = (None, w') \<Longrightarrow> E w'"
  by (simp add: wp_def)

text \<open>The loop rule: an invariant of the loop state and the world.\<close>

lemma wp_rounds_Suc:
  "wp (rounds (Suc n) body s) Q E w =
     wp (body s) (\<lambda>r w'. case r of Inl s' \<Rightarrow> wp (rounds n body s') Q E w' | Inr x \<Rightarrow> Q x w') E w"
  by (auto simp: wp_def split: prod.split option.split sum.split)

lemma wp_rounds:
  assumes "\<And>s w. I s w \<Longrightarrow> wp (body s) (\<lambda>r w'. case r of Inl s' \<Rightarrow> I s' w' | Inr x \<Rightarrow> Q x w') E w"
    and "\<And>s w. I s w \<Longrightarrow> E w"
  shows "I s w \<Longrightarrow> wp (rounds n body s) Q E w"
proof (induction n arbitrary: s w)
  case 0
  then show ?case by (auto simp: wp_def intro: assms(2))
next
  case (Suc n)
  show ?case
    unfolding wp_rounds_Suc
    by (rule wp_mono [OF assms(1) [OF Suc.prems]]) (auto split: sum.splits intro: Suc.IH)
qed

lemma wp_loop:
  assumes "I s w"
    and "\<And>s w. I s w \<Longrightarrow> wp (body s) (\<lambda>r w'. case r of Inl s' \<Rightarrow> I s' w' | Inr x \<Rightarrow> Q x w') E w"
    and "\<And>s w. I s w \<Longrightarrow> E w"
  shows "wp (io_loop body s) Q E w"
  using wp_rounds [where body = body and n = "Suc (length (answers w))", OF assms(2,3) assms(1)]
  by (simp only: wp_def io_loop_def)


section \<open>Trace specifications\<close>

text \<open>The answers consumed by a list of events.\<close>

fun replies :: "event list \<Rightarrow> reply list" where
  "replies [] = []"
| "replies (Sys c r # es) = r # replies es"
| "replies (e # es) = replies es"

lemma replies_append [simp]: "replies (es @ fs) = replies es @ replies fs"
  by (induction es rule: replies.induct) auto

text \<open>The world after some events: they were logged, and their answers are gone.\<close>

definition later :: "os \<Rightarrow> event list \<Rightarrow> os \<Rightarrow> bool" where
  "later w es w' \<longleftrightarrow> log w' = log w @ es \<and> answers w = replies es @ answers w'"

lemma later_trans: "later w es v \<Longrightarrow> later v fs w' \<Longrightarrow> later w (es @ fs) w'"
  by (simp add: later_def)

text \<open>
  \<open>tr m P E\<close>: whatever the kernel and the allocator answer, the events that \<open>m\<close> adds to the log
  satisfy \<open>P\<close> together with the result if \<open>m\<close> returns, and \<open>E\<close> if the script ends first. The
  rules below are introduction rules: \<open>intro tr_rules\<close> walks through a computation and leaves
  one goal per path, about the list of events on that path.
\<close>

definition tr :: "'a io \<Rightarrow> ('a \<Rightarrow> event list \<Rightarrow> bool) \<Rightarrow> (event list \<Rightarrow> bool) \<Rightarrow> bool" where
  "tr m P E \<longleftrightarrow> (\<forall>w. wp m (\<lambda>x w'. \<exists>es. later w es w' \<and> P x es) (\<lambda>w'. \<exists>es. later w es w' \<and> E es) w)"

lemma tr_I:
  "(\<And>w. wp m (\<lambda>x w'. \<exists>es. later w es w' \<and> P x es) (\<lambda>w'. \<exists>es. later w es w' \<and> E es) w) \<Longrightarrow> tr m P E"
  unfolding tr_def by blast

lemma tr_D: "tr m P E \<Longrightarrow> wp m (\<lambda>x w'. \<exists>es. later w es w' \<and> P x es) (\<lambda>w'. \<exists>es. later w es w' \<and> E es) w"
  unfolding tr_def by blast

lemma tr_later: "tr m P E \<Longrightarrow> m w = (Some x, w') \<Longrightarrow> \<exists>es. later w es w' \<and> P x es"
  using wp_Some [OF tr_D] by fast

lemma tr_cut_later: "tr m P E \<Longrightarrow> m w = (None, w') \<Longrightarrow> \<exists>es. later w es w' \<and> E es"
  using wp_None [OF tr_D] by fast

lemma tr_returns: "tr m P E \<Longrightarrow> m w = (Some x, w') \<Longrightarrow> \<exists>es. log w' = log w @ es \<and> P x es"
  unfolding later_def using tr_later [unfolded later_def] by fast

lemma tr_unfinished: "tr m P E \<Longrightarrow> m w = (None, w') \<Longrightarrow> \<exists>es. log w' = log w @ es \<and> E es"
  using tr_cut_later [unfolded later_def] by fast

lemma tr_run:
  assumes "tr m (\<lambda>x es. E es) E" "m w = (res, w')"
  shows "\<exists>es. log w' = log w @ es \<and> E es"
  using assms tr_returns tr_unfinished by (cases res) fast+

lemma tr_run_later:
  assumes "tr m (\<lambda>x es. E es) E" "m w = (res, w')"
  shows "\<exists>es. later w es w' \<and> E es"
  using assms tr_later tr_cut_later by (cases res) fast+

lemma tr_mono:
  assumes "tr m P E" "\<And>x es. P x es \<Longrightarrow> P' x es" "\<And>es. E es \<Longrightarrow> E' es"
  shows "tr m P' E'"
proof (rule tr_I, rule wp_mono [OF tr_D [OF assms(1)]])
  show "\<exists>es. later w es v \<and> P x es \<Longrightarrow> \<exists>es. later w es v \<and> P' x es" for w v x
    using assms(2) by metis
  show "\<exists>es. later w es v \<and> E es \<Longrightarrow> \<exists>es. later w es v \<and> E' es" for w v
    using assms(3) by metis
qed

text \<open>Two specifications of the same run: the events are the same, since the log decides them.\<close>

lemma tr_both:
  assumes "tr m P E" "tr m P' E'"
  shows "tr m (\<lambda>x es. P x es \<and> P' x es) (\<lambda>es. E es \<and> E' es)"
proof (rule tr_I, rule wp_mono [OF wp_conj [OF tr_D [OF assms(1)] tr_D [OF assms(2)]]])
  fix w and x :: 'a and v :: os
  show "\<exists>es. later w es v \<and> P x es \<and> P' x es"
    if "(\<exists>es. later w es v \<and> P x es) \<and> (\<exists>es. later w es v \<and> P' x es)"
    using that by (auto simp: later_def)
  show "\<exists>es. later w es v \<and> E es \<and> E' es"
    if "(\<exists>es. later w es v \<and> E es) \<and> (\<exists>es. later w es v \<and> E' es)"
    using that by (auto simp: later_def)
qed

lemma tr_return [tr_rules]: "P x [] \<Longrightarrow> tr (ireturn x) P E"
  by (simp add: tr_def wp_return later_def)

lemma tr_again [tr_rules]: "P (Inl s) [] \<Longrightarrow> tr (again s) P E"
  by (simp add: tr_def wp_again later_def)

lemma tr_leave [tr_rules]: "P (Inr x) [] \<Longrightarrow> tr (leave x) P E"
  by (simp add: tr_def wp_leave later_def)

lemma tr_bind_seq:
  assumes m: "tr m R E" and f: "\<And>x es. R x es \<Longrightarrow> tr (f x) (\<lambda>y fs. P y (es @ fs)) (\<lambda>fs. E (es @ fs))"
  shows "tr (ibind m f) P E"
proof (rule tr_I, unfold wp_bind, rule wp_mono [OF tr_D [OF m]])
  fix w x and v :: os assume "\<exists>es. later w es v \<and> R x es"
  then obtain es where es: "later w es v" "R x es" by blast
  show "wp (f x) (\<lambda>y w'. \<exists>es. later w es w' \<and> P y es) (\<lambda>w'. \<exists>es. later w es w' \<and> E es) v"
    by (rule wp_mono [OF tr_D [OF f [OF es(2)]]]) (use later_trans [OF es(1)] in blast)+
qed

lemma tr_bind [tr_rules]:
  "tr m (\<lambda>x es. tr (f x) (\<lambda>y fs. P y (es @ fs)) (\<lambda>fs. E (es @ fs))) E \<Longrightarrow> tr (ibind m f) P E"
  by (erule tr_bind_seq)

lemma tr_syscall [tr_rules]: "(\<And>r. P r [Sys c r]) \<Longrightarrow> E [Blocked c] \<Longrightarrow> tr (syscall c) P E"
  by (simp add: tr_def wp_syscall later_def)

fun is_note :: "event \<Rightarrow> bool" where
  "is_note (Sys c r) = False"
| "is_note e = True"

lemma tr_emit [tr_rules]: "P () [e] \<Longrightarrow> is_note e \<Longrightarrow> tr (emit e) P E"
  by (cases e) (simp_all add: tr_def wp_emit later_def)

lemma tr_allocating:
  "(\<And>A k e k'. m A k = (Inl e, k') \<Longrightarrow> P None []) \<Longrightarrow>
   (\<And>A k x k'. m A k = (Inr x, k') \<Longrightarrow> P (Some x) []) \<Longrightarrow> tr (allocating m) P E"
  by (simp add: tr_def wp_allocating later_def)

lemma tr_alloc [tr_rules]: "P None [] \<Longrightarrow> P (Some ()) [] \<Longrightarrow> tr (allocating aalloc) P E"
  by (simp add: tr_def wp_allocating later_def)

lemma tr_pcorrect:
  assumes "pcorrect m R" "P None []" "\<And>x. R x \<Longrightarrow> P (Some x) []"
  shows "tr (allocating m) P E"
  by (rule tr_allocating) (use assms in \<open>auto dest: pcD\<close>)

lemma tr_if [tr_rules]: "(b \<Longrightarrow> tr m P E) \<Longrightarrow> (\<not> b \<Longrightarrow> tr n P E) \<Longrightarrow> tr (if b then m else n) P E"
  by simp

lemma tr_option [tr_rules]:
  "(x = None \<Longrightarrow> tr m P E) \<Longrightarrow> (\<And>y. x = Some y \<Longrightarrow> tr (f y) P E) \<Longrightarrow>
   tr (case x of None \<Rightarrow> m | Some y \<Rightarrow> f y) P E"
  by (cases x) auto

lemma tr_sum [tr_rules]:
  "(\<And>y. x = Inl y \<Longrightarrow> tr (f y) P E) \<Longrightarrow> (\<And>y. x = Inr y \<Longrightarrow> tr (g y) P E) \<Longrightarrow>
   tr (case x of Inl y \<Rightarrow> f y | Inr y \<Rightarrow> g y) P E"
  by (cases x) auto

lemma tr_prod [tr_rules]:
  "(\<And>a b. x = (a, b) \<Longrightarrow> tr (f a b) P E) \<Longrightarrow> tr (case x of (a, b) \<Rightarrow> f a b) P E"
  by (cases x) auto

lemma tr_let [tr_rules]: "tr (f x) P E \<Longrightarrow> tr (let y = x in f y) P E"
  by (simp add: Let_def)

text \<open>The loop rule: \<open>I s es\<close> relates the loop state to the events of all rounds so far.\<close>

lemma tr_loop:
  assumes start: "I s []"
    and step: "\<And>s es. I s es \<Longrightarrow> tr (body s)
      (\<lambda>r fs. case r of Inl s' \<Rightarrow> I s' (es @ fs) | Inr x \<Rightarrow> P x (es @ fs)) (\<lambda>fs. E (es @ fs))"
    and unfinished: "\<And>s es. I s es \<Longrightarrow> E es"
  shows "tr (io_loop body s) P E"
proof (rule tr_I)
  fix w
  show "wp (io_loop body s) (\<lambda>x w'. \<exists>es. later w es w' \<and> P x es) (\<lambda>w'. \<exists>es. later w es w' \<and> E es) w"
  proof (rule wp_loop [where I = "\<lambda>s v. \<exists>es. later w es v \<and> I s es"])
    show "\<exists>es. later w es w \<and> I s es" using start by (auto simp: later_def)
  next
    fix t and v :: os assume "\<exists>es. later w es v \<and> I t es"
    then obtain es where es: "later w es v" "I t es" by blast
    show "wp (body t) (\<lambda>r w'. case r of Inl s' \<Rightarrow> \<exists>es. later w es w' \<and> I s' es
        | Inr x \<Rightarrow> \<exists>es. later w es w' \<and> P x es) (\<lambda>w'. \<exists>es. later w es w' \<and> E es) v"
      by (rule wp_mono [OF tr_D [OF step [OF es(2)]]])
         (use later_trans [OF es(1)] in \<open>fastforce split: sum.splits\<close>)+
    show "\<exists>es. later w es v \<and> E es" using es unfinished by blast
  qed
qed

section \<open>Calls with a result of their own\<close>

text \<open>Conversion of a wide integer to \<open>int\<close>.\<close>

definition c_int :: "int \<Rightarrow> int" where
  "c_int x = sint (of_int x :: 32 word)"

lemma c_int_id: "- (2 ^ 31) \<le> x \<Longrightarrow> x < 2 ^ 31 \<Longrightarrow> c_int x = x"
  unfolding c_int_def by (simp add: signed_of_int signed_take_bit_int_eq_self_iff)

definition clock_of :: "reply \<Rightarrow> (int \<times> int) option" where
  "clock_of r = (if r_ret r \<noteq> 0 then None else Some (r_sec r, r_nsec r))"

definition clock_gettime :: "(int \<times> int) option io" where
  "clock_gettime = ibind (syscall ClockGettime) (\<lambda>r. ireturn (clock_of r))"

text \<open>\<open>read\<close> hands back at most the bytes it was asked for; none is the end of the stream.\<close>

definition bytes_of :: "nat \<Rightarrow> reply \<Rightarrow> string" where
  "bytes_of n r = take n (r_data r)"

definition read_fd :: "int \<Rightarrow> nat \<Rightarrow> (errno + string) io" where
  "read_fd fd n = ibind (syscall (ReadFd fd n)) (\<lambda>r.
     ireturn (if r_ret r < 0 then Inl (r_errno r) else Inr (bytes_of n r)))"

text \<open>\<open>write\<close> and \<open>send\<close> report how many of the bytes they took.\<close>

definition taken_of :: "string \<Rightarrow> reply \<Rightarrow> nat" where
  "taken_of d r = min (length d) (nat (r_ret r))"

definition send_fd :: "int \<Rightarrow> string \<Rightarrow> (errno + nat) io" where
  "send_fd fd d = ibind (syscall (SendFd fd d)) (\<lambda>r.
     ireturn (if r_ret r < 0 then Inl (r_errno r) else Inr (taken_of d r)))"

definition write_fd :: "int \<Rightarrow> string \<Rightarrow> (errno + nat) io" where
  "write_fd fd d = ibind (syscall (WriteFd fd d)) (\<lambda>r.
     ireturn (if r_ret r < 0 then Inl (r_errno r) else Inr (taken_of d r)))"

section \<open>Reading a log\<close>

fun is_call :: "event \<Rightarrow> bool" where
  "is_call (Sys c r) = True"
| "is_call (Blocked c) = True"
| "is_call _ = False"

text \<open>The bytes delivered by reads from a descriptor, and accepted by sends on it.\<close>

fun read_event :: "int \<Rightarrow> event \<Rightarrow> string" where
  "read_event fd (Sys (ReadFd f n) r) = (if f = fd \<and> 0 \<le> r_ret r then bytes_of n r else [])"
| "read_event fd _ = []"

fun sent_event :: "int \<Rightarrow> event \<Rightarrow> string" where
  "sent_event fd (Sys (SendFd f d) r) = (if f = fd \<and> 0 \<le> r_ret r then take (taken_of d r) d else [])"
| "sent_event fd _ = []"

fun written_event :: "int \<Rightarrow> event \<Rightarrow> string" where
  "written_event fd (Sys (WriteFd f d) r) = (if f = fd \<and> 0 \<le> r_ret r then take (taken_of d r) d else [])"
| "written_event fd _ = []"

definition bytes_read :: "int \<Rightarrow> event list \<Rightarrow> string" where
  "bytes_read fd es = concat (map (read_event fd) es)"

definition bytes_sent :: "int \<Rightarrow> event list \<Rightarrow> string" where
  "bytes_sent fd es = concat (map (sent_event fd) es)"

definition bytes_written :: "int \<Rightarrow> event list \<Rightarrow> string" where
  "bytes_written fd es = concat (map (written_event fd) es)"

lemma bytes_append [simp]:
  "bytes_read fd [] = []" "bytes_read fd (es @ fs) = bytes_read fd es @ bytes_read fd fs"
  "bytes_read fd (e # fs) = read_event fd e @ bytes_read fd fs"
  "bytes_sent fd [] = []" "bytes_sent fd (es @ fs) = bytes_sent fd es @ bytes_sent fd fs"
  "bytes_sent fd (e # fs) = sent_event fd e @ bytes_sent fd fs"
  "bytes_written fd [] = []" "bytes_written fd (es @ fs) = bytes_written fd es @ bytes_written fd fs"
  "bytes_written fd (e # fs) = written_event fd e @ bytes_written fd fs"
  by (simp_all add: bytes_read_def bytes_sent_def bytes_written_def)

text \<open>No call is made once an event of the given kind has been seen.\<close>

fun stops_after :: "(event \<Rightarrow> bool) \<Rightarrow> event list \<Rightarrow> bool" where
  "stops_after P [] = True"
| "stops_after P (e # es) = ((\<not> P e \<or> \<not> list_ex is_call es) \<and> stops_after P es)"

lemma stops_after_append [simp]:
  "stops_after P (es @ fs) \<longleftrightarrow>
     stops_after P es \<and> stops_after P fs \<and> (\<not> list_ex P es \<or> \<not> list_ex is_call fs)"
  by (induction es) auto

lemma tr_clock [tr_rules]:
  "(\<And>r. P (clock_of r) [Sys ClockGettime r]) \<Longrightarrow> E [Blocked ClockGettime] \<Longrightarrow> tr clock_gettime P E"
  unfolding clock_gettime_def by (intro tr_rules) auto

lemma tr_read [tr_rules]:
  "(\<And>r. r_ret r < 0 \<Longrightarrow> P (Inl (r_errno r)) [Sys (ReadFd fd n) r]) \<Longrightarrow>
   (\<And>r. 0 \<le> r_ret r \<Longrightarrow> P (Inr (bytes_of n r)) [Sys (ReadFd fd n) r]) \<Longrightarrow>
   E [Blocked (ReadFd fd n)] \<Longrightarrow> tr (read_fd fd n) P E"
  unfolding read_fd_def by (intro tr_rules) auto

lemma tr_send [tr_rules]:
  "(\<And>r. r_ret r < 0 \<Longrightarrow> P (Inl (r_errno r)) [Sys (SendFd fd d) r]) \<Longrightarrow>
   (\<And>r. 0 \<le> r_ret r \<Longrightarrow> P (Inr (taken_of d r)) [Sys (SendFd fd d) r]) \<Longrightarrow>
   E [Blocked (SendFd fd d)] \<Longrightarrow> tr (send_fd fd d) P E"
  unfolding send_fd_def by (intro tr_rules) auto

lemma tr_write [tr_rules]:
  "(\<And>r. r_ret r < 0 \<Longrightarrow> P (Inl (r_errno r)) [Sys (WriteFd fd d) r]) \<Longrightarrow>
   (\<And>r. 0 \<le> r_ret r \<Longrightarrow> P (Inr (taken_of d r)) [Sys (WriteFd fd d) r]) \<Longrightarrow>
   E [Blocked (WriteFd fd d)] \<Longrightarrow> tr (write_fd fd d) P E"
  unfolding write_fd_def by (intro tr_rules) auto

lemma length_bytes_of: "length (bytes_of k r) \<le> k"
  by (simp add: bytes_of_def)

lemma bytes_of_room [simp]: "k \<le> cap \<Longrightarrow> k + length (bytes_of (cap - k) r) \<le> cap"
  using length_bytes_of [of "cap - k" r] by simp

section \<open>Scripts\<close>

text \<open>For concrete runs: a reply, a world that answers with a list of them, and the equations that
evaluate a run.\<close>

definition ok_reply :: "int \<Rightarrow> string \<Rightarrow> int \<Rightarrow> reply" where
  "ok_reply n d t = \<lparr>r_ret = n, r_errno = EOther, r_data = d, r_sec = t, r_nsec = 0,
     r_pkgs = [], r_sources = []\<rparr>"

definition script :: "reply list \<Rightarrow> os" where
  "script rs = \<lparr>answers = rs, log = [], aorc = (\<lambda>_. True), acnt = 0\<rparr>"

lemmas io_run = ibind_def ireturn_def syscall_def emit_def allocating_def aalloc_def io_loop_def
  again_def leave_def clock_gettime_def clock_of_def read_fd_def bytes_of_def send_fd_def
  write_fd_def taken_of_def script_def ok_reply_def

end
