(* ===== verification/Stdin.thy ===== *)
theory Stdin
  imports Os
begin

text \<open>
  The bounded, deadline-limited reader of the request in \<open>src/request.c\<close>. The loop state is
  the buffer contents and its capacity.
\<close>

definition elapsed_ms :: "int \<times> int \<Rightarrow> int \<times> int \<Rightarrow> int" where
  "elapsed_ms start now = (fst now - fst start) * 1000 + (snd now - snd start) sdiv 1000000"

text \<open>The buffer doubles up to the cap plus one byte; the old block is handed to \<open>realloc\<close>.\<close>

definition grow_stdin :: "string \<Rightarrow> nat \<Rightarrow> nat option io" where
  "grow_stdin buf cap =
     (let nc = cap * 2; nc = (if 65536 + 1 < nc then 65536 + 1 else nc) in
      ibind (allocating aalloc) (\<lambda>nb. case nb of
          None \<Rightarrow> ireturn None
        | Some u \<Rightarrow> ibind (emit (Realloc buf)) (\<lambda>_. ireturn (Some nc))))"

definition stdin_round ::
  "int \<Rightarrow> int \<Rightarrow> int \<times> int \<Rightarrow> string \<times> nat \<Rightarrow> ((string \<times> nat) + (string option \<times> string)) io" where
  "stdin_round fd deadline_ms start = (\<lambda>(buf, cap).
     ibind clock_gettime (\<lambda>now. case now of
         None \<Rightarrow> leave (Some ''io'', buf)
       | Some now \<Rightarrow>
           let remaining = deadline_ms - elapsed_ms start now in
           if remaining \<le> 0 then leave (Some ''deadline'', buf)
           else ibind (syscall (Poll fd POLLIN (c_int remaining))) (\<lambda>pr.
             if r_ret pr < 0 then
               (if r_errno pr = EINTR then again (buf, cap) else leave (Some ''io'', buf))
             else if r_ret pr = 0 then leave (Some ''deadline'', buf)
             else ibind (if length buf = cap then grow_stdin buf cap else ireturn (Some cap)) (\<lambda>g. case g of
                 None \<Rightarrow> leave (Some ''io'', buf)
               | Some cap \<Rightarrow> ibind (read_fd fd (cap - length buf)) (\<lambda>r. case r of
                     Inl e \<Rightarrow> if e = EINTR then again (buf, cap) else leave (Some ''io'', buf)
                   | Inr bytes \<Rightarrow>
                       if bytes = [] then leave (None, buf)
                       else let buf = buf @ bytes in
                         if 65536 < length buf then leave (Some ''too_large'', buf)
                         else again (buf, cap))))))"

text \<open>The success return, and the label \<open>fail\<close>.\<close>

definition stdin_finish :: "string option \<times> string \<Rightarrow> (string + string) io" where
  "stdin_finish x =
     (case fst x of
        None \<Rightarrow> ireturn (Inr (snd x))
      | Some e \<Rightarrow> ibind (emit (Wipe (snd x))) (\<lambda>_. ireturn (Inl e)))"

definition pkgx_read_stdin_deadline :: "int \<Rightarrow> int \<Rightarrow> (string + string) io" where
  "pkgx_read_stdin_deadline fd deadline_ms =
     ibind clock_gettime (\<lambda>start. case start of
         None \<Rightarrow> ireturn (Inl ''io'')
       | Some start \<Rightarrow>
           ibind (allocating aalloc) (\<lambda>m. case m of
               None \<Rightarrow> ireturn (Inl ''io'')
             | Some u \<Rightarrow> ibind (io_loop (stdin_round fd deadline_ms start) ([], 4096)) stdin_finish))"

definition pkgx_read_stdin :: "int \<Rightarrow> (string + string) io" where
  "pkgx_read_stdin fd = pkgx_read_stdin_deadline fd (5 * 1000)"

end
