(* ===== verification/Stdin_Proofs.thy ===== *)
theory Stdin_Proofs
  imports Stdin
begin

text \<open>What every run of the request reader does: the bytes it returns, what it wipes, its bounds,
and that it stops at the deadline.\<close>

fun expired_event :: "int \<Rightarrow> int \<times> int \<Rightarrow> event \<Rightarrow> bool" where
  "expired_event dl start (Sys ClockGettime r) =
     (case clock_of r of None \<Rightarrow> True | Some now \<Rightarrow> dl - elapsed_ms start now \<le> 0)"
| "expired_event dl start _ = False"

fun eof_event :: "int \<Rightarrow> event \<Rightarrow> bool" where
  "eof_event fd (Sys (ReadFd f n) r) = (f = fd \<and> 0 \<le> r_ret r \<and> 0 < n \<and> bytes_of n r = [])"
| "eof_event fd _ = False"

fun is_wipe :: "event \<Rightarrow> bool" where
  "is_wipe (Wipe s) = True"
| "is_wipe _ = False"

text \<open>No read asks for more room than the buffer has: \<open>k\<close> bytes are already in it.\<close>

fun reads_fit :: "int \<Rightarrow> nat \<Rightarrow> event list \<Rightarrow> bool" where
  "reads_fit fd k [] = True"
| "reads_fit fd k (e # es) =
     ((case e of Sys (ReadFd f n) r \<Rightarrow> k + n \<le> 65537 | _ \<Rightarrow> True) \<and> reads_fit fd (k + length (read_event fd e)) es)"

lemma reads_fit_append [simp]:
  "reads_fit fd k (es @ fs) \<longleftrightarrow> reads_fit fd k es \<and> reads_fit fd (k + length (bytes_read fd es)) fs"
  by (induction es arbitrary: k) (simp_all add: add.assoc)

definition stdin_inv :: "int \<Rightarrow> int \<Rightarrow> int \<times> int \<Rightarrow> string \<times> nat \<Rightarrow> event list \<Rightarrow> bool" where
  "stdin_inv fd dl start = (\<lambda>(buf, cap) es.
     buf = bytes_read fd es \<and> length buf \<le> 65536 \<and> length buf \<le> cap \<and> 4096 \<le> cap \<and> cap \<le> 65537 \<and>
     \<not> list_ex (expired_event dl start) es \<and> stops_after (expired_event dl start) es \<and>
     \<not> list_ex is_wipe es \<and> reads_fit fd 0 es)"

definition stdin_exit :: "int \<Rightarrow> int \<Rightarrow> int \<times> int \<Rightarrow> string option \<times> string \<Rightarrow> event list \<Rightarrow> bool" where
  "stdin_exit fd dl start = (\<lambda>(ec, buf) es.
     buf = bytes_read fd es \<and> stops_after (expired_event dl start) es \<and> \<not> list_ex is_wipe es \<and>
     reads_fit fd 0 es \<and>
     (case ec of
        None \<Rightarrow> length buf \<le> 65536 \<and> es \<noteq> [] \<and> eof_event fd (last es)
      | Some e \<Rightarrow> e \<in> {''io'', ''deadline'', ''too_large''}))"

definition stdin_blocked :: "int \<Rightarrow> int \<Rightarrow> int \<times> int \<Rightarrow> event list \<Rightarrow> bool" where
  "stdin_blocked fd dl start es \<longleftrightarrow> stops_after (expired_event dl start) es \<and> reads_fit fd 0 es"

lemma stdin_round_ok:
  assumes "stdin_inv fd dl start s es"
  shows "tr (stdin_round fd dl start s)
     (\<lambda>r fs. case r of Inl s' \<Rightarrow> stdin_inv fd dl start s' (es @ fs) | Inr x \<Rightarrow> stdin_exit fd dl start x (es @ fs))
     (\<lambda>fs. stdin_blocked fd dl start (es @ fs))"
proof -
  obtain buf cap where s: "s = (buf, cap)" by (cases s)
  show ?thesis
    using assms
    unfolding s stdin_round_def prod.case grow_stdin_def
    by (intro tr_rules) (auto simp: stdin_inv_def stdin_exit_def stdin_blocked_def)
qed

section \<open>The whole reader\<close>

text \<open>The log of a run: the start time, then the rounds, then the wipe of a refused body.\<close>

definition on_time :: "int \<Rightarrow> event list \<Rightarrow> bool" where
  "on_time dl new \<longleftrightarrow> (case new of
      Sys ClockGettime r # rest \<Rightarrow>
        (case clock_of r of None \<Rightarrow> rest = [] | Some start \<Rightarrow> stops_after (expired_event dl start) rest)
    | [Blocked ClockGettime] \<Rightarrow> True
    | _ \<Rightarrow> False)"

definition stdin_result :: "int \<Rightarrow> string + string \<Rightarrow> event list \<Rightarrow> bool" where
  "stdin_result fd res new = (case res of
      Inr body \<Rightarrow> body = bytes_read fd new \<and> length body \<le> 65536 \<and> eof_event fd (last new) \<and>
        \<not> list_ex is_wipe new
    | Inl e \<Rightarrow> e \<in> {''io'', ''deadline'', ''too_large''} \<and>
        (bytes_read fd new = [] \<or> last new = Wipe (bytes_read fd new)))"

lemma stdin_loop_ok:
  "tr (io_loop (stdin_round fd dl start) ([], 4096)) (stdin_exit fd dl start) (stdin_blocked fd dl start)"
proof (rule tr_loop [where I = "stdin_inv fd dl start"])
  show "stdin_inv fd dl start ([], 4096) []" by (simp add: stdin_inv_def)
  show "stdin_blocked fd dl start es" if "stdin_inv fd dl start s es" for s es
    using that by (auto simp: stdin_inv_def stdin_blocked_def)
qed (rule stdin_round_ok)

lemma stdin_finish_ok:
  assumes "clock_of r = Some start" "stdin_exit fd dl start x es"
  shows "tr (stdin_finish x) (\<lambda>res fs. on_time dl (Sys ClockGettime r # es @ fs) \<and>
      reads_fit fd 0 (Sys ClockGettime r # es @ fs) \<and> stdin_result fd res (Sys ClockGettime r # es @ fs))
    (\<lambda>fs. False)"
  unfolding stdin_finish_def
  by (intro tr_rules) (use assms in \<open>auto simp: stdin_exit_def on_time_def stdin_result_def\<close>)

lemma stdin_tr:
  "tr (pkgx_read_stdin_deadline fd dl)
     (\<lambda>res es. on_time dl es \<and> reads_fit fd 0 es \<and> stdin_result fd res es)
     (\<lambda>es. on_time dl es \<and> reads_fit fd 0 es)"
proof -
  have rest: "tr (io_loop (stdin_round fd dl start) ([], 4096))
     (\<lambda>x es. tr (stdin_finish x)
       (\<lambda>y fs. on_time dl ([Sys ClockGettime r] @ [] @ es @ fs) \<and> reads_fit fd 0 ([Sys ClockGettime r] @ [] @ es @ fs) \<and>
          stdin_result fd y ([Sys ClockGettime r] @ [] @ es @ fs))
       (\<lambda>fs. on_time dl ([Sys ClockGettime r] @ [] @ es @ fs) \<and> reads_fit fd 0 ([Sys ClockGettime r] @ [] @ es @ fs)))
     (\<lambda>fs. on_time dl ([Sys ClockGettime r] @ [] @ fs) \<and> reads_fit fd 0 ([Sys ClockGettime r] @ [] @ fs))"
    if st: "clock_of r = Some start" for r start
    by (rule tr_mono [OF stdin_loop_ok], rule tr_mono [OF stdin_finish_ok [OF st]])
       (auto simp: on_time_def stdin_blocked_def st)
  show ?thesis
    unfolding pkgx_read_stdin_deadline_def
    by (intro tr_rules rest) (auto simp: on_time_def stdin_result_def)
qed

section \<open>Properties\<close>

text \<open>C23. A request body that is returned is exactly the bytes read up to the end of the stream, at
most 64 KiB; on every failure the error is one of the three documented ones and, if any byte had
been read, the last thing the reader does is to wipe exactly those bytes.\<close>

theorem read_stdin_outcome:
  assumes "pkgx_read_stdin_deadline fd dl w = (Some res, w')"
  shows "\<exists>es. log w' = log w @ es \<and> (case res of
      Inr body \<Rightarrow> body = bytes_read fd es \<and> length body \<le> 65536 \<and> eof_event fd (last es) \<and>
        \<not> list_ex is_wipe es
    | Inl e \<Rightarrow> e \<in> {''io'', ''deadline'', ''too_large''} \<and>
        (bytes_read fd es = [] \<or> last es = Wipe (bytes_read fd es)))"
  using tr_returns [OF stdin_tr assms] unfolding stdin_result_def by blast

text \<open>A descriptor that delivers \<open>{}\<close> and then ends, and one that is not ready by the deadline.\<close>

definition ex_ok :: os where
  "ex_ok = script [ok_reply 0 [] 0, ok_reply 0 [] 0, ok_reply 1 [] 0, ok_reply 2 ''{}'' 0,
     ok_reply 0 [] 1, ok_reply 1 [] 0, ok_reply 0 [] 0]"

definition ex_late :: os where
  "ex_late = script [ok_reply 0 [] 0, ok_reply 0 [] 0, ok_reply 1 [] 0, ok_reply 2 ''{}'' 0, ok_reply 0 [] 9]"

lemmas stdin_run = io_run pkgx_read_stdin_def pkgx_read_stdin_deadline_def stdin_round_def
  stdin_finish_def grow_stdin_def elapsed_ms_def ex_ok_def ex_late_def

lemma ex_stdin:
  "fst (pkgx_read_stdin_deadline 0 5000 ex_ok) = Some (Inr ''{}'')"
  "fst (pkgx_read_stdin_deadline 0 5000 ex_late) = Some (Inl ''deadline'')"
  "bytes_read 0 (log (snd (pkgx_read_stdin_deadline 0 5000 ex_late))) = ''{}''"
  by (simp_all add: stdin_run)

theorem read_stdin_outcome_witness:
  "bytes_read 0 (log (snd (pkgx_read_stdin_deadline 0 5000 ex_ok))) = ''{}'' \<and>
   last (log (snd (pkgx_read_stdin_deadline 0 5000 ex_late))) = Wipe ''{}''"
proof
  have l: "log ex_ok = []" "log ex_late = []" by (simp_all add: ex_ok_def ex_late_def script_def)
  have a: "pkgx_read_stdin_deadline 0 5000 ex_ok = (Some (Inr ''{}''), snd (pkgx_read_stdin_deadline 0 5000 ex_ok))"
    using ex_stdin(1) by (simp add: prod_eq_iff)
  show "bytes_read 0 (log (snd (pkgx_read_stdin_deadline 0 5000 ex_ok))) = ''{}''"
    using read_stdin_outcome [OF a] l by simp
  have b: "pkgx_read_stdin_deadline 0 5000 ex_late =
      (Some (Inl ''deadline''), snd (pkgx_read_stdin_deadline 0 5000 ex_late))"
    using ex_stdin(2) by (simp add: prod_eq_iff)
  show "last (log (snd (pkgx_read_stdin_deadline 0 5000 ex_late))) = Wipe ''{}''"
    using read_stdin_outcome [OF b] l ex_stdin(3) by simp
qed

text \<open>C24. In every run, finished or not, no call is made once a reading of the clock shows the deadline
passed (or fails), and every read asks for at most the room left in a buffer of 64 KiB and one byte.\<close>

theorem read_stdin_on_time_in_bounds:
  assumes "pkgx_read_stdin_deadline fd dl w = (res, w')"
  shows "\<exists>es. log w' = log w @ es \<and> on_time dl es \<and> reads_fit fd 0 es"
  by (rule tr_run [OF tr_mono [OF stdin_tr] assms]) auto

theorem read_stdin_on_time_in_bounds_witness:
  "on_time 5000 (log (snd (pkgx_read_stdin_deadline 0 5000 ex_late)))"
proof -
  have "log ex_late = []" by (simp add: ex_late_def script_def)
  then show ?thesis
    using read_stdin_on_time_in_bounds [of 0 5000 ex_late, OF surjective_pairing] by auto
qed

end
