(* ===== verification/Policy.thy ===== *)
theory Policy
  imports Digest
begin

text \<open>
  The trusted-side policy of \<open>src/policy.c\<close>: which package names belong to rapt, and the check of
  a resolved transaction for ownership, holds and protection, in this order of precedence.
\<close>

section \<open>Character classes\<close>

text \<open>\<open>c >= lo && c <= hi\<close> for the ASCII bounds the source uses.\<close>

definition char_between :: "char \<Rightarrow> char \<Rightarrow> char \<Rightarrow> bool" where
  "char_between lo hi c \<longleftrightarrow> of_char lo \<le> (of_char c :: nat) \<and> (of_char c :: nat) \<le> of_char hi"

definition is_lower :: "char \<Rightarrow> bool" where
  "is_lower c = char_between CHR ''a'' CHR ''z'' c"

definition is_digit :: "char \<Rightarrow> bool" where
  "is_digit c = char_between CHR ''0'' CHR ''9'' c"

section \<open>Ownership\<close>

definition pkgx_is_rapt_owned :: "string \<Rightarrow> bool" where
  "pkgx_is_rapt_owned name =
     (case cstr name of
        c0 # c1 # start \<Rightarrow>
          if c0 \<noteq> CHR ''r'' \<or> c1 \<noteq> CHR ''-'' then False
          else let p = dropWhile is_lower start in
            if p = start \<or> p = [] \<or> hd p \<noteq> CHR ''-'' then False
            else let start = tl p;
                     p = dropWhile (\<lambda>c. is_lower c \<or> is_digit c \<or> c = CHR ''.'') start in
              if p = start then False else p = []
      | _ \<Rightarrow> False)"

text \<open>The pattern \<open>^r-[a-z]+-[a-z0-9.]+$\<close>.\<close>

definition rapt_pattern :: "string \<Rightarrow> bool" where
  "rapt_pattern s \<longleftrightarrow> (\<exists>a b. s = ''r-'' @ a @ ''-'' @ b \<and> a \<noteq> [] \<and> b \<noteq> [] \<and>
     list_all is_lower a \<and> list_all (\<lambda>c. is_lower c \<or> is_digit c \<or> c = CHR ''.'') b)"

lemma dropWhile_same_iff: "dropWhile P s = s \<longleftrightarrow> s = [] \<or> \<not> P (hd s)"
proof
  assume "dropWhile P s = s"
  then have "takeWhile P s = []" by (metis append_same_eq takeWhile_dropWhile_id append_self_conv2)
  then show "s = [] \<or> \<not> P (hd s)" by (cases s) (auto split: if_splits)
next
  assume "s = [] \<or> \<not> P (hd s)"
  then show "dropWhile P s = s" by (cases s) auto
qed

text \<open>Scanning one or more characters of a class.\<close>

lemma scan_class:
  "(dropWhile P s \<noteq> s \<and> dropWhile P s = t) \<longleftrightarrow>
     (\<exists>a. a \<noteq> [] \<and> list_all P a \<and> s = a @ t \<and> (t = [] \<or> \<not> P (hd t)))"
proof
  assume s: "dropWhile P s \<noteq> s \<and> dropWhile P s = t"
  then have "s = takeWhile P s @ t" using takeWhile_dropWhile_id [of P s] by simp
  moreover have "takeWhile P s \<noteq> []" using s calculation by auto
  moreover have "list_all P (takeWhile P s)" by (auto simp: list_all_iff dest: set_takeWhileD)
  moreover have "t = [] \<or> \<not> P (hd t)" using s hd_dropWhile by metis
  ultimately show "\<exists>a. a \<noteq> [] \<and> list_all P a \<and> s = a @ t \<and> (t = [] \<or> \<not> P (hd t))" by blast
next
  assume "\<exists>a. a \<noteq> [] \<and> list_all P a \<and> s = a @ t \<and> (t = [] \<or> \<not> P (hd t))"
  then obtain a where a: "a \<noteq> []" "list_all P a" "s = a @ t" "t = [] \<or> \<not> P (hd t)" by blast
  have "dropWhile P (a @ t) = dropWhile P t" using a(2) by (induction a) auto
  also have "\<dots> = t" using a(4) by (simp add: dropWhile_same_iff)
  finally show "dropWhile P s \<noteq> s \<and> dropWhile P s = t" using a by simp
qed

lemma not_lower_dash: "\<not> is_lower CHR ''-''"
  by (simp add: is_lower_def char_between_def)

lemma rapt_owned_iff: "pkgx_is_rapt_owned name \<longleftrightarrow> rapt_pattern (cstr name)"
proof -
  let ?C = "\<lambda>c. is_lower c \<or> is_digit c \<or> c = CHR ''.''"
  have tail: "(let p = dropWhile is_lower s in
            if p = s \<or> p = [] \<or> hd p \<noteq> CHR ''-'' then False
            else let s' = tl p; p = dropWhile ?C s' in if p = s' then False else p = []) \<longleftrightarrow>
        (\<exists>a b. s = a @ ''-'' @ b \<and> a \<noteq> [] \<and> b \<noteq> [] \<and> list_all is_lower a \<and> list_all ?C b)"
    (is "?L \<longleftrightarrow> ?R") for s
  proof -
    have "?L \<longleftrightarrow> (\<exists>u. (dropWhile is_lower s \<noteq> s \<and> dropWhile is_lower s = CHR ''-'' # u) \<and>
        (dropWhile ?C u \<noteq> u \<and> dropWhile ?C u = []))"
      by (cases "dropWhile is_lower s") (auto simp: Let_def simp del: dropWhile_eq_Nil_conv)
    also have "\<dots> \<longleftrightarrow> ?R"
      unfolding scan_class by (auto simp: not_lower_dash)
    finally show ?thesis .
  qed
  show ?thesis
    unfolding pkgx_is_rapt_owned_def rapt_pattern_def tail
    by (auto split: list.split)
qed

section \<open>The check\<close>

datatype policy_result = POLICY_OK | POLICY_NOT_OWNED | POLICY_HELD | POLICY_PROTECTED

fun flag_in :: "string option list \<Rightarrow> string \<Rightarrow> bool" where
  "flag_in [] flag = False"
| "flag_in (f # fs) flag = (if f \<noteq> None \<and> nz f = flag then True else flag_in fs flag)"

definition has_flag :: "txn_record \<Rightarrow> string \<Rightarrow> bool" where
  "has_flag r flag = flag_in (t_flags r) flag"

definition is_removal :: "string option \<Rightarrow> bool" where
  "is_removal action \<longleftrightarrow> action \<noteq> None \<and> (nz action = ''remove'' \<or> nz action = ''purge'')"

text \<open>Each of the three passes returns the package name of the first record it catches.\<close>

fun first_package :: "(txn_record \<Rightarrow> bool) \<Rightarrow> txn_record list \<Rightarrow> string option option" where
  "first_package caught [] = None"
| "first_package caught (r # rs) = (if caught r then Some (t_package r) else first_package caught rs)"

definition owned_record :: "txn_record \<Rightarrow> bool" where
  "owned_record r \<longleftrightarrow> (case t_package r of None \<Rightarrow> False | Some p \<Rightarrow> pkgx_is_rapt_owned p)"

definition held_record :: "txn_record \<Rightarrow> bool" where
  "held_record r = has_flag r ''hold''"

definition protected_record :: "txn_record \<Rightarrow> bool" where
  "protected_record r \<longleftrightarrow>
     is_removal (t_action r) \<and> (has_flag r ''essential'' \<or> has_flag r ''protected'')"

definition pkgx_policy_check :: "txn_record list \<Rightarrow> policy_result \<times> string option" where
  "pkgx_policy_check recs =
     (case first_package owned_record recs of
        Some p \<Rightarrow> (POLICY_NOT_OWNED, p)
      | None \<Rightarrow>
     (case first_package held_record recs of
        Some p \<Rightarrow> (POLICY_HELD, p)
      | None \<Rightarrow>
     (case first_package protected_record recs of
        Some p \<Rightarrow> (POLICY_PROTECTED, p)
      | None \<Rightarrow> (POLICY_OK, None))))"

lemma flag_in_iff: "flag_in fs flag \<longleftrightarrow> (\<exists>f. Some f \<in> set fs \<and> cstr f = flag)"
  by (induction fs) (auto simp: neq_Nil_conv split: option.splits)

lemma first_package_None [simp]: "first_package P rs = None \<longleftrightarrow> (\<forall>r\<in>set rs. \<not> P r)"
  by (induction rs) auto

lemma first_package_Some:
  "first_package P rs = Some p \<longleftrightarrow>
     (\<exists>us r vs. rs = us @ r # vs \<and> (\<forall>u\<in>set us. \<not> P u) \<and> P r \<and> t_package r = p)"
proof (induction rs)
  case (Cons x xs)
  show ?case
  proof (cases "P x")
    case True
    have "\<exists>us r vs. x # xs = us @ r # vs \<and> (\<forall>u\<in>set us. \<not> P u) \<and> P r \<and> t_package r = t_package x"
      using True by (intro exI [of _ "[]"] exI [of _ x] exI [of _ xs]) simp
    moreover have "r = x" if "x # xs = us @ r # vs" "\<forall>u\<in>set us. \<not> P u" for us r vs
      using that True by (cases us) auto
    ultimately show ?thesis using True by auto
  next
    case False
    have "\<exists>us' r vs. xs = us' @ r # vs \<and> (\<forall>u\<in>set us'. \<not> P u) \<and> P r \<and> t_package r = p"
      if "x # xs = us @ r # vs" "\<forall>u\<in>set us. \<not> P u" "P r" "t_package r = p" for us r vs
      using that False by (cases us) auto
    moreover have "\<exists>us' r vs. x # xs = us' @ r # vs \<and> (\<forall>u\<in>set us'. \<not> P u) \<and> P r \<and> t_package r = p"
      if "xs = us @ r # vs" "\<forall>u\<in>set us. \<not> P u" "P r" "t_package r = p" for us r vs
      using that False by (intro exI [of _ "x # us"] exI [of _ r] exI [of _ vs]) simp
    ultimately show ?thesis using False by (simp add: Cons.IH) blast
  qed
qed simp


section \<open>Properties\<close>

text \<open>The three faults as the contract words them.\<close>

definition rapt_fault :: "txn_record \<Rightarrow> bool" where
  "rapt_fault r \<longleftrightarrow> (\<exists>p. t_package r = Some p \<and> rapt_pattern (cstr p))"

definition hold_fault :: "txn_record \<Rightarrow> bool" where
  "hold_fault r \<longleftrightarrow> (\<exists>f. Some f \<in> set (t_flags r) \<and> cstr f = ''hold'')"

definition protection_fault :: "txn_record \<Rightarrow> bool" where
  "protection_fault r \<longleftrightarrow> nz (t_action r) \<in> {''remove'', ''purge''} \<and>
     (\<exists>f. Some f \<in> set (t_flags r) \<and> cstr f \<in> {''essential'', ''protected''})"

lemma is_removal_iff: "is_removal a \<longleftrightarrow> nz a \<in> {''remove'', ''purge''}"
  by (cases a) (auto simp: is_removal_def)

lemma record_faults: "owned_record = rapt_fault" "held_record = hold_fault"
  "protected_record = protection_fault"
  by (auto simp: fun_eq_iff owned_record_def held_record_def protected_record_def has_flag_def
    flag_in_iff is_removal_iff rapt_owned_iff rapt_fault_def hold_fault_def protection_fault_def
    split: option.splits)

text \<open>C19. The hand-written ownership scan accepts exactly the names of the pinned pattern
\<open>^r-[a-z]+-[a-z0-9.]+$\<close>.\<close>

theorem rapt_owned_is_pattern:
  "pkgx_is_rapt_owned name \<longleftrightarrow> (\<exists>a b. cstr name = ''r-'' @ a @ ''-'' @ b \<and> a \<noteq> [] \<and> b \<noteq> [] \<and>
     list_all is_lower a \<and> list_all (\<lambda>c. is_lower c \<or> is_digit c \<or> c = CHR ''.'') b)"
  unfolding rapt_owned_iff rapt_pattern_def ..

text \<open>C18. The policy verdict: a transaction passes exactly when no record is rapt-owned, held or a
removal of an essential or protected package; otherwise ownership outranks holds and holds
outrank protection, and the offender reported is the first record with that fault.\<close>

theorem policy_check_verdict:
  "case pkgx_policy_check recs of
     (POLICY_OK, off) \<Rightarrow> off = None \<and>
       \<not> list_ex (\<lambda>r. rapt_fault r \<or> hold_fault r \<or> protection_fault r) recs
   | (POLICY_NOT_OWNED, off) \<Rightarrow>
       (\<exists>us r vs. recs = us @ r # vs \<and> rapt_fault r \<and> \<not> list_ex rapt_fault us \<and> off = t_package r)
   | (POLICY_HELD, off) \<Rightarrow> \<not> list_ex rapt_fault recs \<and>
       (\<exists>us r vs. recs = us @ r # vs \<and> hold_fault r \<and> \<not> list_ex hold_fault us \<and> off = t_package r)
   | (POLICY_PROTECTED, off) \<Rightarrow> \<not> list_ex (\<lambda>r. rapt_fault r \<or> hold_fault r) recs \<and>
       (\<exists>us r vs. recs = us @ r # vs \<and> protection_fault r \<and> \<not> list_ex protection_fault us \<and>
         off = t_package r)"
  unfolding pkgx_policy_check_def list_ex_iff record_faults
  by (auto split: option.split simp: first_package_Some)

end
