(* ===== verification/Json.thy ===== *)
theory Json
  imports Prelude
begin

text \<open>
  JSON values as the Jansson API presents them. The parser \<open>json_loadb\<close> and the printer
  \<open>json_dumps\<close> are not part of the repository: they are parameters of the definitions that
  call them. The accessors here are the ones the source uses on a parsed value.
\<close>

datatype json =
    JObject "(string \<times> json) list"
  | JArray "json list"
  | JString string
  | JInteger int
  | JReal string
  | JTrue
  | JFalse
  | JNull

text \<open>\<open>json_loadb (body, len, JSON_REJECT_DUPLICATES)\<close>: \<open>None\<close> is the null pointer.\<close>

type_synonym loadb = "string \<Rightarrow> json option"

fun json_object_get :: "(string \<times> json) list \<Rightarrow> string \<Rightarrow> json option" where
  "json_object_get [] k = None"
| "json_object_get ((k', v) # kvs) k = (if k' = k then Some v else json_object_get kvs k)"

lemma json_object_get_map_of [simp]: "json_object_get kvs = map_of kvs"
proof
  show "json_object_get kvs k = map_of kvs k" for k
    by (induction kvs) auto
qed

definition json_is_true :: "json option \<Rightarrow> bool" where
  "json_is_true v \<longleftrightarrow> v = Some JTrue"

definition json_is_boolean :: "json option \<Rightarrow> bool" where
  "json_is_boolean v \<longleftrightarrow> v = Some JTrue \<or> v = Some JFalse"

text \<open>\<open>json_is_string\<close> and \<open>json_string_value\<close>: the value is used as a C string.\<close>

definition json_string_value :: "json option \<Rightarrow> string option" where
  "json_string_value v = (case v of Some (JString s) \<Rightarrow> Some (cstr s) | _ \<Rightarrow> None)"

text \<open>Every key of an object lies in a list (\<open>json_object_foreach\<close> with \<open>strcmp\<close>).\<close>

fun keys_within :: "string list \<Rightarrow> (string \<times> json) list \<Rightarrow> bool" where
  "keys_within allowed [] = True"
| "keys_within allowed ((k, v) # kvs) = (if k \<in> set allowed then keys_within allowed kvs else False)"

lemma keys_within_iff: "keys_within allowed kvs \<longleftrightarrow> fst ` set kvs \<subseteq> set allowed"
  by (induction kvs) (auto split: if_splits)

end
