(* ===== verification/Request.thy ===== *)
theory Request
  imports Policy Json
begin

text \<open>
  The request parser of \<open>src/request.c\<close>: the grammars of receipts, correlation ids and package
  names, the nesting depth, the arity of each verb, and the two strict parsers. The parsers
  return the caller's structure on failure too, since what is left in it matters.
\<close>

section \<open>Grammars\<close>

definition is_hex :: "char \<Rightarrow> bool" where
  "is_hex c \<longleftrightarrow> char_between CHR ''0'' CHR ''9'' c \<or> char_between CHR ''a'' CHR ''f'' c"

definition is_lc_hex :: "string \<Rightarrow> nat \<Rightarrow> bool" where
  "is_lc_hex s n = (if strlen s \<noteq> n then False else list_all is_hex (take n s))"

definition pkgx_cid_valid :: "string option \<Rightarrow> bool" where
  "pkgx_cid_valid s =
     (case s of
        None \<Rightarrow> False
      | Some t \<Rightarrow>
          if strlen t \<noteq> 20 + 1 + 16 then False
          else if \<not> list_all is_digit (take 20 t) then False
          else if t ! 20 \<noteq> CHR ''-'' then False
          else list_all is_hex (take 16 (drop 21 t)))"

text \<open>The character loops of \<open>name_ok\<close>; the flag is the source's \<open>first\<close>.\<close>

fun name_chars :: "bool \<Rightarrow> string \<Rightarrow> bool" where
  "name_chars first [] = True"
| "name_chars first (c # s) =
     (if is_lower c \<or> is_digit c \<or> (\<not> first \<and> (c = CHR ''+'' \<or> c = CHR ''.'' \<or> c = CHR ''-''))
      then name_chars False s else False)"

fun arch_chars :: "bool \<Rightarrow> string \<Rightarrow> bool" where
  "arch_chars first [] = True"
| "arch_chars first (c # s) =
     (if is_lower c \<or> is_digit c \<or> (\<not> first \<and> c = CHR ''-'') then arch_chars False s else False)"

definition name_ok :: "string \<Rightarrow> bool" where
  "name_ok s =
     (let n = strlen s; t = cstr s in
      if n < 2 \<or> 256 < n then False
      else let name = takeWhile (\<lambda>c. c \<noteq> CHR '':'') t; colon = dropWhile (\<lambda>c. c \<noteq> CHR '':'') t in
        if length name < 2 then False
        else if \<not> name_chars True name then False
        else if colon = [] then True
        else let arch = tl colon in
          if arch = [] then False else arch_chars True arch)"

definition str_clean :: "json option \<Rightarrow> string option" where
  "str_clean v =
     (case v of
        Some (JString s) \<Rightarrow> if strlen s \<noteq> length s then None else Some s
      | _ \<Rightarrow> None)"

fun depth :: "json \<Rightarrow> nat" and depth_members :: "(string \<times> json) list \<Rightarrow> nat"
  and depth_elems :: "json list \<Rightarrow> nat" where
  "depth (JObject kvs) = depth_members kvs + 1"
| "depth (JArray xs) = depth_elems xs + 1"
| "depth (JString s) = 0"
| "depth (JInteger i) = 0"
| "depth (JReal r) = 0"
| "depth JTrue = 0"
| "depth JFalse = 0"
| "depth JNull = 0"
| "depth_members [] = 0"
| "depth_members ((k, v) # kvs) = max (depth v) (depth_members kvs)"
| "depth_elems [] = 0"
| "depth_elems (v # vs) = max (depth v) (depth_elems vs)"

datatype arity = ARITY_NONE | ARITY_ONE_PLUS

definition verb_arity :: "string \<Rightarrow> arity option" where
  "verb_arity verb =
     (if verb \<in> set [''apt.update'', ''apt.configure'', ''apt.upgrade'', ''apt.dist_upgrade'']
      then Some ARITY_NONE
      else if verb \<in> set [''apt.install'', ''apt.remove'', ''apt.purge'', ''apt.hold'', ''apt.unhold'']
      then Some ARITY_ONE_PLUS
      else None)"

section \<open>Requests\<close>

text \<open>
  The structures after \<open>memset\<close> are all zero: empty strings, no package array. The array and
  its count are one list of the names copied so far.
\<close>

record pkgx_request =
  effect_receipt :: string
  correlation_id :: string
  plan_schema :: int
  packages :: "string list option"
  lock_timeout :: int

definition zero_request :: pkgx_request where
  "zero_request = \<lparr>effect_receipt = [], correlation_id = [], plan_schema = 0, packages = None,
     lock_timeout = 0\<rparr>"

definition pkgx_request_free :: "pkgx_request \<Rightarrow> pkgx_request" where
  "pkgx_request_free req =
     (let req = req\<lparr>effect_receipt := []\<rparr> in
      if packages req \<noteq> None then req\<lparr>packages := None\<rparr> else req)"

definition ALLOWED :: "string list" where
  "ALLOWED = [''effect_receipt'', ''correlation_id'', ''plan_schema'', ''packages'', ''lock_timeout'']"

text \<open>
  The loop over the package array: \<open>copied\<close> are the names copied so far. The result says whether
  the loop finished, and what had been copied when it stopped.
\<close>

fun copy_packages :: "json list \<Rightarrow> string list \<Rightarrow> allocator \<Rightarrow> nat \<Rightarrow> (bool \<times> string list) \<times> nat" where
  "copy_packages [] copied A k = ((True, copied), k)"
| "copy_packages (v # vs) copied A k =
     (case str_clean (Some v) of
        None \<Rightarrow> ((False, copied), k)
      | Some name \<Rightarrow>
          if \<not> name_ok name then ((False, copied), k)
          else if name \<in> set copied then ((False, copied), k)
          else case aalloc A k of
              (Inl e, k) \<Rightarrow> ((False, copied), k)
            | (Inr u, k) \<Rightarrow> copy_packages vs (copied @ [name]) A k)"

text \<open>The common tail of both parsers: array, size, arity, array allocation, loop.\<close>

definition parse_packages ::
  "arity \<Rightarrow> json option \<Rightarrow> allocator \<Rightarrow> nat \<Rightarrow> (bool \<times> string list option) \<times> nat" where
  "parse_packages arity jpk A k =
     (case jpk of
        Some (JArray vs) \<Rightarrow>
          if 256 < length vs then ((False, None), k)
          else if (arity = ARITY_NONE \<and> vs \<noteq> []) \<or> (arity = ARITY_ONE_PLUS \<and> vs = [])
          then ((False, None), k)
          else (case aalloc A k of
              (Inl e, k) \<Rightarrow> ((False, None), k)
            | (Inr u, k) \<Rightarrow>
                (case copy_packages vs [] A k of ((ok, names), k) \<Rightarrow> ((ok, Some names), k)))
      | _ \<Rightarrow> ((False, None), k))"

text \<open>Everything between the parsed root and the two exits; \<open>False\<close> is \<open>goto fail\<close>.\<close>

definition parse_members ::
  "arity \<Rightarrow> json \<Rightarrow> pkgx_request \<Rightarrow> allocator \<Rightarrow> nat \<Rightarrow> (bool \<times> pkgx_request) \<times> nat" where
  "parse_members arity root out A k =
     (case root of
        JObject kvs \<Rightarrow>
          if 4 < depth root then ((False, out), k)
          else if \<not> keys_within ALLOWED kvs then ((False, out), k)
          else (case str_clean (json_object_get kvs ''effect_receipt'') of
            None \<Rightarrow> ((False, out), k)
          | Some rcpt \<Rightarrow>
              if \<not> is_lc_hex rcpt 32 then ((False, out), k)
              else let out = out\<lparr>effect_receipt := rcpt\<rparr> in
          (case str_clean (json_object_get kvs ''correlation_id'') of
            None \<Rightarrow> ((False, out), k)
          | Some cid \<Rightarrow>
              if \<not> pkgx_cid_valid (Some cid) then ((False, out), k)
              else let out = out\<lparr>correlation_id := cid\<rparr> in
          (case json_object_get kvs ''plan_schema'' of
            Some (JInteger i) \<Rightarrow>
              if i \<noteq> 1 then ((False, out), k)
              else let out = out\<lparr>plan_schema := 1\<rparr> in
          (case json_object_get kvs ''lock_timeout'' of
            Some (JInteger t) \<Rightarrow>
              if t < 0 \<or> 3600 < t then ((False, out), k)
              else let out = out\<lparr>lock_timeout := t\<rparr> in
              (case parse_packages arity (json_object_get kvs ''packages'') A k of
                 ((ok, pk), k) \<Rightarrow> ((ok, out\<lparr>packages := pk\<rparr>), k))
          | _ \<Rightarrow> ((False, out), k))
          | _ \<Rightarrow> ((False, out), k))))
      | _ \<Rightarrow> ((False, out), k))"

text \<open>The first component is the error code, \<open>None\<close> for the return value 0.\<close>

definition pkgx_parse_request ::
  "loadb \<Rightarrow> string \<Rightarrow> string \<Rightarrow> allocator \<Rightarrow> nat \<Rightarrow> (string option \<times> pkgx_request) \<times> nat" where
  "pkgx_parse_request loadb verb body A k =
     (let out = zero_request in
      case verb_arity verb of
        None \<Rightarrow> ((Some ''unknown_request'', out), k)
      | Some arity \<Rightarrow>
          (case loadb body of
             None \<Rightarrow> ((Some ''bad_json'', out), k)
           | Some root \<Rightarrow>
               (case parse_members arity root out A k of
                  ((ok, out), k) \<Rightarrow>
                    if ok then ((None, out), k)
                    else ((Some ''schema_invalid'', pkgx_request_free out), k))))"


section \<open>The preview request\<close>

record preview_request =
  p_verb :: string
  p_packages :: "string list option"

definition PREVIEW_ALLOWED :: "string list" where
  "PREVIEW_ALLOWED = [''schema_version'', ''verb'', ''packages'']"

definition zero_preview :: preview_request where
  "zero_preview = \<lparr>p_verb = [], p_packages = None\<rparr>"

definition pkgx_preview_request_free :: "preview_request \<Rightarrow> preview_request" where
  "pkgx_preview_request_free req =
     (if p_packages req \<noteq> None then req\<lparr>p_packages := None\<rparr> else req)"

text \<open>The first component is \<open>ec\<close> when the code jumps to \<open>fail\<close>.\<close>

definition preview_members ::
  "json \<Rightarrow> preview_request \<Rightarrow> allocator \<Rightarrow> nat \<Rightarrow> (string option \<times> preview_request) \<times> nat" where
  "preview_members root out A k =
     (let ec = Some ''schema_invalid'' in
      case root of
        JObject kvs \<Rightarrow>
          if 4 < depth root then ((ec, out), k)
          else if \<not> keys_within PREVIEW_ALLOWED kvs then ((ec, out), k)
          else (case json_object_get kvs ''schema_version'' of
            Some (JInteger i) \<Rightarrow>
              if i \<noteq> 1 then ((ec, out), k)
              else
          (case str_clean (json_object_get kvs ''verb'') of
            None \<Rightarrow> ((ec, out), k)
          | Some verb \<Rightarrow>
              (case verb_arity verb of
                 None \<Rightarrow> ((Some ''unknown_request'', out), k)
               | Some arity \<Rightarrow>
                   if 32 \<le> strlen verb then ((ec, out), k)
                   else let out = out\<lparr>p_verb := verb\<rparr> in
                   (case parse_packages arity (json_object_get kvs ''packages'') A k of
                      ((ok, pk), k) \<Rightarrow> ((if ok then None else ec, out\<lparr>p_packages := pk\<rparr>), k))))
          | _ \<Rightarrow> ((ec, out), k))
      | _ \<Rightarrow> ((ec, out), k))"

definition pkgx_parse_preview_request ::
  "loadb \<Rightarrow> string \<Rightarrow> allocator \<Rightarrow> nat \<Rightarrow> (string option \<times> preview_request) \<times> nat" where
  "pkgx_parse_preview_request loadb body A k =
     (let out = zero_preview in
      case loadb body of
        None \<Rightarrow> ((Some ''bad_json'', out), k)
      | Some root \<Rightarrow>
          (case preview_members root out A k of
             ((None, out), k) \<Rightarrow> ((None, out), k)
           | ((Some ec, out), k) \<Rightarrow> ((Some ec, pkgx_preview_request_free out), k)))"

end
