(* ===== verification/Request_Proofs.thy ===== *)
theory Request_Proofs
  imports Request
begin

text \<open>
  What the request parsers accept: the grammars in closed form, the shape of an accepted
  request, and what is left in the caller's structure when a request is refused.
\<close>

section \<open>Grammars in closed form\<close>

definition receipt_grammar :: "string \<Rightarrow> bool" where
  "receipt_grammar s \<longleftrightarrow> length s = 32 \<and> list_all is_hex s"

definition cid_grammar :: "string \<Rightarrow> bool" where
  "cid_grammar s \<longleftrightarrow> (\<exists>d h. s = d @ ''-'' @ h \<and> length d = 20 \<and> list_all is_digit d \<and>
     length h = 16 \<and> list_all is_hex h)"

definition alnum :: "char \<Rightarrow> bool" where
  "alnum c \<longleftrightarrow> is_lower c \<or> is_digit c"

definition starts_alnum :: "(char \<Rightarrow> bool) \<Rightarrow> string \<Rightarrow> bool" where
  "starts_alnum P s \<longleftrightarrow> s \<noteq> [] \<and> alnum (hd s) \<and> list_all (\<lambda>c. alnum c \<or> P c) (tl s)"

definition name_grammar :: "string \<Rightarrow> bool" where
  "name_grammar s \<longleftrightarrow> length s \<le> 256 \<and>
     (\<exists>name arch. s = name @ arch \<and> 2 \<le> length name \<and>
        starts_alnum (\<lambda>c. c \<in> set ''+.-'') name \<and>
        (arch = [] \<or> (hd arch = CHR '':'' \<and> starts_alnum (\<lambda>c. c = CHR ''-'') (tl arch))))"

lemma char_classes [simp]:
  "\<not> is_hex NUL" "\<not> is_digit NUL" "\<not> is_lower NUL" "\<not> is_digit CHR '':''" "\<not> is_lower CHR '':''"
  by (simp_all add: is_hex_def is_digit_def is_lower_def char_between_def)

lemma digit_is_hex: "is_digit c \<Longrightarrow> is_hex c"
  by (simp add: is_digit_def is_hex_def)

lemma no_nul_strlen: "NUL \<notin> set s \<Longrightarrow> strlen s = length s \<and> cstr s = s"
  by (induction s) (auto simp: strlen_def cstr_def)

lemma strlen_no_nul: "strlen s = length s \<Longrightarrow> NUL \<notin> set s"
  by (simp add: strlen_full_iff)

lemma hex_no_nul: "list_all is_hex s \<Longrightarrow> NUL \<notin> set s"
  by (auto simp: list_all_iff)

lemma receipt_iff: "strlen s = length s \<Longrightarrow> is_lc_hex s 32 \<longleftrightarrow> receipt_grammar s"
  by (auto simp: is_lc_hex_def receipt_grammar_def)

lemma cid_iff:
  assumes "strlen s = length s"
  shows "pkgx_cid_valid (Some s) \<longleftrightarrow> cid_grammar s"
proof
  assume "pkgx_cid_valid (Some s)"
  then have l: "length s = 37" and d: "list_all is_digit (take 20 s)" and m: "s ! 20 = CHR ''-''"
    and h: "list_all is_hex (take 16 (drop 21 s))"
    using assms by (auto simp: pkgx_cid_valid_def split: if_splits)
  have "s = take 20 s @ s ! 20 # drop 21 s" using l id_take_nth_drop [of 20 s] by simp
  then show "cid_grammar s"
    unfolding cid_grammar_def using l d m h by (intro exI [of _ "take 20 s"] exI [of _ "drop 21 s"]) simp
next
  assume "cid_grammar s"
  then obtain d h where s: "s = d @ ''-'' @ h" "length d = 20" "list_all is_digit d" "length h = 16" "list_all is_hex h"
    by (auto simp: cid_grammar_def)
  then show "pkgx_cid_valid (Some s)"
    using assms by (simp add: pkgx_cid_valid_def nth_append)
qed

lemma name_chars_False: "name_chars False s \<longleftrightarrow> list_all (\<lambda>c. alnum c \<or> c \<in> set ''+.-'') s"
  by (induction s) (auto simp: alnum_def)

lemma arch_chars_False: "arch_chars False s \<longleftrightarrow> list_all (\<lambda>c. alnum c \<or> c = CHR ''-'') s"
  by (induction s) (auto simp: alnum_def)

lemma name_chars_iff: "s \<noteq> [] \<Longrightarrow> name_chars True s \<longleftrightarrow> starts_alnum (\<lambda>c. c \<in> set ''+.-'') s"
  by (cases s) (auto simp: starts_alnum_def name_chars_False alnum_def)

lemma arch_chars_iff: "s \<noteq> [] \<Longrightarrow> arch_chars True s \<longleftrightarrow> starts_alnum (\<lambda>c. c = CHR ''-'') s"
  by (cases s) (auto simp: starts_alnum_def arch_chars_False alnum_def)

lemma starts_alnum_no_colon:
  assumes "starts_alnum P s" "\<not> P CHR '':''"
  shows "\<forall>c\<in>set s. c \<noteq> CHR '':''"
  using assms by (cases s) (auto simp: starts_alnum_def alnum_def list_all_iff)

lemma name_iff:
  assumes "strlen s = length s"
  shows "name_ok s \<longleftrightarrow> name_grammar s"
proof
  let ?n = "takeWhile (\<lambda>c. c \<noteq> CHR '':'') s" and ?c = "dropWhile (\<lambda>c. c \<noteq> CHR '':'') s"
  have cs: "cstr s = s" using assms no_nul_strlen strlen_no_nul by blast
  assume ok: "name_ok s"
  have "hd ?c = CHR '':''" if "?c \<noteq> []" using hd_dropWhile [OF that] by simp
  moreover have "name_chars True ?n \<longleftrightarrow> starts_alnum (\<lambda>c. c \<in> set ''+.-'') ?n" if "\<not> length ?n < 2"
    using that by (intro name_chars_iff) auto
  ultimately have n: "2 \<le> length ?n" "length s \<le> 256" "starts_alnum (\<lambda>c. c \<in> set ''+.-'') ?n"
    and a: "?c = [] \<or> (hd ?c = CHR '':'' \<and> starts_alnum (\<lambda>c. c = CHR ''-'') (tl ?c))"
    using ok assms cs
    by (simp_all add: name_ok_def Let_def arch_chars_iff not_less
          del: dropWhile_eq_Nil_conv set_simps split: if_splits)
  show "name_grammar s"
    unfolding name_grammar_def
    by (rule conjI, rule n, rule exI [of _ ?n], rule exI [of _ ?c]) (use n a in simp)
next
  assume "name_grammar s"
  then obtain name arch where s: "s = name @ arch" "2 \<le> length name" "length s \<le> 256"
    and n: "starts_alnum (\<lambda>c. c \<in> set ''+.-'') name"
    and a: "arch = [] \<or> (hd arch = CHR '':'' \<and> starts_alnum (\<lambda>c. c = CHR ''-'') (tl arch))"
    unfolding name_grammar_def by blast
  have "\<forall>c\<in>set name. c \<noteq> CHR '':''" using starts_alnum_no_colon [OF n] by simp
  then have "takeWhile (\<lambda>c. c \<noteq> CHR '':'') s = name" "dropWhile (\<lambda>c. c \<noteq> CHR '':'') s = arch"
    using s(1) a by (cases arch; auto simp: takeWhile_append dropWhile_append)+
  moreover have "cstr s = s" using assms no_nul_strlen strlen_no_nul by blast
  moreover have "tl arch \<noteq> []" if "arch \<noteq> []" using a that by (auto simp: starts_alnum_def)
  moreover have "name_chars True name" using name_chars_iff [of name] n s(2) by (cases name) auto
  ultimately show "name_ok s"
    using s a assms by (auto simp: name_ok_def Let_def arch_chars_iff)
qed


section \<open>Accepted package arrays\<close>

definition package_value :: "arity \<Rightarrow> json option \<Rightarrow> string list \<Rightarrow> bool" where
  "package_value arity v names \<longleftrightarrow> v = Some (JArray (map JString names)) \<and>
     list_all name_grammar names \<and> distinct names \<and> length names \<le> 256 \<and>
     (names = [] \<longleftrightarrow> arity = ARITY_NONE)"

lemma name_no_nul: "name_grammar s \<Longrightarrow> NUL \<notin> set s"
proof -
  assume "name_grammar s"
  then obtain name arch where s: "s = name @ arch" "starts_alnum (\<lambda>c. c \<in> set ''+.-'') name"
    "arch = [] \<or> (hd arch = CHR '':'' \<and> starts_alnum (\<lambda>c. c = CHR ''-'') (tl arch))"
    unfolding name_grammar_def by blast
  have n: "NUL \<notin> set x" if "starts_alnum P x" "\<not> P NUL" for P x
    using that by (cases x) (auto simp: starts_alnum_def alnum_def list_all_iff)
  have "NUL \<notin> set name" by (rule n [OF s(2)]) simp
  moreover have "NUL \<notin> set arch" using s(3) n [of "\<lambda>c. c = CHR ''-''" "tl arch"] by (cases arch) auto
  ultimately show "NUL \<notin> set s" using s(1) by simp
qed

lemma str_clean_iff: "str_clean v = Some s \<longleftrightarrow> v = Some (JString s) \<and> NUL \<notin> set s"
  by (auto simp: str_clean_def strlen_full_iff split: option.splits json.splits if_splits)

lemma clean_iff:
  assumes "strlen s = length s \<Longrightarrow> P s \<longleftrightarrow> G s" "G s \<Longrightarrow> NUL \<notin> set s"
  shows "str_clean v = Some s \<and> P s \<longleftrightarrow> v = Some (JString s) \<and> G s"
  using assms no_nul_strlen [of s] unfolding str_clean_iff by blast

lemma clean_receipt:
  "str_clean v = Some s \<and> is_lc_hex s 32 \<longleftrightarrow> v = Some (JString s) \<and> receipt_grammar s"
  by (rule clean_iff [OF receipt_iff]) (auto simp: receipt_grammar_def dest: hex_no_nul)

lemma cid_no_nul: "cid_grammar s \<Longrightarrow> NUL \<notin> set s"
  using char_classes(1,2) by (fastforce simp: cid_grammar_def list_all_iff)

lemma clean_cid:
  "str_clean v = Some s \<and> pkgx_cid_valid (Some s) \<longleftrightarrow> v = Some (JString s) \<and> cid_grammar s"
  by (rule clean_iff [OF cid_iff cid_no_nul])

lemma clean_name: "str_clean v = Some s \<and> name_ok s \<longleftrightarrow> v = Some (JString s) \<and> name_grammar s"
  by (rule clean_iff [OF name_iff name_no_nul])

lemma copy_packages_sound:
  "copy_packages vs copied A k = ((True, names), k') \<Longrightarrow> distinct copied \<Longrightarrow>
   \<exists>ns. names = copied @ ns \<and> vs = map JString ns \<and> list_all name_grammar ns \<and> distinct names"
proof (induction vs copied A k arbitrary: k' rule: copy_packages.induct)
  case (2 v vs copied A k)
  then obtain n k1 where n: "str_clean (Some v) = Some n" "name_ok n" "n \<notin> set copied"
    and al: "aalloc A k = (Inr (), k1)" and rest: "copy_packages vs (copied @ [n]) A k1 = ((True, names), k')"
    by (auto split: option.splits if_splits prod.splits sum.splits)
  obtain ns where ns: "names = (copied @ [n]) @ ns" "vs = map JString ns" "list_all name_grammar ns" "distinct names"
    using "2.IH" [OF n(1) _ n(3) al [symmetric] refl rest] n "2.prems" by auto
  have "v = JString n" "name_grammar n" using clean_name [of "Some v" n] n by auto
  with ns show ?case by (intro exI [of _ "n # ns"]) simp
qed simp

lemma copy_packages_complete:
  assumes "\<forall>i. A i"
  shows "list_all name_grammar ns \<Longrightarrow> distinct (copied @ ns) \<Longrightarrow>
    \<exists>k'. copy_packages (map JString ns) copied A k = ((True, copied @ ns), k')"
proof (induction ns arbitrary: copied k)
  case (Cons n ns)
  have "str_clean (Some (JString n)) = Some n" "name_ok n"
    using clean_name [of "Some (JString n)" n] Cons.prems by auto
  moreover obtain k' where "copy_packages (map JString ns) (copied @ [n]) A (Suc k) = ((True, (copied @ [n]) @ ns), k')"
    using Cons.IH [of "copied @ [n]" "Suc k"] Cons.prems by auto
  moreover have "aalloc A k = (Inr (), Suc k)" using assms by (simp add: aalloc_def)
  ultimately show ?case using Cons.prems by simp
qed simp

lemma parse_packages_sound:
  assumes "parse_packages arity v A k = ((True, pk), k')"
  obtains names where "pk = Some names" "package_value arity v names"
proof -
  obtain vs names k1 where v: "v = Some (JArray vs)" "length vs \<le> 256" "vs = [] \<longleftrightarrow> arity = ARITY_NONE"
    and c: "copy_packages vs [] A k1 = ((True, names), k')" and pk: "pk = Some names"
    using assms by (cases arity)
      (auto simp: parse_packages_def split: option.splits json.splits if_splits prod.splits sum.splits)
  from copy_packages_sound [OF c] v have "package_value arity v names"
    by (auto simp: package_value_def)
  with pk show ?thesis by (rule that)
qed

lemma parse_packages_complete:
  assumes "\<forall>i. A i" "package_value arity v names"
  shows "\<exists>k'. parse_packages arity v A k = ((True, Some names), k')"
proof -
  obtain k' where "copy_packages (map JString names) [] A (Suc k) = ((True, [] @ names), k')"
    using copy_packages_complete [OF assms(1), of names "[]" "Suc k"] assms(2)
    by (auto simp: package_value_def)
  moreover have "aalloc A k = (Inr (), Suc k)" using assms by (simp add: aalloc_def)
  ultimately show ?thesis
    using assms(2) by (auto simp: parse_packages_def package_value_def)
qed


section \<open>Accepted requests\<close>

text \<open>
  The shape of an accepted effector request: exactly the five members, with values in their
  grammars, the package list fitting the verb, and the structure filled from them.
\<close>

definition request_shape :: "string \<Rightarrow> json \<Rightarrow> pkgx_request \<Rightarrow> bool" where
  "request_shape verb root r \<longleftrightarrow> (\<exists>kvs arity names.
     root = JObject kvs \<and> depth root \<le> 4 \<and> fst ` set kvs \<subseteq> set ALLOWED \<and>
     verb_arity verb = Some arity \<and>
     map_of kvs ''effect_receipt'' = Some (JString (effect_receipt r)) \<and> receipt_grammar (effect_receipt r) \<and>
     map_of kvs ''correlation_id'' = Some (JString (correlation_id r)) \<and> cid_grammar (correlation_id r) \<and>
     map_of kvs ''plan_schema'' = Some (JInteger 1) \<and> plan_schema r = 1 \<and>
     map_of kvs ''lock_timeout'' = Some (JInteger (lock_timeout r)) \<and>
     0 \<le> lock_timeout r \<and> lock_timeout r \<le> 3600 \<and>
     package_value arity (map_of kvs ''packages'') names \<and> packages r = Some names)"

lemma parse_members_sound:
  assumes "parse_members arity root zero_request A k = ((True, r), k')" "verb_arity verb = Some arity"
  shows "request_shape verb root r"
proof -
  note pm = assms(1) [unfolded parse_members_def Let_def json_object_get_map_of]
  obtain kvs where root: "root = JObject kvs" using pm by (cases root) simp_all
  note pm = pm [unfolded root json.case]
  have root': "depth root \<le> 4" "keys_within ALLOWED kvs"
    using pm root by (simp_all add: not_less split: if_splits)
  note pm = pm [unfolded root [symmetric] if_not_P [OF leD [OF root'(1)]] root'(2) not_True_eq_False if_False]
  obtain rcpt where rc: "str_clean (map_of kvs ''effect_receipt'') = Some rcpt" "is_lc_hex rcpt 32"
    using pm by (cases "str_clean (map_of kvs ''effect_receipt'')") (simp_all split: if_splits)
  note pm = pm [unfolded rc option.case not_True_eq_False if_False]
  obtain cid where ci: "str_clean (map_of kvs ''correlation_id'') = Some cid" "pkgx_cid_valid (Some cid)"
    using pm by (cases "str_clean (map_of kvs ''correlation_id'')") (simp_all split: if_splits)
  note pm = pm [unfolded ci option.case not_True_eq_False if_False]
  have ps: "map_of kvs ''plan_schema'' = Some (JInteger 1)"
    using pm by (simp split: option.splits json.splits if_splits)
  note pm = pm [unfolded ps option.case json.case]
  obtain t where t: "map_of kvs ''lock_timeout'' = Some (JInteger t)" "0 \<le> t" "t \<le> 3600"
    using pm by (simp split: option.splits json.splits if_splits)
  obtain pk k1 where pk: "parse_packages arity (map_of kvs ''packages'') A k = ((True, pk), k1)"
    and r: "r = \<lparr>effect_receipt = rcpt, correlation_id = cid, plan_schema = 1, packages = pk, lock_timeout = t\<rparr>"
    using pm t root' rc ci
    by (cases "parse_packages arity (map_of kvs ''packages'') A k") (auto simp: zero_request_def)
  obtain names where "pk = Some names" "package_value arity (map_of kvs ''packages'') names"
    using parse_packages_sound [OF pk] .
  with root root' rc ci ps t r assms(2) clean_receipt [of "map_of kvs ''effect_receipt''" rcpt]
    clean_cid [of "map_of kvs ''correlation_id''" cid]
  show ?thesis unfolding request_shape_def by (auto simp: keys_within_iff)
qed

lemma parse_members_complete:
  assumes A: "\<forall>i. A i" and "request_shape verb root r" and "verb_arity verb = Some arity"
  shows "\<exists>k'. parse_members arity root zero_request A k = ((True, r), k')"
proof -
  obtain kvs names where root: "root = JObject kvs" "depth root \<le> 4" "fst ` set kvs \<subseteq> set ALLOWED"
    and rc: "map_of kvs ''effect_receipt'' = Some (JString (effect_receipt r))" "receipt_grammar (effect_receipt r)"
    and ci: "map_of kvs ''correlation_id'' = Some (JString (correlation_id r))" "cid_grammar (correlation_id r)"
    and ps: "map_of kvs ''plan_schema'' = Some (JInteger 1)" "plan_schema r = 1"
    and t: "map_of kvs ''lock_timeout'' = Some (JInteger (lock_timeout r))" "0 \<le> lock_timeout r" "lock_timeout r \<le> 3600"
    and pk: "package_value arity (map_of kvs ''packages'') names" "packages r = Some names"
    using assms(2,3) by (auto simp: request_shape_def)
  obtain k' where "parse_packages arity (map_of kvs ''packages'') A k = ((True, Some names), k')"
    using parse_packages_complete [OF A pk(1)] by blast
  moreover have "str_clean (map_of kvs ''effect_receipt'') = Some (effect_receipt r)" "is_lc_hex (effect_receipt r) 32"
    "str_clean (map_of kvs ''correlation_id'') = Some (correlation_id r)" "pkgx_cid_valid (Some (correlation_id r))"
    using rc ci clean_receipt clean_cid by blast+
  ultimately have "parse_members arity root zero_request A k =
      ((True, \<lparr>effect_receipt = effect_receipt r, correlation_id = correlation_id r, plan_schema = 1,
        packages = Some names, lock_timeout = lock_timeout r\<rparr>), k')"
    using root ps t by (simp add: parse_members_def Let_def zero_request_def keys_within_iff)
  then show ?thesis using ps(2) pk(2) by auto
qed

lemma parse_sound:
  assumes "pkgx_parse_request loadb verb body A k = ((None, r), k')"
  shows "\<exists>root. loadb body = Some root \<and> request_shape verb root r"
proof -
  obtain arity root k1 where "verb_arity verb = Some arity" "loadb body = Some root"
    "parse_members arity root zero_request A k = ((True, r), k1)"
    using assms by (auto simp: pkgx_parse_request_def Let_def split: option.splits prod.splits if_splits)
  then show ?thesis using parse_members_sound by blast
qed

lemma parse_complete:
  assumes A: "\<forall>i. A i" and "loadb body = Some root" "request_shape verb root r"
  shows "\<exists>k'. pkgx_parse_request loadb verb body A k = ((None, r), k')"
proof -
  obtain arity where ar: "verb_arity verb = Some arity" using assms(3) by (auto simp: request_shape_def)
  obtain k' where "parse_members arity root zero_request A k = ((True, r), k')"
    using parse_members_complete [OF A assms(3) ar] by blast
  with ar assms(2) show ?thesis by (simp add: pkgx_parse_request_def Let_def)
qed

lemma parse_failure:
  assumes "pkgx_parse_request loadb verb body A k = ((Some e, r), k')"
  shows "e \<in> {''unknown_request'', ''bad_json'', ''schema_invalid''} \<and> effect_receipt r = [] \<and> packages r = None"
  using assms
  by (auto simp: pkgx_parse_request_def pkgx_request_free_def zero_request_def Let_def
    split: option.splits prod.splits if_splits)


section \<open>Accepted previews\<close>

definition preview_shape :: "json \<Rightarrow> preview_request \<Rightarrow> bool" where
  "preview_shape root r \<longleftrightarrow> (\<exists>kvs arity names.
     root = JObject kvs \<and> depth root \<le> 4 \<and> fst ` set kvs \<subseteq> set PREVIEW_ALLOWED \<and>
     map_of kvs ''schema_version'' = Some (JInteger 1) \<and>
     map_of kvs ''verb'' = Some (JString (p_verb r)) \<and> verb_arity (p_verb r) = Some arity \<and>
     package_value arity (map_of kvs ''packages'') names \<and> p_packages r = Some names)"

definition all_verbs :: "string list" where
  "all_verbs = [''apt.update'', ''apt.configure'', ''apt.upgrade'', ''apt.dist_upgrade'', ''apt.install'',
    ''apt.remove'', ''apt.purge'', ''apt.hold'', ''apt.unhold'']"

lemma verb_arity_plain:
  assumes "verb_arity verb = Some arity"
  shows "NUL \<notin> set verb \<and> strlen verb < 32"
proof -
  have "list_all (\<lambda>v. NUL \<notin> set v \<and> length v < 32) all_verbs"
    by (simp add: all_verbs_def)
  moreover have "verb \<in> set all_verbs"
    using assms by (auto simp: verb_arity_def all_verbs_def split: if_splits)
  ultimately show ?thesis by (auto simp: list_all_iff)
qed

lemma preview_sound:
  assumes "pkgx_parse_preview_request loadb body A k = ((None, r), k')"
  shows "\<exists>root. loadb body = Some root \<and> preview_shape root r"
proof -
  obtain root kvs verb arity pk k1 where lb: "loadb body = Some root"
    and root: "root = JObject kvs" "depth root \<le> 4" "keys_within PREVIEW_ALLOWED kvs"
    and sv: "map_of kvs ''schema_version'' = Some (JInteger 1)"
    and vb: "str_clean (map_of kvs ''verb'') = Some verb" "verb_arity verb = Some arity"
    and pk: "parse_packages arity (map_of kvs ''packages'') A k = ((True, pk), k1)"
    and r: "r = \<lparr>p_verb = verb, p_packages = pk\<rparr>"
    using assms
    by (auto simp: pkgx_parse_preview_request_def preview_members_def Let_def zero_preview_def
      split: json.splits if_splits option.splits prod.splits)
  obtain names where "pk = Some names" "package_value arity (map_of kvs ''packages'') names"
    using parse_packages_sound [OF pk] .
  with lb root sv vb r show ?thesis
    unfolding preview_shape_def by (auto simp: keys_within_iff str_clean_iff)
qed

lemma preview_complete:
  assumes A: "\<forall>i. A i" and lb: "loadb body = Some root" and "preview_shape root r"
  shows "\<exists>k'. pkgx_parse_preview_request loadb body A k = ((None, r), k')"
proof -
  obtain kvs arity names where root: "root = JObject kvs" "depth root \<le> 4" "fst ` set kvs \<subseteq> set PREVIEW_ALLOWED"
    and sv: "map_of kvs ''schema_version'' = Some (JInteger 1)"
    and vb: "map_of kvs ''verb'' = Some (JString (p_verb r))" "verb_arity (p_verb r) = Some arity"
    and pk: "package_value arity (map_of kvs ''packages'') names" "p_packages r = Some names"
    using assms(3) by (auto simp: preview_shape_def)
  obtain k' where "parse_packages arity (map_of kvs ''packages'') A k = ((True, Some names), k')"
    using parse_packages_complete [OF A pk(1)] by blast
  moreover have "str_clean (map_of kvs ''verb'') = Some (p_verb r)"
    using vb verb_arity_plain by (simp add: str_clean_iff)
  moreover have "\<not> 32 \<le> strlen (p_verb r)" using verb_arity_plain [OF vb(2)] by (simp only: not_le)
  ultimately have "preview_members root zero_preview A k =
      ((None, \<lparr>p_verb = p_verb r, p_packages = Some names\<rparr>), k')"
    using root sv vb(2) by (simp add: preview_members_def Let_def zero_preview_def keys_within_iff)
  with lb show ?thesis using pk(2) by (auto simp: pkgx_parse_preview_request_def)
qed

lemma parse_iff:
  assumes "\<forall>i. A i"
  shows "(\<exists>k'. pkgx_parse_request loadb verb body A k = ((None, r), k')) \<longleftrightarrow>
     (\<exists>root. loadb body = Some root \<and> request_shape verb root r)"
  using parse_sound parse_complete [OF assms] by blast

lemma preview_iff:
  assumes "\<forall>i. A i"
  shows "(\<exists>k'. pkgx_parse_preview_request loadb body A k = ((None, r), k')) \<longleftrightarrow>
     (\<exists>root. loadb body = Some root \<and> preview_shape root r)"
  using preview_sound preview_complete [OF assms] by blast

section \<open>Names are harmless\<close>

lemma name_grammar_chars:
  assumes "name_grammar s"
  shows "s \<noteq> []" "alnum (hd s)" "list_all (\<lambda>c. alnum c \<or> c \<in> set ''+.-:'') s"
proof -
  obtain name arch where s: "s = name @ arch" "2 \<le> length name" "starts_alnum (\<lambda>c. c \<in> set ''+.-'') name"
    "arch = [] \<or> (hd arch = CHR '':'' \<and> starts_alnum (\<lambda>c. c = CHR ''-'') (tl arch))"
    using assms unfolding name_grammar_def by blast
  from s show "s \<noteq> []" by auto
  from s show "alnum (hd s)" by (cases name) (auto simp: starts_alnum_def)
  have *: "starts_alnum P x \<Longrightarrow> (\<And>c. P c \<Longrightarrow> c \<in> set ''+.-:'') \<Longrightarrow>
      list_all (\<lambda>c. alnum c \<or> c \<in> set ''+.-:'') x" for P x
    by (cases x) (auto simp: starts_alnum_def list_all_iff)
  have "list_all (\<lambda>c. alnum c \<or> c \<in> set ''+.-:'') name" by (rule * [OF s(3)]) auto
  moreover have "list_all (\<lambda>c. alnum c \<or> c \<in> set ''+.-:'') arch"
    using s(4) * [of "\<lambda>c. c = CHR ''-''" "tl arch"] by (cases arch) auto
  ultimately show "list_all (\<lambda>c. alnum c \<or> c \<in> set ''+.-:'') s" using s(1) by simp
qed

lemma utf8_valid_ascii: "\<forall>c\<in>set s. ord c < 128 \<Longrightarrow> utf8_valid s"
  by (induction s) auto

lemma alnum_plain:
  assumes "alnum c \<or> c \<in> set ''+.-:''"
  shows "ord c < 128 \<and> c \<noteq> US \<and> c \<noteq> RS \<and> c \<noteq> CHR '','' \<and> c \<noteq> CHR ''='' \<and> c \<noteq> CHR ''/''"
  using assms by (auto simp: alnum_def is_lower_def is_digit_def char_between_def US_def RS_def)

lemma name_field_ok: "name_grammar s \<Longrightarrow> field_ok (Some s)"
proof -
  assume n: "name_grammar s"
  then have c: "\<forall>c\<in>set s. ord c < 128 \<and> c \<noteq> US \<and> c \<noteq> RS \<and> c \<noteq> CHR '','' \<and> c \<noteq> CHR ''=''"
    using name_grammar_chars(3) alnum_plain unfolding list_all_iff by blast
  have "no_delims s" using c by (induction s) auto
  moreover have "utf8_valid s" using c by (simp add: utf8_valid_ascii)
  ultimately show ?thesis using name_no_nul [OF n] by (simp add: field_ok_def)
qed

section \<open>Properties\<close>

text \<open>C20. With memory available the request parser accepts exactly the well-shaped requests of its
own verb, and fills the structure with exactly the values in the JSON: receipt of 32 hex digits,
correlation id in the broker's grammar, schema 1, a time-out in range, and distinct package names in
the strict grammar whose number fits the verb.\<close>

theorem parse_request_exact:
  assumes "\<forall>i. A i"
  shows "(\<exists>k'. pkgx_parse_request loadb verb body A k = ((None, r), k')) \<longleftrightarrow>
    (\<exists>root. loadb body = Some root \<and> request_shape verb root r)"
  using assms by (rule parse_iff)

definition ex_receipt :: string where "ex_receipt = ''0123456789abcdef0123456789abcdef''"
definition ex_cid :: string where "ex_cid = ''00000000000000000042-0123456789abcdef''"

definition ex_json :: json where
  "ex_json = JObject [(''effect_receipt'', JString ex_receipt), (''correlation_id'', JString ex_cid),
     (''plan_schema'', JInteger 1), (''packages'', JArray [JString ''vim'', JString ''libc6:amd64'']),
     (''lock_timeout'', JInteger 30)]"

definition ex_request :: pkgx_request where
  "ex_request = \<lparr>effect_receipt = ex_receipt, correlation_id = ex_cid, plan_schema = 1,
     packages = Some [''vim'', ''libc6:amd64''], lock_timeout = 30\<rparr>"

lemma ex_parse:
  "pkgx_parse_request (\<lambda>_. Some ex_json) ''apt.install'' [] (\<lambda>_. True) 0 = ((None, ex_request), 3)"
  by code_simp

theorem parse_request_exact_witness: "request_shape ''apt.install'' ex_json ex_request"
  using parse_request_exact [of "\<lambda>_. True" "\<lambda>_. Some ex_json" "''apt.install''" "[]" 0 ex_request] ex_parse
  by auto

text \<open>C21. A refused request leaves no secret and no memory behind: whatever stage failed and whatever
the allocator did, the receipt is wiped, the package array is released, and the code is one of the
three documented ones.\<close>

theorem parse_refusal_wipes:
  assumes "pkgx_parse_request loadb verb body A k = ((Some e, r), k')"
  shows "e \<in> {''unknown_request'', ''bad_json'', ''schema_invalid''} \<and> effect_receipt r = [] \<and>
    packages r = None"
  using assms by (rule parse_failure)

theorem parse_refusal_wipes_witness:
  "\<exists>r k'. pkgx_parse_request (\<lambda>_. Some ex_json) ''apt.update'' [] (\<lambda>_. True) 0 =
     ((Some ''schema_invalid'', r), k') \<and> effect_receipt r = [] \<and> packages r = None"
proof -
  obtain r k' where "pkgx_parse_request (\<lambda>_. Some ex_json) ''apt.update'' [] (\<lambda>_. True) 0 =
     ((Some ''schema_invalid'', r), k')"
  proof -
    have "fst (fst (pkgx_parse_request (\<lambda>_. Some ex_json) ''apt.update'' [] (\<lambda>_. True) 0)) = Some ''schema_invalid''"
      by code_simp
    then show ?thesis by (metis prod.collapse that)
  qed
  with parse_refusal_wipes [OF this] show ?thesis by blast
qed

text \<open>Lower-case letters and digits, spelt out.\<close>

lemma name_chars_listed: "''abcdefghijklmnopqrstuvwxyz0123456789'' = map char_of ([97..<123] @ [48..<58 :: nat])"
  by code_simp

lemma alnum_listed: "alnum c \<Longrightarrow> c \<in> set ''abcdefghijklmnopqrstuvwxyz0123456789''"
proof -
  assume "alnum c"
  then have "of_char c \<in> set ([97..<123] @ [48..<58 :: nat])"
    by (simp only: set_append set_upt Un_iff atLeastLessThan_iff) (auto simp: alnum_def is_lower_def is_digit_def char_between_def)
  then have "char_of (of_char c :: nat) \<in> char_of ` set ([97..<123] @ [48..<58 :: nat])" by (rule imageI)
  then show ?thesis unfolding name_chars_listed set_map char_of_char .
qed

text \<open>C22. Package names that passed the parser are safe to hand on: every one is a field the digest accepts, has no NUL, is between 2
and 256 characters long, begins with a lower-case letter or a digit, and consists of nothing but lower-case letters, digits and the four
characters plus, minus, full stop and colon. So none can be an option, a path or a piece of shell text.\<close>

theorem accepted_names_are_safe:
  assumes "pkgx_parse_request loadb verb body A k = ((None, r), k')" and "packages r = Some names"
    and "s \<in> set names"
  shows "field_ok (Some s) \<and> cstr s = s \<and> 2 \<le> length s \<and> length s \<le> 256 \<and>
    hd s \<in> set ''abcdefghijklmnopqrstuvwxyz0123456789'' \<and>
    set s \<subseteq> set ''abcdefghijklmnopqrstuvwxyz0123456789'' \<union> set ''+.-:''"
proof -
  have n: "name_grammar s"
    using parse_sound [OF assms(1)] assms(2,3)
    by (auto simp: request_shape_def package_value_def list_all_iff)
  then have "2 \<le> length s" "length s \<le> 256" by (auto simp: name_grammar_def)
  moreover have "hd s \<in> set ''abcdefghijklmnopqrstuvwxyz0123456789''"
    by (rule alnum_listed) (rule name_grammar_chars(2) [OF n])
  moreover have "set s \<subseteq> set ''abcdefghijklmnopqrstuvwxyz0123456789'' \<union> set ''+.-:''"
    using name_grammar_chars(3) [OF n] alnum_listed unfolding list_all_iff by blast
  ultimately show ?thesis using name_field_ok [OF n] no_nul_strlen [OF name_no_nul [OF n]] by blast
qed

theorem accepted_names_are_safe_witness:
  "field_ok (Some ''libc6:amd64'') \<and>
   set ''libc6:amd64'' \<subseteq> set ''abcdefghijklmnopqrstuvwxyz0123456789'' \<union> set ''+.-:''"
  using accepted_names_are_safe [OF ex_parse, of "[''vim'', ''libc6:amd64'']" "''libc6:amd64''"]
  by (simp add: ex_request_def)

text \<open>The unprivileged preview and the privileged helper agree on verbs and package lists: whatever
package list a preview request carries past the parser for a verb, the helper's parser accepts the
same list for that verb, and the other way round.\<close>

theorem preview_agrees_with_request:
  assumes "\<forall>i. A i" and "receipt_grammar rcpt" and "cid_grammar cid" and "0 \<le> t" and "t \<le> 3600"
    and preview_json: "loadb pbody = Some (JObject [(''schema_version'', JInteger 1),
      (''verb'', JString verb), (''packages'', v)])"
    and request_json: "loadb rbody = Some (JObject [(''effect_receipt'', JString rcpt),
      (''correlation_id'', JString cid), (''plan_schema'', JInteger 1), (''packages'', v),
      (''lock_timeout'', JInteger t)])"
  shows "(\<exists>k'. pkgx_parse_preview_request loadb pbody A k = ((None, \<lparr>p_verb = verb, p_packages = Some names\<rparr>), k')) \<longleftrightarrow>
    (\<exists>k'. pkgx_parse_request loadb verb rbody A k = ((None, \<lparr>effect_receipt = rcpt, correlation_id = cid,
       plan_schema = 1, packages = Some names, lock_timeout = t\<rparr>), k'))" (is "?P \<longleftrightarrow> ?R")
proof -
  let ?M = "\<exists>arity. depth v \<le> 3 \<and> verb_arity verb = Some arity \<and> package_value arity (Some v) names"
  have "?P \<longleftrightarrow> preview_shape (JObject [(''schema_version'', JInteger 1), (''verb'', JString verb),
      (''packages'', v)]) \<lparr>p_verb = verb, p_packages = Some names\<rparr>"
    unfolding preview_iff [OF assms(1)] preview_json by blast
  also have "\<dots> \<longleftrightarrow> ?M" by (simp add: preview_shape_def PREVIEW_ALLOWED_def)
  also have "\<dots> \<longleftrightarrow> request_shape verb (JObject [(''effect_receipt'', JString rcpt),
      (''correlation_id'', JString cid), (''plan_schema'', JInteger 1), (''packages'', v),
      (''lock_timeout'', JInteger t)]) \<lparr>effect_receipt = rcpt, correlation_id = cid,
       plan_schema = 1, packages = Some names, lock_timeout = t\<rparr>"
    using assms(2-5) by (simp add: request_shape_def ALLOWED_def)
  also have "\<dots> \<longleftrightarrow> ?R"
    unfolding parse_iff [OF assms(1)] request_json by blast
  finally show ?thesis .
qed

definition ex_loadb :: loadb where
  "ex_loadb body = (if body = ''p'' then Some (JObject [(''schema_version'', JInteger 1),
      (''verb'', JString ''apt.hold''), (''packages'', JArray [JString ''vim''])])
    else Some (JObject [(''effect_receipt'', JString ex_receipt),
      (''correlation_id'', JString ex_cid), (''plan_schema'', JInteger 1), (''packages'', JArray [JString ''vim'']),
      (''lock_timeout'', JInteger 30)]))"

lemma ex_grammars: "receipt_grammar ex_receipt" "cid_grammar ex_cid"
proof -
  show "receipt_grammar ex_receipt" by code_simp
  have "pkgx_cid_valid (Some ex_cid)" "strlen ex_cid = length ex_cid" by code_simp+
  then show "cid_grammar ex_cid" using cid_iff by blast
qed

theorem preview_agrees_with_request_witness:
  "\<exists>k'. pkgx_parse_preview_request ex_loadb ''p'' (\<lambda>_. True) 0 =
     ((None, \<lparr>p_verb = ''apt.hold'', p_packages = Some [''vim'']\<rparr>), k')"
proof -
  have "pkgx_parse_request ex_loadb ''apt.hold'' ''r'' (\<lambda>_. True) 0 = ((None, \<lparr>effect_receipt = ex_receipt,
      correlation_id = ex_cid, plan_schema = 1, packages = Some [''vim''], lock_timeout = 30\<rparr>), 2)"
    by code_simp
  then show ?thesis
    by (subst preview_agrees_with_request [where rbody = "''r''" and rcpt = ex_receipt and cid = ex_cid and t = 30])
       (use ex_grammars in \<open>auto simp: ex_loadb_def\<close>)
qed

end
