(* ===== verification/Redeem.thy ===== *)
theory Redeem
  imports Os Json
begin

text \<open>
  The broker redeem client of \<open>src/redeem.c\<close>: the request it builds, the strict validation of
  the reply, and the correlation id it hands back. The transport is an argument, as in the
  source; so are the Jansson entry points, bundled in \<open>jansson\<close>.
\<close>

section \<open>Jansson\<close>

text \<open>
  \<open>j_loadb\<close> parses with duplicate rejection, \<open>j_dumps\<close> prints compactly (\<open>None\<close> is failure),
  \<open>j_utf8\<close> is the check by which \<open>json_string\<close> refuses a byte string.
\<close>

record jansson =
  j_loadb :: loadb
  j_dumps :: "json \<Rightarrow> string option"
  j_utf8 :: "string \<Rightarrow> bool"

definition json_string :: "jansson \<Rightarrow> string \<Rightarrow> json am" where
  "json_string jn s =
     abind (aguard (j_utf8 jn (cstr s)) Violation) (\<lambda>_. abind aalloc (\<lambda>_. aret (JString (cstr s))))"

definition json_integer :: "int \<Rightarrow> json am" where
  "json_integer i = abind aalloc (\<lambda>_. aret (JInteger i))"

text \<open>\<open>json_object_set_new (o, k, v)\<close>: evaluate the value, fail on a null one, append the member.\<close>

definition set_new :: "(string \<times> json) list \<Rightarrow> string \<Rightarrow> json am \<Rightarrow> (string \<times> json) list am" where
  "set_new kvs k v = abind v (\<lambda>j. abind aalloc (\<lambda>_. aret (kvs @ [(k, j)])))"

definition json_dumps :: "jansson \<Rightarrow> json \<Rightarrow> string am" where
  "json_dumps jn j =
     abind aalloc (\<lambda>_. case j_dumps jn j of None \<Rightarrow> afail NoMem | Some s \<Rightarrow> aret s)"

section \<open>The request\<close>

record redeem_req =
  rr_effect_receipt :: string
  rr_principal_uid :: int
  rr_operation :: string
  rr_resource :: string
  rr_plan_schema :: int
  rr_plan_hash :: string

definition build_request :: "jansson \<Rightarrow> redeem_req \<Rightarrow> string am" where
  "build_request jn r =
     abind aalloc (\<lambda>_. abind aalloc (\<lambda>_.
     abind (set_new [] ''type'' (json_string jn ''redeem_receipt'')) (\<lambda>ob.
     abind (set_new ob ''effect_receipt'' (json_string jn (rr_effect_receipt r))) (\<lambda>ob.
     abind (set_new ob ''principal_uid'' (json_integer (rr_principal_uid r))) (\<lambda>ob.
     abind (set_new [] ''operation'' (json_string jn (rr_operation r))) (\<lambda>eff.
     abind (set_new eff ''resource'' (json_string jn (rr_resource r))) (\<lambda>eff.
     abind (set_new eff ''plan_schema'' (json_integer (rr_plan_schema r))) (\<lambda>eff.
     abind (set_new eff ''plan_hash'' (json_string jn (rr_plan_hash r))) (\<lambda>eff.
     abind (set_new ob ''effect'' (aret (JObject eff))) (\<lambda>ob.
     json_dumps jn (JObject ob)))))))))))"

section \<open>The reply\<close>

definition REDEEM_ERRORS :: "string list" where
  "REDEEM_ERRORS = [''receipt_invalid'', ''receipt_expired'', ''receipt_redeemed'', ''receipt_mismatch'',
     ''receipt_unauthorized'', ''receipt_actor_mismatch'', ''rate_limited'', ''persist_failed'']"

fun first_match :: "string \<Rightarrow> string list \<Rightarrow> string option" where
  "first_match code [] = None"
| "first_match code (e # es) = (if code = e then Some e else first_match code es)"

definition known_error :: "string \<Rightarrow> string option" where
  "known_error code = first_match code REDEEM_ERRORS"

text \<open>\<open>only_keys\<close>: every member name is one of \<open>allowed\<close>.\<close>

fun only_keys :: "(string \<times> json) list \<Rightarrow> string list \<Rightarrow> bool" where
  "only_keys [] allowed = True"
| "only_keys ((k, v) # kvs) allowed = (if k \<in> set allowed then only_keys kvs allowed else False)"

datatype redeem_status = REDEEM_OK | REDEEM_REFUSED | REDEEM_CID_MISMATCH | REDEEM_PROTOCOL

text \<open>The validation of a reply: status, what \<open>out_cid\<close> holds afterwards, and \<open>*code\<close>.\<close>

definition check_reply ::
  "loadb \<Rightarrow> string \<Rightarrow> string \<Rightarrow> string \<Rightarrow> redeem_status \<times> string \<times> string" where
  "check_reply loadb expected_cid out_cid resp =
     (case loadb resp of
        Some (JObject root) \<Rightarrow>
          let jok = json_object_get root ''ok'' in
          if \<not> json_is_boolean jok then (REDEEM_PROTOCOL, out_cid, ''protocol'')
          else if json_is_true jok then
            (case json_string_value (json_object_get root ''correlation_id'') of
               None \<Rightarrow> (REDEEM_PROTOCOL, out_cid, ''protocol'')
             | Some cid \<Rightarrow>
                 if \<not> only_keys root [''ok'', ''correlation_id'', ''persisted''] \<or>
                    \<not> json_is_true (json_object_get root ''persisted'')
                 then (REDEEM_PROTOCOL, out_cid, ''protocol'')
                 else if strlen cid \<noteq> 37 \<or> cid \<noteq> cstr expected_cid
                 then (REDEEM_CID_MISMATCH, out_cid, ''cid_mismatch'')
                 else (REDEEM_OK, cid, ''ok''))
          else
            (case json_string_value (json_object_get root ''error'') of
               None \<Rightarrow> (REDEEM_PROTOCOL, out_cid, ''protocol'')
             | Some e \<Rightarrow>
                 if \<not> only_keys root [''ok'', ''error'', ''message''] \<or>
                    json_string_value (json_object_get root ''message'') = None
                 then (REDEEM_PROTOCOL, out_cid, ''protocol'')
                 else (case known_error e of
                     None \<Rightarrow> (REDEEM_PROTOCOL, out_cid, ''protocol'')
                   | Some known \<Rightarrow> (REDEEM_REFUSED, out_cid, known)))
      | _ \<Rightarrow> (REDEEM_PROTOCOL, out_cid, ''protocol''))"

section \<open>The exchange\<close>

type_synonym transport = "string \<Rightarrow> (int \<times> string option) io"

text \<open>After the transport call: wipe the request, then judge what came back.\<close>

definition redeem_after ::
  "jansson \<Rightarrow> string \<Rightarrow> string \<Rightarrow> string \<Rightarrow> int \<times> string option \<Rightarrow> (redeem_status \<times> string \<times> string) io" where
  "redeem_after jn expected_cid out_cid reqbody x =
     ibind (emit (Wipe reqbody)) (\<lambda>_.
       if fst x \<noteq> 0 then ireturn (REDEEM_PROTOCOL, out_cid, ''transport'')
       else case snd x of
           None \<Rightarrow> ireturn (REDEEM_PROTOCOL, out_cid, ''transport'')
         | Some resp \<Rightarrow> ireturn (check_reply (j_loadb jn) expected_cid out_cid resp))"

definition pkgx_redeem ::
  "jansson \<Rightarrow> redeem_req \<Rightarrow> string \<Rightarrow> transport \<Rightarrow> string \<Rightarrow> (redeem_status \<times> string \<times> string) io" where
  "pkgx_redeem jn req expected_cid tx out_cid =
     ibind (allocating (build_request jn req)) (\<lambda>reqbody. case reqbody of
         None \<Rightarrow> ireturn (REDEEM_PROTOCOL, out_cid, ''protocol'')
       | Some reqbody \<Rightarrow> ibind (tx reqbody) (redeem_after jn expected_cid out_cid reqbody))"

definition pkgx_cid_echo :: "string option \<Rightarrow> string" where
  "pkgx_cid_echo expected_cid =
     (case expected_cid of
        None \<Rightarrow> []
      | Some c \<Rightarrow> if strlen c = 37 then cstr c else [])"

end
