(* ===== verification/Redeem_Proofs.thy ===== *)
theory Redeem_Proofs
  imports Redeem
begin

text \<open>
  What the redeem client does with a reply and with the secret: the exact replies that count as
  a redemption, the closed set of refusals, the content of the request, and the wiping of it.
\<close>

section \<open>The request\<close>

definition request_json :: "redeem_req \<Rightarrow> json" where
  "request_json r = JObject
     [(''type'', JString ''redeem_receipt''),
      (''effect_receipt'', JString (cstr (rr_effect_receipt r))),
      (''principal_uid'', JInteger (rr_principal_uid r)),
      (''effect'', JObject
        [(''operation'', JString (cstr (rr_operation r))),
         (''resource'', JString (cstr (rr_resource r))),
         (''plan_schema'', JInteger (rr_plan_schema r)),
         (''plan_hash'', JString (cstr (rr_plan_hash r)))])]"

definition encodable :: "jansson \<Rightarrow> redeem_req \<Rightarrow> bool" where
  "encodable jn r \<longleftrightarrow> list_all (\<lambda>s. j_utf8 jn (cstr s))
     [''redeem_receipt'', rr_effect_receipt r, rr_operation r, rr_resource r, rr_plan_hash r]"

lemma pc_case_option [alloc_rules]:
  "(x = None \<Longrightarrow> pcorrect m P) \<Longrightarrow> (\<And>y. x = Some y \<Longrightarrow> pcorrect (f y) P) \<Longrightarrow>
   pcorrect (case x of None \<Rightarrow> m | Some y \<Rightarrow> f y) P"
  by (cases x) auto

lemma pc_json_string [alloc_rules]:
  "(j_utf8 jn (cstr s) \<Longrightarrow> P (JString (cstr s))) \<Longrightarrow> pcorrect (json_string jn s) P"
  unfolding json_string_def by (intro alloc_rules) auto

lemma tc_json_string [alloc_rules]:
  "j_utf8 jn (cstr s) \<Longrightarrow> P (JString (cstr s)) \<Longrightarrow> tcorrect (json_string jn s) P"
  unfolding json_string_def by (intro alloc_rules) auto

lemma pc_json_integer [alloc_rules]: "P (JInteger i) \<Longrightarrow> pcorrect (json_integer i) P"
  unfolding json_integer_def by (intro alloc_rules) auto

lemma tc_json_integer [alloc_rules]: "P (JInteger i) \<Longrightarrow> tcorrect (json_integer i) P"
  unfolding json_integer_def by (intro alloc_rules) auto

lemma pc_set_new [alloc_rules]: "pcorrect v (\<lambda>j. P (kvs @ [(k, j)])) \<Longrightarrow> pcorrect (set_new kvs k v) P"
  unfolding set_new_def by (intro alloc_rules) (auto elim!: pc_weaken intro!: alloc_rules)

lemma tc_set_new [alloc_rules]: "tcorrect v (\<lambda>j. P (kvs @ [(k, j)])) \<Longrightarrow> tcorrect (set_new kvs k v) P"
  unfolding set_new_def by (intro alloc_rules) (auto elim!: tc_weaken intro!: alloc_rules)

lemma pc_build_request:
  "pcorrect (build_request jn r) (\<lambda>body. encodable jn r \<and> j_dumps jn (request_json r) = Some body)"
  unfolding build_request_def json_dumps_def
  by (intro alloc_rules) (auto simp: request_json_def encodable_def)

lemma tc_build_request:
  "encodable jn r \<Longrightarrow> j_dumps jn (request_json r) = Some body \<Longrightarrow>
   tcorrect (build_request jn r) (\<lambda>b. b = body)"
  unfolding build_request_def json_dumps_def
  by (intro alloc_rules) (auto simp: request_json_def encodable_def intro!: alloc_rules)

section \<open>Replies\<close>

lemma only_keys_iff [simp]: "only_keys kvs allowed \<longleftrightarrow> fst ` set kvs \<subseteq> set allowed"
  by (induction kvs) (auto split: if_splits)

lemma first_match_iff [simp]: "first_match code es = Some e \<longleftrightarrow> e = code \<and> code \<in> set es"
  by (induction es) auto

lemma first_match_None [simp]: "first_match code es = None \<longleftrightarrow> code \<notin> set es"
  by (induction es) auto

text \<open>The one reply that redeems: exactly these three members, with these values.\<close>

definition redeemed_reply :: "json option \<Rightarrow> string \<Rightarrow> bool" where
  "redeemed_reply root cid \<longleftrightarrow> (\<exists>kvs c.
     root = Some (JObject kvs) \<and> fst ` set kvs \<subseteq> {''ok'', ''correlation_id'', ''persisted''} \<and>
     map_of kvs ''ok'' = Some JTrue \<and> map_of kvs ''persisted'' = Some JTrue \<and>
     map_of kvs ''correlation_id'' = Some (JString c) \<and> cstr c = cstr cid \<and> strlen cid = 37)"

definition refused_reply :: "json option \<Rightarrow> string \<Rightarrow> bool" where
  "refused_reply root code \<longleftrightarrow> (\<exists>kvs e m.
     root = Some (JObject kvs) \<and> fst ` set kvs \<subseteq> {''ok'', ''error'', ''message''} \<and>
     map_of kvs ''ok'' = Some JFalse \<and> map_of kvs ''error'' = Some (JString e) \<and>
     map_of kvs ''message'' = Some (JString m) \<and> cstr e = code \<and> code \<in> set REDEEM_ERRORS)"

lemma string_value_iff: "json_string_value v = Some s \<longleftrightarrow> (\<exists>t. v = Some (JString t) \<and> s = cstr t)"
  by (auto simp: json_string_value_def split: option.splits json.splits)

lemma string_value_None: "json_string_value v = None \<longleftrightarrow> (\<nexists>t. v = Some (JString t))"
  by (auto simp: json_string_value_def split: option.splits json.splits)

lemma check_reply_ok:
  "check_reply loadb ecid oc resp = (REDEEM_OK, cid, code) \<longleftrightarrow>
     redeemed_reply (loadb resp) ecid \<and> cid = cstr ecid \<and> code = ''ok''"
  by (auto simp: check_reply_def redeemed_reply_def Let_def string_value_iff string_value_None
      json_is_boolean_def json_is_true_def strlen_def
    split: option.splits json.splits if_splits)

lemma check_reply_refused:
  "check_reply loadb ecid oc resp = (REDEEM_REFUSED, cid, code) \<longleftrightarrow>
     refused_reply (loadb resp) code \<and> cid = oc"
  by (auto simp: check_reply_def refused_reply_def Let_def string_value_iff string_value_None
      json_is_boolean_def json_is_true_def known_error_def
    split: option.splits json.splits if_splits)


section \<open>The exchange\<close>

text \<open>A run that returns either never called the transport, or called it exactly once.\<close>

lemma redeem_cases:
  assumes "pkgx_redeem jn req ecid tx oc w = (Some (st, cid, code), w')"
  obtains (unbuilt) k where "st = REDEEM_PROTOCOL" "cid = oc" "code = ''protocol''" "w' = w\<lparr>acnt := k\<rparr>"
  | (sent) body k trc resp w2 where
      "encodable jn req" "j_dumps jn (request_json req) = Some body"
      "tx body (w\<lparr>acnt := k\<rparr>) = (Some (trc, resp), w2)" "w' = w2\<lparr>log := log w2 @ [Wipe body]\<rparr>"
      "(st, cid, code) = (if trc \<noteq> 0 then (REDEEM_PROTOCOL, oc, ''transport'')
         else case resp of None \<Rightarrow> (REDEEM_PROTOCOL, oc, ''transport'')
           | Some r \<Rightarrow> check_reply (j_loadb jn) ecid oc r)"
proof (cases "build_request jn req (aorc w) (acnt w)")
  case (Pair b k)
  show ?thesis
  proof (cases b)
    case (Inl e)
    with assms Pair show ?thesis
      by (intro unbuilt [of k]) (auto simp: pkgx_redeem_def ibind_def allocating_def ireturn_def)
  next
    case (Inr body)
    obtain r w2 where tx: "tx body (w\<lparr>acnt := k\<rparr>) = (r, w2)" by (cases "tx body (w\<lparr>acnt := k\<rparr>)")
    with assms Pair Inr obtain trc resp where r: "r = Some (trc, resp)"
      by (cases r) (auto simp: pkgx_redeem_def ibind_def allocating_def split: prod.splits)
    have "encodable jn req \<and> j_dumps jn (request_json req) = Some body"
      using pcD [OF pc_build_request] Pair Inr by metis
    with assms Pair Inr tx r show ?thesis
      by (intro sent [of body k trc resp w2])
         (auto simp: pkgx_redeem_def redeem_after_def ibind_def allocating_def ireturn_def emit_def split: option.splits if_splits)
  qed
qed

lemma check_reply_out: "check_reply loadb ecid oc r = (st, cid, code) \<Longrightarrow> st \<noteq> REDEEM_OK \<Longrightarrow> cid = oc"
  by (auto simp: check_reply_def Let_def split: option.splits json.splits if_splits)

lemma check_reply_status:
  "check_reply loadb ecid oc r = (st, cid, code) \<Longrightarrow> st \<noteq> REDEEM_OK \<Longrightarrow> st \<noteq> REDEEM_REFUSED \<Longrightarrow>
   code = (if st = REDEEM_CID_MISMATCH then ''cid_mismatch'' else ''protocol'')"
  by (auto simp: check_reply_def Let_def split: option.splits json.splits if_splits)

text \<open>The outcomes, by status.\<close>

lemma redeem_code:
  assumes "pkgx_redeem jn req ecid tx oc w = (Some (st, cid, code), w')"
  shows "case st of
      REDEEM_OK \<Rightarrow> cid = cstr ecid \<and> length cid = 37 \<and> code = ''ok''
    | REDEEM_REFUSED \<Rightarrow> cid = oc \<and> code \<in> set REDEEM_ERRORS
    | REDEEM_CID_MISMATCH \<Rightarrow> cid = oc \<and> code = ''cid_mismatch''
    | REDEEM_PROTOCOL \<Rightarrow> cid = oc \<and> code \<in> {''protocol'', ''transport''}"
  using assms
proof (cases rule: redeem_cases)
  case (sent body k trc resp w2)
  show ?thesis
  proof (cases "trc = 0 \<and> resp \<noteq> None")
    case True
    then obtain r where "resp = Some r" by blast
    with True sent have c: "check_reply (j_loadb jn) ecid oc r = (st, cid, code)" by simp
    then show ?thesis
      using check_reply_ok [of "j_loadb jn" ecid oc r cid code] check_reply_out [OF c] check_reply_status [OF c]
        check_reply_refused [of "j_loadb jn" ecid oc r cid code]
      by (cases st) (auto simp: refused_reply_def redeemed_reply_def strlen_def)
  next
    case False
    with sent show ?thesis by (cases resp) (auto split: if_splits)
  qed
qed simp

section \<open>The contract with the transport\<close>

text \<open>
  What the client relies on. \<open>S body\<close> describes the events the transport may cause while it has
  \<open>body\<close>, finished or not; \<open>D body reply\<close> those of an exchange that succeeded with \<open>reply\<close>.
\<close>

locale redeem_transport =
  fixes tx :: transport and S :: "string \<Rightarrow> event list \<Rightarrow> bool"
    and D :: "string \<Rightarrow> string \<Rightarrow> event list \<Rightarrow> bool"
  assumes tx_trace: "tr (tx body) (\<lambda>x es. S body es \<and>
      (fst x = 0 \<longrightarrow> (\<exists>r. snd x = Some r \<and> D body r es))) (S body)"
begin

text \<open>The events of a redemption, by status.\<close>

definition redeem_events :: "jansson \<Rightarrow> redeem_req \<Rightarrow> string \<Rightarrow> string \<Rightarrow> redeem_status \<times> string \<times> string \<Rightarrow>
    event list \<Rightarrow> bool" where
  "redeem_events jn req ecid oc = (\<lambda>(st, cid, code) es.
     (st = REDEEM_PROTOCOL \<and> cid = oc \<and> es = []) \<or>
     (\<exists>body ts. j_dumps jn (request_json req) = Some body \<and> es = ts @ [Wipe body] \<and> S body ts \<and>
        (st = REDEEM_OK \<longrightarrow> cid = cstr ecid \<and> (\<exists>r. D body r ts \<and> redeemed_reply (j_loadb jn r) ecid)) \<and>
        (st = REDEEM_REFUSED \<longrightarrow> (\<exists>r. D body r ts \<and> refused_reply (j_loadb jn r) code)) \<and>
        (st \<noteq> REDEEM_OK \<longrightarrow> cid = oc)))"

definition redeem_unfinished :: "jansson \<Rightarrow> redeem_req \<Rightarrow> event list \<Rightarrow> bool" where
  "redeem_unfinished jn req es \<longleftrightarrow> (\<exists>body. j_dumps jn (request_json req) = Some body \<and> S body es)"

lemma redeem_trace:
  "tr (pkgx_redeem jn req ecid tx oc) (redeem_events jn req ecid oc) (redeem_unfinished jn req)"
proof -
  have after: "tr (redeem_after jn ecid oc body x) (\<lambda>y fs. redeem_events jn req ecid oc y (ts @ fs))
      (\<lambda>fs. redeem_unfinished jn req (ts @ fs))"
    if body: "j_dumps jn (request_json req) = Some body"
      and "S body ts" "fst x = 0 \<longrightarrow> (\<exists>r. snd x = Some r \<and> D body r ts)" for body x ts
  proof -
    have "redeem_events jn req ecid oc (check_reply (j_loadb jn) ecid oc r) (ts @ [Wipe body])" 
      if "fst x = 0" "snd x = Some r" for r
    proof -
      obtain st cid code where c: "check_reply (j_loadb jn) ecid oc r = (st, cid, code)"
        by (cases "check_reply (j_loadb jn) ecid oc r")
      from c that \<open>S body ts\<close> \<open>fst x = 0 \<longrightarrow> _\<close> body show ?thesis
        using check_reply_ok [of "j_loadb jn" ecid oc r cid code] check_reply_out [OF c]
          check_reply_refused [of "j_loadb jn" ecid oc r cid code]
        by (auto simp: redeem_events_def)
    qed
    then show ?thesis
      unfolding redeem_after_def
      by (intro tr_rules) (use that in \<open>auto simp: redeem_events_def\<close>)
  qed
  have sent: "tr (ibind (tx body) (redeem_after jn ecid oc body)) (redeem_events jn req ecid oc)
      (redeem_unfinished jn req)" if "j_dumps jn (request_json req) = Some body" for body
  proof (rule tr_bind_seq)
    show "tr (tx body) (\<lambda>x es. S body es \<and> (fst x = 0 \<longrightarrow> (\<exists>r. snd x = Some r \<and> D body r es)))
        (redeem_unfinished jn req)"
      by (rule tr_mono [OF tx_trace]) (use that in \<open>auto simp: redeem_unfinished_def\<close>)
  qed (use after that in blast)
  show ?thesis
    unfolding pkgx_redeem_def
    by (rule tr_bind, rule tr_pcorrect [OF pc_build_request], use sent in \<open>auto intro!: tr_return simp: redeem_events_def\<close>)
qed

end


section \<open>Properties\<close>

text \<open>C17. A redemption succeeds only on the exact reply: the transport was called once, with the JSON
request carrying this receipt, uid, verb, resource, schema and plan hash, it answered with an object of
exactly ok, correlation_id and persisted, both flags true and the id equal to the request's own 37
characters, and the request body was wiped right after the call.\<close>

theorem redeem_ok_exact:
  assumes "pkgx_redeem jn req ecid tx oc w = (Some (REDEEM_OK, cid, code), w')"
  shows "cid = cstr ecid \<and> length cid = 37 \<and> code = ''ok'' \<and>
    (\<exists>body w1 resp w2. j_dumps jn (request_json req) = Some body \<and> log w1 = log w \<and>
       tx body w1 = (Some (0, Some resp), w2) \<and> redeemed_reply (j_loadb jn resp) ecid \<and>
       log w' = log w2 @ [Wipe body])"
  using assms
proof (cases rule: redeem_cases)
  case (sent body k trc resp w2)
  then obtain r where "trc = 0" "resp = Some r" "check_reply (j_loadb jn) ecid oc r = (REDEEM_OK, cid, code)"
    by (cases resp) (auto split: if_splits)
  moreover from this have "redeemed_reply (j_loadb jn r) ecid \<and> cid = cstr ecid \<and> code = ''ok''"
    by (simp add: check_reply_ok)
  moreover from this have "length (cstr ecid) = 37" by (auto simp: redeemed_reply_def strlen_def)
  moreover have "log w' = log w2 @ [Wipe body]" "log (w\<lparr>acnt := k\<rparr>) = log w" using sent by simp_all
  ultimately show ?thesis using sent(2,3) by blast
qed simp

text \<open>A printer and a parser for the concrete runs: the request prints as a fixed string, and every body
parses as the reply of a broker that redeemed the id.\<close>

definition ex_req :: redeem_req where
  "ex_req = \<lparr>rr_effect_receipt = ''0123456789abcdef0123456789abcdef'', rr_principal_uid = 1000,
     rr_operation = ''apt.hold'', rr_resource = ''vim'', rr_plan_schema = 1, rr_plan_hash = ''00''\<rparr>"

definition ex_jn :: "json \<Rightarrow> jansson" where
  "ex_jn reply = \<lparr>j_loadb = (\<lambda>_. Some reply), j_dumps = (\<lambda>_. Some ''body''), j_utf8 = (\<lambda>_. True)\<rparr>"

definition ex_tx :: transport where
  "ex_tx body = ibind (emit (CloseFd 3)) (\<lambda>_. ireturn (0, Some ''reply''))"

definition a_cid :: string where "a_cid = ''00000000000000000042-0123456789abcdef''"

definition ok_json :: json where
  "ok_json = JObject [(''ok'', JTrue), (''correlation_id'', JString a_cid), (''persisted'', JTrue)]"

definition refused_json :: json where
  "refused_json = JObject [(''ok'', JFalse), (''error'', JString ''receipt_expired''), (''message'', JString [])]"

lemma a_cid_plain [simp]: "cstr a_cid = a_cid" "strlen a_cid = 37"
  by (simp_all add: a_cid_def)

lemmas redeem_run = io_run pkgx_redeem_def redeem_after_def build_request_def set_new_def json_string_def
  json_integer_def json_dumps_def abind_def aret_def aguard_def ex_jn_def ex_tx_def

lemma ex_redeem:
  "pkgx_redeem (ex_jn ok_json) ex_req a_cid ex_tx [] (script []) =
     (Some (REDEEM_OK, a_cid, ''ok''), \<lparr>answers = [], log = [CloseFd 3, Wipe ''body''], aorc = (\<lambda>_. True), acnt = 18\<rparr>)"
  "pkgx_redeem (ex_jn refused_json) ex_req a_cid ex_tx [] (script []) =
     (Some (REDEEM_REFUSED, [], ''receipt_expired''), \<lparr>answers = [], log = [CloseFd 3, Wipe ''body''], aorc = (\<lambda>_. True), acnt = 18\<rparr>)"
  by (simp_all add: redeem_run ok_json_def refused_json_def check_reply_def json_is_boolean_def json_is_true_def
    json_string_value_def known_error_def REDEEM_ERRORS_def)

theorem redeem_ok_exact_witness: "redeemed_reply (Some ok_json) a_cid"
  using redeem_ok_exact [OF ex_redeem(1)] by (auto simp: ex_jn_def)

text \<open>Every outcome of a redemption is one of the documented four, and only a success touches the
caller's correlation id: a refusal carries one of the eight broker codes, taken from a reply of exactly
ok, error and message; everything else is a mismatch, a protocol or a transport failure.\<close>

theorem redeem_outcomes_closed:
  assumes "pkgx_redeem jn req ecid tx oc w = (Some (st, cid, code), w')"
  shows "case st of
      REDEEM_OK \<Rightarrow> cid = cstr ecid \<and> code = ''ok''
    | REDEEM_REFUSED \<Rightarrow> cid = oc \<and> code \<in> set REDEEM_ERRORS
    | REDEEM_CID_MISMATCH \<Rightarrow> cid = oc \<and> code = ''cid_mismatch''
    | REDEEM_PROTOCOL \<Rightarrow> cid = oc \<and> code \<in> {''protocol'', ''transport''}"
  using redeem_code [OF assms] by (cases st) simp_all

theorem redeem_outcomes_closed_witness: "''receipt_expired'' \<in> set REDEEM_ERRORS"
  using redeem_outcomes_closed [OF ex_redeem(2)] by simp

text \<open>The token never survives the exchange: whatever the outcome, the transport is called at most
once, and when it was called the last action of the client is to wipe the request body it was given.\<close>

theorem redeem_wipes_request:
  assumes "pkgx_redeem jn req ecid tx oc w = (Some res, w')"
  shows "log w' = log w \<or>
    (\<exists>body w1 r w2. j_dumps jn (request_json req) = Some body \<and> log w1 = log w \<and>
       tx body w1 = (Some r, w2) \<and> log w' = log w2 @ [Wipe body])"
proof -
  obtain st cid code where "res = (st, cid, code)" by (cases res)
  with assms have "pkgx_redeem jn req ecid tx oc w = (Some (st, cid, code), w')" by simp
  then show ?thesis
  proof (cases rule: redeem_cases)
    case (sent body k trc resp w2)
    then show ?thesis by (intro disjI2 exI [of _ body] exI [of _ "w\<lparr>acnt := k\<rparr>"]) auto
  qed simp
qed

theorem redeem_wipes_request_witness:
  "\<exists>w1 r w2. ex_tx ''body'' w1 = (Some r, w2) \<and> log w2 = [CloseFd 3]"
proof -
  have "log (script []) \<noteq> [CloseFd 3, Wipe ''body'']" by (simp add: script_def)
  with redeem_wipes_request [OF ex_redeem(2)] obtain body w1 r w2 where
    "j_dumps (ex_jn refused_json) (request_json ex_req) = Some body" "ex_tx body w1 = (Some r, w2)"
    "[CloseFd 3, Wipe ''body''] = log w2 @ [Wipe body]" by auto
  then have "ex_tx ''body'' w1 = (Some r, w2)" "log w2 = [CloseFd 3]"
    by (simp_all add: ex_jn_def Cons_eq_append_conv)
  then show ?thesis by blast
qed

end
