(* ===== verification/Plan.thy ===== *)
theory Plan
  imports Redeem Policy
begin

text \<open>
  The plan step of \<open>src/plan.c\<close>: policy, resource, digest, redemption, in this order, for the
  four kinds of plan; and the commit gate of \<open>src/effect.c\<close>. The result of a plan step is the
  verdict, the contents of \<open>out_cid\<close> and \<open>*detail\<close>.
\<close>

datatype plan_result = PLAN_OK | PLAN_NO_OP | PLAN_NOT_OWNED | PLAN_HELD | PLAN_PROTECTED
  | PLAN_NO_INTENT | PLAN_INTERNAL

type_synonym plan_outcome = "plan_result \<times> string \<times> string option"

text \<open>What every plan step is given besides its records.\<close>

record plan_env =
  pe_evp :: "string \<Rightarrow> 8 word list option"
  pe_jansson :: jansson
  pe_receipt :: string
  pe_uid :: int
  pe_schema :: int
  pe_expected_cid :: string
  pe_tx :: transport

definition redeem_tail ::
  "plan_env \<Rightarrow> string \<Rightarrow> string \<Rightarrow> string \<Rightarrow> string \<Rightarrow> plan_outcome io" where
  "redeem_tail env verb resource hash out_cid =
     ibind (pkgx_redeem (pe_jansson env)
         \<lparr>rr_effect_receipt = pe_receipt env, rr_principal_uid = pe_uid env, rr_operation = verb,
          rr_resource = resource, rr_plan_schema = pe_schema env, rr_plan_hash = hash\<rparr>
         (pe_expected_cid env) (pe_tx env) out_cid) (\<lambda>(rs, out_cid, code).
       if rs = REDEEM_OK then ireturn (PLAN_OK, out_cid, Some ''ok'')
       else if rs = REDEEM_REFUSED
       then ireturn (PLAN_NO_INTENT, pkgx_cid_echo (Some (pe_expected_cid env)), Some code)
       else ireturn (PLAN_NO_INTENT, [], Some code))"

definition pkgx_plan_and_redeem ::
  "plan_env \<Rightarrow> string \<Rightarrow> txn_record list \<Rightarrow> string option list \<Rightarrow> string \<Rightarrow> plan_outcome io" where
  "pkgx_plan_and_redeem env verb recs targets out_cid =
     (if recs = [] then ireturn (PLAN_NO_OP, out_cid, Some ''no_op'')
      else case pkgx_policy_check recs of
          (POLICY_NOT_OWNED, offender) \<Rightarrow> ireturn (PLAN_NOT_OWNED, out_cid, offender)
        | (POLICY_HELD, offender) \<Rightarrow> ireturn (PLAN_HELD, out_cid, offender)
        | (POLICY_PROTECTED, offender) \<Rightarrow> ireturn (PLAN_PROTECTED, out_cid, offender)
        | (POLICY_OK, offender) \<Rightarrow>
            ibind (allocating (pkgx_resource targets)) (\<lambda>res. case res of
                None \<Rightarrow> ireturn (PLAN_INTERNAL, out_cid, Some [])
              | Some resource \<Rightarrow>
                  ibind (allocating (pkgx_digest_pkg_txn (pe_evp env) (Some verb) recs)) (\<lambda>dig. case dig of
                      None \<Rightarrow> ireturn (PLAN_INTERNAL, out_cid, Some [])
                    | Some (hash, canon) \<Rightarrow> redeem_tail env verb resource hash out_cid)))"

definition pkgx_plan_and_redeem_update ::
  "plan_env \<Rightarrow> src_record list \<Rightarrow> string option \<Rightarrow> string \<Rightarrow> plan_outcome io" where
  "pkgx_plan_and_redeem_update env srcs resource_token out_cid =
     (if srcs = [] then ireturn (PLAN_NO_OP, out_cid, Some ''no_op'')
      else
        ibind (allocating (pkgx_digest_update (pe_evp env) srcs)) (\<lambda>dig. case dig of
            None \<Rightarrow> ireturn (PLAN_INTERNAL, out_cid, Some [])
          | Some (hash, canon) \<Rightarrow>
              redeem_tail env ''apt.update''
                (case resource_token of Some t \<Rightarrow> t | None \<Rightarrow> []) hash out_cid))"

text \<open>The ownership loop of the hold and configure steps over the record's package names.\<close>

fun first_owned :: "string option list \<Rightarrow> string option option" where
  "first_owned [] = None"
| "first_owned (p # ps) =
     (if pkgx_is_rapt_owned (case p of Some n \<Rightarrow> n | None \<Rightarrow> []) then Some p else first_owned ps)"

definition pkgx_plan_and_redeem_hold ::
  "plan_env \<Rightarrow> string \<Rightarrow> hold_record list \<Rightarrow> string option list \<Rightarrow> string \<Rightarrow> plan_outcome io" where
  "pkgx_plan_and_redeem_hold env verb holds targets out_cid =
     (if holds = [] then ireturn (PLAN_NO_OP, out_cid, Some ''no_op'')
      else case first_owned (map h_package holds) of
          Some p \<Rightarrow> ireturn (PLAN_NOT_OWNED, out_cid, p)
        | None \<Rightarrow>
            ibind (allocating (pkgx_resource targets)) (\<lambda>res. case res of
                None \<Rightarrow> ireturn (PLAN_INTERNAL, out_cid, Some [])
              | Some resource \<Rightarrow>
                  ibind (allocating (pkgx_digest_hold (pe_evp env) (Some verb) holds)) (\<lambda>dig. case dig of
                      None \<Rightarrow> ireturn (PLAN_INTERNAL, out_cid, Some [])
                    | Some (hash, canon) \<Rightarrow> redeem_tail env verb resource hash out_cid)))"

definition pkgx_plan_and_redeem_configure ::
  "plan_env \<Rightarrow> cfg_record list \<Rightarrow> string \<Rightarrow> plan_outcome io" where
  "pkgx_plan_and_redeem_configure env cfgs out_cid =
     (if cfgs = [] then ireturn (PLAN_NO_OP, out_cid, Some ''no_op'')
      else case first_owned (map c_package cfgs) of
          Some p \<Rightarrow> ireturn (PLAN_NOT_OWNED, out_cid, p)
        | None \<Rightarrow>
            ibind (allocating (pkgx_digest_configure (pe_evp env) cfgs)) (\<lambda>dig. case dig of
                None \<Rightarrow> ireturn (PLAN_INTERNAL, out_cid, Some [])
              | Some (hash, canon) \<Rightarrow> redeem_tail env ''apt.configure'' ''pending'' hash out_cid))"

end
