(* ===== verification/Gate.thy ===== *)
theory Gate
  imports Plan Request
begin

text \<open>
  The commit gate of \<open>src/effect.c\<close>. The committer is an argument: it is handed its context and
  the validated correlation id, and returns 0 for success together with what it leaves in the
  context.
\<close>

datatype effect_status = EFFECT_OK | EFFECT_NO_OP | EFFECT_REFUSED | EFFECT_COMMIT_FAILED

type_synonym 'c committer = "'c \<Rightarrow> string \<Rightarrow> (int \<times> 'c) io"

definition pkgx_effect_gate ::
  "plan_result \<Rightarrow> string option \<Rightarrow> 'c committer option \<Rightarrow> 'c \<Rightarrow> (effect_status \<times> 'c) io" where
  "pkgx_effect_gate pr validated_cid commit ctx =
     (case pr of
        PLAN_OK \<Rightarrow>
          (case commit of
             None \<Rightarrow> ireturn (EFFECT_COMMIT_FAILED, ctx)
           | Some commit \<Rightarrow>
               if \<not> pkgx_cid_valid validated_cid then ireturn (EFFECT_COMMIT_FAILED, ctx)
               else ibind (commit ctx (nz validated_cid)) (\<lambda>(rc, ctx).
                 if rc \<noteq> 0 then ireturn (EFFECT_COMMIT_FAILED, ctx) else ireturn (EFFECT_OK, ctx)))
      | PLAN_NO_OP \<Rightarrow> ireturn (EFFECT_NO_OP, ctx)
      | _ \<Rightarrow> ireturn (EFFECT_REFUSED, ctx))"

end
