(* ===== verification/Plan_Proofs.thy ===== *)
theory Plan_Proofs
  imports Plan Redeem_Proofs Digest_Props
begin

text \<open>
  The plan step over all four kinds of plan: policy is decided before anything is redeemed, the
  receipt is spent only on the digest of the very plan that was checked, and the correlation id
  handed on says how much is known.
\<close>

section \<open>The four steps as one\<close>

text \<open>\<open>targets\<close> matters for transactions and holds, \<open>token\<close> for updates.\<close>

fun plan_step :: "plan_env \<Rightarrow> plan \<Rightarrow> string option list \<Rightarrow> string option \<Rightarrow> string \<Rightarrow> plan_outcome io" where
  "plan_step env (Txn v rs) targets token oc = pkgx_plan_and_redeem env (nz v) rs targets oc"
| "plan_step env (Upd rs) targets token oc = pkgx_plan_and_redeem_update env rs token oc"
| "plan_step env (Hold v rs) targets token oc = pkgx_plan_and_redeem_hold env (nz v) rs targets oc"
| "plan_step env (Cfg rs) targets token oc = pkgx_plan_and_redeem_configure env rs oc"

fun plan_size :: "plan \<Rightarrow> nat" where
  "plan_size (Txn v rs) = length rs"
| "plan_size (Upd rs) = length rs"
| "plan_size (Hold v rs) = length rs"
| "plan_size (Cfg rs) = length rs"

definition owned_name :: "string option \<Rightarrow> bool" where
  "owned_name p \<longleftrightarrow> (\<exists>n. p = Some n \<and> rapt_pattern (cstr n))"

text \<open>A plan that policy refuses: any fault for a transaction, ownership for hold and configure.\<close>

fun policy_fault :: "plan \<Rightarrow> bool" where
  "policy_fault (Txn v rs) \<longleftrightarrow> list_ex (\<lambda>r. rapt_fault r \<or> hold_fault r \<or> protection_fault r) rs"
| "policy_fault (Upd rs) \<longleftrightarrow> False"
| "policy_fault (Hold v rs) \<longleftrightarrow> list_ex (\<lambda>r. owned_name (h_package r)) rs"
| "policy_fault (Cfg rs) \<longleftrightarrow> list_ex (\<lambda>r. owned_name (c_package r)) rs"

fun plan_resource :: "plan \<Rightarrow> string option list \<Rightarrow> string option \<Rightarrow> string" where
  "plan_resource (Txn v rs) targets token = csv (map nz targets)"
| "plan_resource (Upd rs) targets token = (case token of Some t \<Rightarrow> t | None \<Rightarrow> [])"
| "plan_resource (Hold v rs) targets token = csv (map nz targets)"
| "plan_resource (Cfg rs) targets token = ''pending''"

text \<open>The request that binds a plan.\<close>

definition binding_req :: "plan_env \<Rightarrow> plan \<Rightarrow> string option list \<Rightarrow> string option \<Rightarrow> string \<Rightarrow> redeem_req" where
  "binding_req env p targets token hash =
     \<lparr>rr_effect_receipt = pe_receipt env, rr_principal_uid = pe_uid env, rr_operation = plan_verb p,
      rr_resource = plan_resource p targets token, rr_plan_schema = pe_schema env, rr_plan_hash = hash\<rparr>"

lemma not_owned_empty: "\<not> pkgx_is_rapt_owned []"
  by (simp add: pkgx_is_rapt_owned_def)

lemma owned_case: "pkgx_is_rapt_owned (case p of Some n \<Rightarrow> n | None \<Rightarrow> []) \<longleftrightarrow> owned_name p"
  using not_owned_empty by (cases p) (simp_all add: owned_name_def rapt_owned_iff)

lemma first_owned_None: "first_owned ps = None \<longleftrightarrow> (\<forall>p\<in>set ps. \<not> owned_name p)"
  by (induction ps) (simp_all add: owned_case)

lemma policy_check_OK: "fst (pkgx_policy_check rs) = POLICY_OK \<longleftrightarrow>
   \<not> list_ex (\<lambda>r. rapt_fault r \<or> hold_fault r \<or> protection_fault r) rs"
  by (auto simp: pkgx_policy_check_def list_ex_iff record_faults first_package_Some split: option.split)

text \<open>Refused by policy, or nothing to do: the world is untouched.\<close>

lemma plan_refused:
  assumes "policy_fault p \<or> plan_size p = 0"
  shows "\<exists>r det. plan_step env p targets token oc w = (Some (r, oc, det), w) \<and>
    r \<in> {PLAN_NO_OP, PLAN_NOT_OWNED, PLAN_HELD, PLAN_PROTECTED} \<and> (r = PLAN_NO_OP) = (plan_size p = 0)"
proof (cases p)
  case (Txn v rs)
  obtain pr off where c: "pkgx_policy_check rs = (pr, off)" by (cases "pkgx_policy_check rs")
  then have "pr = POLICY_OK \<longleftrightarrow> \<not> policy_fault p" using policy_check_OK [of rs] Txn by simp
  with assms Txn c show ?thesis
    by (cases pr) (auto simp: pkgx_plan_and_redeem_def ireturn_def)
next
  case (Hold v rs)
  then have "policy_fault p \<longleftrightarrow> first_owned (map h_package rs) \<noteq> None" by (auto simp: list_ex_iff first_owned_None)
  with assms Hold show ?thesis
    by (auto simp: pkgx_plan_and_redeem_hold_def ireturn_def)
next
  case (Cfg rs)
  then have "policy_fault p \<longleftrightarrow> first_owned (map c_package rs) \<noteq> None" by (auto simp: list_ex_iff first_owned_None)
  with assms Cfg show ?thesis
    by (auto simp: pkgx_plan_and_redeem_configure_def ireturn_def)
next
  case (Upd rs)
  with assms show ?thesis by (auto simp: pkgx_plan_and_redeem_update_def ireturn_def)
qed


section \<open>Plans that reach the broker\<close>

text \<open>An accepted plan step, up to the redemption.\<close>

definition plan_admitted :: "plan_env \<Rightarrow> plan \<Rightarrow> string \<Rightarrow> bool" where
  "plan_admitted env p hash \<longleftrightarrow> \<not> policy_fault p \<and> plan_size p \<noteq> 0 \<and> plan_ok p \<and>
     length (plan_canon p) \<le> max_canon \<and> hashed (pe_evp env) (hash, plan_canon p)"

lemma pc_resource: "pcorrect (pkgx_resource ts) (\<lambda>s. s = csv (map nz ts))"
  unfolding pkgx_resource_def by (intro alloc_rules) auto

lemma allocating_step:
  assumes "pcorrect m R" "\<And>k. Q (Some a, w\<lparr>acnt := k\<rparr>)" "\<And>v k. R v \<Longrightarrow> Q (f v (w\<lparr>acnt := k\<rparr>))"
  shows "Q (ibind (allocating m) (\<lambda>x. case x of None \<Rightarrow> ireturn a | Some v \<Rightarrow> f v) w)"
proof (cases "m (aorc w) (acnt w)")
  case (Pair r k)
  with assms show ?thesis
    by (cases r) (auto simp: ibind_def allocating_def ireturn_def dest: pcD)
qed

text \<open>A plan step stops before the transport, or it is the redemption of the plan's own digest.\<close>

definition plan_stopped :: "plan_outcome option \<times> os \<Rightarrow> string \<Rightarrow> os \<Rightarrow> bool" where
  "plan_stopped res oc w \<longleftrightarrow>
     (\<exists>k r det. res = (Some (r, oc, det), w\<lparr>acnt := k\<rparr>) \<and> r \<notin> {PLAN_OK, PLAN_NO_INTENT})"

definition plan_redeems :: "plan_outcome option \<times> os \<Rightarrow> plan_env \<Rightarrow> plan \<Rightarrow> string option list \<Rightarrow> string option \<Rightarrow>
    string \<Rightarrow> os \<Rightarrow> bool" where
  "plan_redeems res env p targets token oc w \<longleftrightarrow> (\<exists>k hash. plan_admitted env p hash \<and>
     res = redeem_tail env (plan_verb p) (plan_resource p targets token) hash oc (w\<lparr>acnt := k\<rparr>))"

lemma plan_stopped_I: "r \<notin> {PLAN_OK, PLAN_NO_INTENT} \<Longrightarrow> plan_stopped (Some (r, oc, det), w\<lparr>acnt := k\<rparr>) oc w"
  unfolding plan_stopped_def by blast

lemma pc_plan_digest:
  "pcorrect (plan_digest evp p) (\<lambda>hc. plan_ok p \<and> length (plan_canon p) \<le> max_canon \<and>
     hashed evp (fst hc, plan_canon p))"
  by (rule pc_weaken [OF plan_digest_partial]) (auto simp: hashed_def)

text \<open>The code passes the verb as a C string.\<close>

fun with_verb :: "plan \<Rightarrow> plan" where
  "with_verb (Txn v rs) = Txn (Some (nz v)) rs"
| "with_verb (Hold v rs) = Hold (Some (nz v)) rs"
| "with_verb p = p"

lemma empty_not_verb: "[] \<notin> set TXN_VERBS" "[] \<notin> set HOLD_VERBS"
  by (simp_all add: TXN_VERBS_def HOLD_VERBS_def)

lemma with_verb_ok [simp]: "plan_ok (with_verb p) = plan_ok p" "plan_canon (with_verb p) = plan_canon p"
  by (cases p; use empty_not_verb in \<open>auto simp: plan_canon_def nz_def split: option.splits\<close>)+

definition digest_then_redeem :: "plan_env \<Rightarrow> plan \<Rightarrow> string \<Rightarrow> string \<Rightarrow> plan_outcome io" where
  "digest_then_redeem env p resource oc =
     ibind (allocating (plan_digest (pe_evp env) (with_verb p))) (\<lambda>d. case d of
         None \<Rightarrow> ireturn (PLAN_INTERNAL, oc, Some [])
       | Some x \<Rightarrow> (case x of (hash, canon) \<Rightarrow> redeem_tail env (plan_verb p) resource hash oc))"

text \<open>A plan that policy lets through.\<close>

lemma plan_step_admitted:
  assumes "\<not> policy_fault p" "plan_size p \<noteq> 0"
  shows "plan_step env p targets token oc =
     (case p of Txn v rs \<Rightarrow>
        ibind (allocating (pkgx_resource targets)) (\<lambda>res. case res of
            None \<Rightarrow> ireturn (PLAN_INTERNAL, oc, Some [])
          | Some resource \<Rightarrow> digest_then_redeem env p resource oc)
      | Hold v rs \<Rightarrow>
        ibind (allocating (pkgx_resource targets)) (\<lambda>res. case res of
            None \<Rightarrow> ireturn (PLAN_INTERNAL, oc, Some [])
          | Some resource \<Rightarrow> digest_then_redeem env p resource oc)
      | _ \<Rightarrow> digest_then_redeem env p (plan_resource p targets token) oc)"
proof (cases p)
  case (Txn v rs)
  with assms obtain off where "pkgx_policy_check rs = (POLICY_OK, off)"
    using policy_check_OK [of rs] by (cases "pkgx_policy_check rs") auto
  with Txn assms show ?thesis
    by (auto simp: pkgx_plan_and_redeem_def digest_then_redeem_def)
next
  case (Hold v rs)
  with assms have "first_owned (map h_package rs) = None" by (auto simp: list_ex_iff first_owned_None)
  with Hold assms show ?thesis
    by (auto simp: pkgx_plan_and_redeem_hold_def digest_then_redeem_def)
next
  case (Cfg rs)
  with assms have "first_owned (map c_package rs) = None" by (auto simp: list_ex_iff first_owned_None)
  with Cfg assms show ?thesis
    by (auto simp: pkgx_plan_and_redeem_configure_def digest_then_redeem_def cong: option.case_cong)
next
  case (Upd rs)
  with assms show ?thesis by (auto simp: pkgx_plan_and_redeem_update_def digest_then_redeem_def cong: option.case_cong)
qed

lemma plan_step_cases:
  "plan_stopped (plan_step env p targets token oc w) oc w \<or>
   plan_redeems (plan_step env p targets token oc w) env p targets token oc w"
  (is "?Q (plan_step env p targets token oc w)")
proof (cases "policy_fault p \<or> plan_size p = 0")
  case True
  from plan_refused [OF this] obtain r det where
    "plan_step env p targets token oc w = (Some (r, oc, det), w\<lparr>acnt := acnt w\<rparr>)"
    "r \<in> {PLAN_NO_OP, PLAN_NOT_OWNED, PLAN_HELD, PLAN_PROTECTED}" by (metis os.surjective os.update_convs(4))
  then show ?thesis unfolding plan_stopped_def by blast
next
  case False
  have stop: "?Q (Some (PLAN_INTERNAL, oc, Some []), w\<lparr>acnt := k\<rparr>)" for k
    by (simp add: plan_stopped_I)
  have digest: "?Q (digest_then_redeem env p (plan_resource p targets token) oc (w\<lparr>acnt := k\<rparr>))" for k
    unfolding digest_then_redeem_def
  proof (rule allocating_step [OF pc_plan_digest])
    fix x k' assume "plan_ok (with_verb p) \<and> length (plan_canon (with_verb p)) \<le> max_canon \<and>
      hashed (pe_evp env) (fst x, plan_canon (with_verb p))"
    then have "plan_admitted env p (fst x)" using False by (simp add: plan_admitted_def)
    then show "?Q ((case x of (hash, canon) \<Rightarrow>
        redeem_tail env (plan_verb p) (plan_resource p targets token) hash oc) (w\<lparr>acnt := k, acnt := k'\<rparr>))"
      by (cases x) (auto simp: plan_redeems_def)
  qed (use stop in simp)
  have start: "?Q (digest_then_redeem env p (plan_resource p targets token) oc w)"
    using digest [of "acnt w"] by simp
  have named: "?Q (ibind (allocating (pkgx_resource targets)) (\<lambda>res. case res of
            None \<Rightarrow> ireturn (PLAN_INTERNAL, oc, Some [])
          | Some resource \<Rightarrow> digest_then_redeem env p resource oc) w)"
    if "plan_resource p targets token = csv (map nz targets)"
    by (rule allocating_step [OF pc_resource]) (use digest that stop in simp_all)
  show ?thesis
    using False start named by (cases p) (simp_all add: plan_step_admitted del: plan_step.simps)
qed

section \<open>Plans that reach the broker do so\<close>

fun targets_ok :: "plan \<Rightarrow> string option list \<Rightarrow> bool" where
  "targets_ok (Txn v rs) ts \<longleftrightarrow> items_ok ts True None \<and> length (csv (map nz ts)) < max_canon"
| "targets_ok (Hold v rs) ts \<longleftrightarrow> items_ok ts True None \<and> length (csv (map nz ts)) < max_canon"
| "targets_ok _ ts \<longleftrightarrow> True"

lemma allocating_runs:
  assumes "tcorrect m (\<lambda>v. v = x)" "\<forall>i. aorc w i"
  shows "\<exists>k. allocating m w = (Some (Some x), w\<lparr>acnt := k\<rparr>)"
proof -
  obtain v k where "m (aorc w) (acnt w) = (Inr v, k)" "v = x" using assms by (rule tcE)
  then show ?thesis by (auto simp: allocating_def)
qed

lemma tc_resource:
  "items_ok ts True None \<Longrightarrow> length (csv (map nz ts)) < max_canon \<Longrightarrow>
   tcorrect (pkgx_resource ts) (\<lambda>x. x = csv (map nz ts))"
  unfolding pkgx_resource_def by (intro alloc_rules) auto

lemma digest_then_redeem_runs:
  assumes "plan_admitted env p hash" "\<forall>i. aorc w i"
  shows "\<exists>k. digest_then_redeem env p resource oc w =
    redeem_tail env (plan_verb p) resource hash oc (w\<lparr>acnt := k\<rparr>)"
proof -
  have "tcorrect (plan_digest (pe_evp env) (with_verb p)) (\<lambda>q. q = (hash, plan_canon p))"
    using plan_digest_total [of "with_verb p"] assms(1) by (simp add: plan_admitted_def)
  from allocating_runs [OF this assms(2)] show ?thesis
    by (auto simp: digest_then_redeem_def ibind_def)
qed

lemma plan_reaches:
  assumes adm: "plan_admitted env p hash" and mem: "\<forall>i. aorc w i" and ts: "targets_ok p targets"
  shows "\<exists>k. plan_step env p targets token oc w =
    redeem_tail env (plan_verb p) (plan_resource p targets token) hash oc (w\<lparr>acnt := k\<rparr>)"
proof -
  have named: ?thesis if "plan_resource p targets token = csv (map nz targets)"
    "items_ok targets True None" "length (csv (map nz targets)) < max_canon"
    "plan_step env p targets token oc = ibind (allocating (pkgx_resource targets)) (\<lambda>res. case res of
            None \<Rightarrow> ireturn (PLAN_INTERNAL, oc, Some [])
          | Some resource \<Rightarrow> digest_then_redeem env p resource oc)"
  proof -
    note items = that(2,3) and step = that(1,4)
    obtain k where "allocating (pkgx_resource targets) w = (Some (Some (csv (map nz targets))), w\<lparr>acnt := k\<rparr>)"
      using allocating_runs [OF tc_resource [OF items] mem] by blast
    with step digest_then_redeem_runs [OF adm, of "w\<lparr>acnt := k\<rparr>"] mem show ?thesis
      by (simp add: ibind_def)
  qed
  have "\<not> policy_fault p" "plan_size p \<noteq> 0" using adm by (simp_all add: plan_admitted_def)
  note step = plan_step_admitted [OF this, of env targets token oc]
  show ?thesis
    using step named ts digest_then_redeem_runs [OF adm mem] by (cases p) simp_all
qed

section \<open>The redemption of a plan\<close>

lemma redeem_tail_cases:
  assumes "redeem_tail env verb resource hash oc w = (Some (r, cid, det), w')"
  obtains st cid' code where
    "pkgx_redeem (pe_jansson env) \<lparr>rr_effect_receipt = pe_receipt env, rr_principal_uid = pe_uid env,
       rr_operation = verb, rr_resource = resource, rr_plan_schema = pe_schema env, rr_plan_hash = hash\<rparr>
       (pe_expected_cid env) (pe_tx env) oc w = (Some (st, cid', code), w')"
    "(r, cid, det) = (if st = REDEEM_OK then (PLAN_OK, cid', Some ''ok'')
       else if st = REDEEM_REFUSED then (PLAN_NO_INTENT, pkgx_cid_echo (Some (pe_expected_cid env)), Some code)
       else (PLAN_NO_INTENT, [], Some code))"
  using assms unfolding redeem_tail_def
  by (auto simp: ibind_def ireturn_def split: prod.splits option.splits if_splits)


lemma plan_live_with:
  assumes "\<forall>i. aorc w i" and "plan_admitted env p hash" and "targets_ok p targets"
    and "encodable (pe_jansson env) (binding_req env p targets token hash)"
    and "j_dumps (pe_jansson env) (request_json (binding_req env p targets token hash)) = Some body"
    and tx: "\<And>v. log v = log w \<Longrightarrow> answers v = answers w \<Longrightarrow> aorc v = aorc w \<Longrightarrow>
      \<exists>v'. pe_tx env body v = (Some (0, Some resp), v') \<and> R (answers v') (aorc v')"
    and "redeemed_reply (j_loadb (pe_jansson env) resp) (pe_expected_cid env)"
  shows "\<exists>w'. plan_step env p targets token oc w =
    (Some (PLAN_OK, cstr (pe_expected_cid env), Some ''ok''), w') \<and> R (answers w') (aorc w')"
proof -
  from plan_reaches [OF assms(2,1,3)] obtain k where step: "plan_step env p targets token oc w =
      redeem_tail env (plan_verb p) (plan_resource p targets token) hash oc (w\<lparr>acnt := k\<rparr>)" by blast
  have "tcorrect (build_request (pe_jansson env) (binding_req env p targets token hash)) (\<lambda>b. b = body)"
    by (rule tc_build_request) (use assms in auto)
  from allocating_runs [OF this, of "w\<lparr>acnt := k\<rparr>"] assms(1) obtain k' where
    "allocating (build_request (pe_jansson env) (binding_req env p targets token hash)) (w\<lparr>acnt := k\<rparr>) =
      (Some (Some body), w\<lparr>acnt := k'\<rparr>)" by auto
  moreover obtain v' where "pe_tx env body (w\<lparr>acnt := k'\<rparr>) = (Some (0, Some resp), v')" "R (answers v') (aorc v')"
    using tx [of "w\<lparr>acnt := k'\<rparr>"] by auto
  moreover have "check_reply (j_loadb (pe_jansson env)) (pe_expected_cid env) oc resp =
      (REDEEM_OK, cstr (pe_expected_cid env), ''ok'')" using assms(7) by (simp add: check_reply_ok)
  ultimately show ?thesis
    by (simp add: step redeem_tail_def pkgx_redeem_def redeem_after_def binding_req_def ibind_def emit_def ireturn_def)
qed

lemma plan_live:
  assumes "\<forall>i. aorc w i" and "plan_admitted env p hash" and "targets_ok p targets"
    and "encodable (pe_jansson env) (binding_req env p targets token hash)"
    and "j_dumps (pe_jansson env) (request_json (binding_req env p targets token hash)) = Some body"
    and "\<And>v. log v = log w \<Longrightarrow> answers v = answers w \<Longrightarrow> \<exists>v'. pe_tx env body v = (Some (0, Some resp), v')"
    and "redeemed_reply (j_loadb (pe_jansson env) resp) (pe_expected_cid env)"
  shows "\<exists>w'. plan_step env p targets token oc w = (Some (PLAN_OK, cstr (pe_expected_cid env), Some ''ok''), w')"
  using plan_live_with [OF assms(1-5), of resp "\<lambda>_ _. True"] assms(6,7) by simp

section \<open>Properties\<close>

text \<open>C11. A plan with nothing to do, or that policy refuses (a rapt-owned, held or protected package),
never spends the receipt: the step ends with the verdict and nothing has happened to the world, so
the transport was never called; the answer is no-op exactly for the empty plan.\<close>

theorem plan_refusal_spends_nothing:
  assumes "policy_fault p \<or> plan_size p = 0"
  shows "\<exists>r det. plan_step env p targets token oc w = (Some (r, oc, det), w) \<and>
    r \<in> {PLAN_NO_OP, PLAN_NOT_OWNED, PLAN_HELD, PLAN_PROTECTED} \<and> (r = PLAN_NO_OP \<longleftrightarrow> plan_size p = 0)"
  by (rule plan_refused [OF assms])

text \<open>C8. A receipt is only ever spent on the plan that was checked: when a step says OK, the plan had a
record and no policy fault, the request sent to the broker named its verb, its resource and the
SHA-256 of its canonical encoding, the broker's answer was the exact success reply for this
correlation id, and the request was wiped.\<close>

theorem plan_ok_binds_receipt:
  assumes "plan_step env p targets token oc w = (Some (PLAN_OK, cid, det), w')"
  shows "\<exists>hash body resp w1 w2. plan_admitted env p hash \<and>
    j_dumps (pe_jansson env) (request_json (binding_req env p targets token hash)) = Some body \<and>
    log w1 = log w \<and> pe_tx env body w1 = (Some (0, Some resp), w2) \<and>
    redeemed_reply (j_loadb (pe_jansson env) resp) (pe_expected_cid env) \<and>
    cid = cstr (pe_expected_cid env) \<and> log w' = log w2 @ [Wipe body]"
proof -
  have "\<not> plan_stopped (Some (PLAN_OK, cid, det), w') oc w" by (auto simp: plan_stopped_def)
  with plan_step_cases [of env p targets token oc w] assms obtain k hash where adm: "plan_admitted env p hash"
    and "redeem_tail env (plan_verb p) (plan_resource p targets token) hash oc (w\<lparr>acnt := k\<rparr>) =
      (Some (PLAN_OK, cid, det), w')" by (auto simp: plan_redeems_def)
  from this(2) obtain code where r: "pkgx_redeem (pe_jansson env) (binding_req env p targets token hash)
      (pe_expected_cid env) (pe_tx env) oc (w\<lparr>acnt := k\<rparr>) = (Some (REDEEM_OK, cid, code), w')"
    by (rule redeem_tail_cases) (auto simp: binding_req_def split: if_splits)
  from r show ?thesis
  proof (cases rule: redeem_cases)
    case (sent body k' trc resp w2)
    then obtain rp where rp: "trc = 0" "resp = Some rp"
      "check_reply (j_loadb (pe_jansson env)) (pe_expected_cid env) oc rp = (REDEEM_OK, cid, code)"
      by (cases resp) (auto split: if_splits)
    with sent adm show ?thesis unfolding check_reply_ok
      by (intro exI [of _ hash] exI [of _ body] exI [of _ rp] exI [of _ "w\<lparr>acnt := k'\<rparr>"] exI [of _ w2]) simp
  qed simp
qed

text \<open>C25. The correlation id a step hands on says how much is known: the id itself after a success, the
request's id again when the broker definitely refused, nothing when the outcome is unknown, and what
was there before when the broker was not asked, in which case nothing was logged either.\<close>

theorem plan_cid_discipline:
  assumes "plan_step env p targets token oc w = (Some (r, cid, det), w')"
  shows "case r of
      PLAN_OK \<Rightarrow> cid = cstr (pe_expected_cid env) \<and> length cid = 37 \<and> det = Some ''ok''
    | PLAN_NO_INTENT \<Rightarrow> (\<exists>code. det = Some code \<and>
        (code \<in> set REDEEM_ERRORS \<and> cid = pkgx_cid_echo (Some (pe_expected_cid env)) \<or>
         code \<in> {''cid_mismatch'', ''protocol'', ''transport''} \<and> cid = []))
    | _ \<Rightarrow> cid = oc \<and> log w' = log w"
  using plan_step_cases [of env p targets token oc w]
proof
  assume "plan_stopped (plan_step env p targets token oc w) oc w"
  with assms show ?thesis by (cases r) (auto simp: plan_stopped_def)
next
  assume "plan_redeems (plan_step env p targets token oc w) env p targets token oc w"
  with assms obtain k hash where
    "redeem_tail env (plan_verb p) (plan_resource p targets token) hash oc (w\<lparr>acnt := k\<rparr>) =
      (Some (r, cid, det), w')" by (auto simp: plan_redeems_def)
  then show ?thesis
  proof (cases rule: redeem_tail_cases)
    case (1 st cid' code)
    then show ?thesis using redeem_code [OF 1(1)]
      by (cases st) auto
  qed
qed


section \<open>Concrete runs\<close>

definition ex_env :: "json \<Rightarrow> plan_env" where
  "ex_env reply = \<lparr>pe_evp = ex_evp, pe_jansson = ex_jn reply, pe_receipt = ''0123456789abcdef0123456789abcdef'',
     pe_uid = 1000, pe_schema = 1, pe_expected_cid = a_cid, pe_tx = ex_tx\<rparr>"

definition ex_owned :: plan where
  "ex_owned = Hold (Some ''apt.hold'') [hold_of ''r-cran-dplyr'']"

lemma owned_Some: "owned_name (Some n) \<longleftrightarrow> pkgx_is_rapt_owned n"
  by (simp add: owned_name_def rapt_owned_iff)

lemma ex_faults: "policy_fault ex_owned" "\<not> policy_fault (ex_hold [''vim''])"
proof -
  have "pkgx_is_rapt_owned ''r-cran-dplyr''" "\<not> pkgx_is_rapt_owned ''vim''" by code_simp+
  then show "policy_fault ex_owned" "\<not> policy_fault (ex_hold [''vim''])"
    by (simp_all add: ex_owned_def ex_hold_def hold_of_def owned_Some)
qed

lemma ex_admitted: "plan_admitted (ex_env reply) (ex_hold [''vim'']) (hex_of (replicate 32 27))"
proof -
  have "plan_size (ex_hold [''vim'']) \<noteq> 0" by (simp add: ex_hold_def)
  moreover have "length (plan_canon (ex_hold [''vim''])) = 27" by (simp add: ex_canon)
  ultimately show ?thesis
    by (simp add: plan_admitted_def ex_faults ex_plan_ok hashed_def ex_env_def ex_evp_def max_canon_def)
qed

lemma ex_ready:
  "targets_ok (ex_hold [''vim'']) [Some ''vim'']"
  "encodable (pe_jansson (ex_env reply)) r"
  "j_dumps (pe_jansson (ex_env reply)) j = Some ''body''"
  "\<exists>v'. pe_tx (ex_env reply) ''body'' v = (Some (0, Some ''reply''), v')"
  "redeemed_reply (j_loadb (pe_jansson (ex_env ok_json)) ''reply'') (pe_expected_cid (ex_env ok_json))"
  "\<forall>i. aorc (script []) i"
proof -
  have "field_ok (Some ''vim'')" by code_simp
  then show "targets_ok (ex_hold [''vim'']) [Some ''vim'']"
    by (simp add: ex_hold_def items_ok_def csv_def max_canon_def)
qed (auto simp: ex_env_def ex_jn_def encodable_def ex_tx_def io_run redeemed_reply_def ok_json_def)

lemma ex_cid: "pe_expected_cid (ex_env reply) = a_cid"
  by (simp add: ex_env_def)

lemma ex_plan_run: "\<exists>w'. plan_step (ex_env ok_json) (ex_hold [''vim'']) [Some ''vim''] None [] (script []) =
    (Some (PLAN_OK, a_cid, Some ''ok''), w')"
  using plan_live [OF ex_ready(6) ex_admitted ex_ready(1,2,3,4,5), where token = None and oc = "[]"]
  by (simp add: ex_cid)

section \<open>Witnesses\<close>

theorem plan_refusal_spends_nothing_witness:
  "\<exists>r det. plan_step (ex_env ok_json) ex_owned [Some ''r-cran-dplyr''] None a_cid (script []) =
     (Some (r, a_cid, det), script []) \<and> r \<in> {PLAN_NOT_OWNED, PLAN_HELD, PLAN_PROTECTED}"
proof -
  have "plan_size ex_owned \<noteq> 0" by (simp add: ex_owned_def)
  with plan_refusal_spends_nothing [of ex_owned "ex_env ok_json" "[Some ''r-cran-dplyr'']" None a_cid "script []"] ex_faults(1)
  show ?thesis by auto
qed

theorem plan_ok_binds_receipt_witness:
  "\<exists>hash. plan_admitted (ex_env ok_json) (ex_hold [''vim'']) hash"
proof -
  obtain w' where run: "plan_step (ex_env ok_json) (ex_hold [''vim'']) [Some ''vim''] None [] (script []) =
    (Some (PLAN_OK, a_cid, Some ''ok''), w')" using ex_plan_run by blast
  show ?thesis using plan_ok_binds_receipt [OF run] by blast
qed

theorem plan_cid_discipline_witness: "a_cid = cstr a_cid \<and> length a_cid = 37"
proof -
  obtain w' where run: "plan_step (ex_env ok_json) (ex_hold [''vim'']) [Some ''vim''] None [] (script []) =
    (Some (PLAN_OK, a_cid, Some ''ok''), w')" using ex_plan_run by blast
  show ?thesis using plan_cid_discipline [OF run] by (simp add: ex_cid)
qed


end
