(* ===== verification/Transport.thy ===== *)
theory Transport
  imports Redeem
begin

text \<open>
  The broker transport of \<open>src/transport.c\<close>: one absolute deadline, a non-blocking connect,
  the check of the peer's credentials before the first byte is sent, one frame out, one frame
  in. Times are pairs of seconds and nanoseconds; a frame is a string of bytes.
\<close>

unbundle bit_operations_syntax

section \<open>The deadline\<close>

definition deadline_at :: "int \<Rightarrow> (int \<times> int) option io" where
  "deadline_at ms =
     ibind clock_gettime (\<lambda>c. case c of
         None \<Rightarrow> ireturn None
       | Some (sec, nsec) \<Rightarrow>
           let sec = sec + ms sdiv 1000;
               ns = nsec + (ms smod 1000) * 1000000;
               sec = sec + ns sdiv 1000000000
           in ireturn (Some (sec, ns smod 1000000000)))"

definition time_left :: "int \<times> int \<Rightarrow> int \<times> int \<Rightarrow> int" where
  "time_left dl now = (fst dl - fst now) * 1000 + (snd dl - snd now) sdiv 1000000"

definition ms_left :: "int \<times> int \<Rightarrow> int io" where
  "ms_left dl =
     ibind clock_gettime (\<lambda>c. case c of
         None \<Rightarrow> ireturn 0
       | Some now \<Rightarrow> ireturn (time_left dl now))"

section \<open>Waiting, writing, reading\<close>

definition wait_round :: "int \<Rightarrow> poll_event \<Rightarrow> int \<times> int \<Rightarrow> unit \<Rightarrow> (unit + int) io" where
  "wait_round fd events dl u =
     ibind (ms_left dl) (\<lambda>left.
       if left \<le> 0 then leave (-2)
       else ibind (syscall (Poll fd events (if 60000 < left then 60000 else left))) (\<lambda>r.
         if r_ret r < 0 then (if r_errno r = EINTR then again () else leave (-1))
         else if r_ret r = 0 then again ()
         else leave 0))"

definition wait_fd :: "int \<Rightarrow> poll_event \<Rightarrow> int \<times> int \<Rightarrow> int io" where
  "wait_fd fd events dl = io_loop (wait_round fd events dl) ()"

definition write_round :: "int \<Rightarrow> string \<Rightarrow> int \<times> int \<Rightarrow> nat \<Rightarrow> (nat + int) io" where
  "write_round fd buf dl sent =
     (if \<not> sent < length buf then leave 0
      else ibind (ms_left dl) (\<lambda>left.
        if left \<le> 0 then leave (-2)
        else ibind (send_fd fd (drop sent buf)) (\<lambda>w. case w of
            Inl e \<Rightarrow>
              if e = EINTR then again sent
              else if e = EAGAIN then
                ibind (wait_fd fd POLLOUT dl) (\<lambda>wr. if wr \<noteq> 0 then leave wr else again sent)
              else leave (-1)
          | Inr w \<Rightarrow> if w = 0 then leave (-1) else again (sent + w))))"

definition write_full :: "int \<Rightarrow> string \<Rightarrow> int \<times> int \<Rightarrow> int io" where
  "write_full fd buf dl = io_loop (write_round fd buf dl) 0"

text \<open>The loop state of a read is what has been read so far.\<close>

definition read_round :: "int \<Rightarrow> nat \<Rightarrow> int \<times> int \<Rightarrow> string \<Rightarrow> (string + (int \<times> string)) io" where
  "read_round fd n dl buf =
     (if \<not> length buf < n then leave (0, buf)
      else ibind (ms_left dl) (\<lambda>left.
        if left \<le> 0 then leave (-2, buf)
        else ibind (read_fd fd (n - length buf)) (\<lambda>r. case r of
            Inl e \<Rightarrow>
              if e = EINTR then again buf
              else if e = EAGAIN then
                ibind (wait_fd fd POLLIN dl) (\<lambda>wr. if wr \<noteq> 0 then leave (wr, buf) else again buf)
              else leave (-1, buf)
          | Inr bytes \<Rightarrow> if bytes = [] then leave (1, buf) else again (buf @ bytes))))"

definition read_full :: "int \<Rightarrow> nat \<Rightarrow> int \<times> int \<Rightarrow> (int \<times> string) io" where
  "read_full fd n dl = io_loop (read_round fd n dl) []"

section \<open>Connecting\<close>

text \<open>\<open>close (fd); *err = e; return -1;\<close>\<close>

definition close_fail :: "int \<Rightarrow> string \<Rightarrow> (string + 'a) io" where
  "close_fail fd e = ibind (emit (CloseFd fd)) (\<lambda>_. ireturn (Inl e))"

definition connect_round :: "string \<Rightarrow> int \<times> int \<Rightarrow> unit \<Rightarrow> (unit + (string + int)) io" where
  "connect_round path dl u =
     ibind (syscall SocketUnix) (\<lambda>s. let fd = r_ret s in
       if fd < 0 then leave (Inl ''socket'')
       else ibind (syscall (ConnectUnix fd path)) (\<lambda>c.
         if r_ret c = 0 then leave (Inr fd)
         else if r_errno c = EINTR \<or> r_errno c = EINPROGRESS then
           ibind (wait_fd fd POLLOUT dl) (\<lambda>wr.
             if wr = 0 then
               ibind (syscall (GetSoError fd)) (\<lambda>g.
                 if r_ret g = 0 \<and> r_sec g = 0 then leave (Inr fd)
                 else ibind (close_fail fd ''connect'') leave)
             else ibind (close_fail fd (if wr = -2 then ''deadline'' else ''connect'')) leave)
         else if r_errno c = EAGAIN then
           ibind (emit (CloseFd fd)) (\<lambda>_. ibind (ms_left dl) (\<lambda>left.
             if left \<le> 0 then leave (Inl ''deadline'')
             else ibind (syscall (Nanosleep 0 (20 * 1000000))) (\<lambda>_. again ())))
         else ibind (close_fail fd ''connect'') leave))"

definition connect_deadline :: "string option \<Rightarrow> int \<times> int \<Rightarrow> (string + int) io" where
  "connect_deadline path dl =
     (case path of
        None \<Rightarrow> ireturn (Inl ''socket_path'')
      | Some path \<Rightarrow>
          if strlen path = 0 \<or> 108 \<le> strlen path then ireturn (Inl ''socket_path'')
          else io_loop (connect_round (cstr path) dl) ())"

section \<open>Frames\<close>

definition header_byte :: "nat \<Rightarrow> nat \<Rightarrow> char" where
  "header_byte n k = char_of (drop_bit k n AND 0xFF)"

definition frame_header :: "nat \<Rightarrow> string" where
  "frame_header n = [char_of (1 :: nat), header_byte n 24, header_byte n 16, header_byte n 8, header_byte n 0]"

text \<open>The length field of a reply header, a \<open>uint32_t\<close>.\<close>

definition byte32 :: "char \<Rightarrow> 32 word" where
  "byte32 c = of_nat (of_char c)"

definition reply_length :: "string \<Rightarrow> 32 word" where
  "reply_length rhdr =
     push_bit 24 (byte32 (rhdr ! 1)) OR push_bit 16 (byte32 (rhdr ! 2)) OR
     push_bit 8 (byte32 (rhdr ! 3)) OR byte32 (rhdr ! 4)"

section \<open>The exchange\<close>

record transport_cfg =
  socket_path :: "string option"
  required_peer_uid :: int
  timeout_ms :: int

definition read_error :: "int \<Rightarrow> string" where
  "read_error rr = (if rr = 1 then ''frame_eof'' else if rr = -2 then ''deadline'' else ''recv'')"

definition write_error :: "int \<Rightarrow> string" where
  "write_error wr = (if wr = -2 then ''deadline'' else ''send'')"

text \<open>The reply, from its body on and from its header on.\<close>

definition read_body :: "int \<Rightarrow> nat \<Rightarrow> int \<times> int \<Rightarrow> (string + string) io" where
  "read_body fd rlen dl =
     ibind (read_full fd rlen dl) (\<lambda>(rr, body).
       if rr \<noteq> 0 then close_fail fd (read_error rr)
       else ibind (emit (CloseFd fd)) (\<lambda>_. ireturn (Inr body)))"

definition read_reply :: "int \<Rightarrow> int \<times> int \<Rightarrow> (string + string) io" where
  "read_reply fd dl =
     ibind (read_full fd 5 dl) (\<lambda>(rr, rhdr).
       if rr \<noteq> 0 then close_fail fd (read_error rr)
       else if rhdr ! 0 \<noteq> char_of (1 :: nat) then close_fail fd ''frame_version''
       else let rlen = unat (reply_length rhdr) in
         if 65536 < rlen then close_fail fd ''frame_toolarge''
         else ibind (allocating aalloc) (\<lambda>m. case m of
             None \<Rightarrow> close_fail fd ''oom''
           | Some u \<Rightarrow> read_body fd rlen dl))"

definition send_request :: "int \<Rightarrow> string \<Rightarrow> int \<times> int \<Rightarrow> int io" where
  "send_request fd req dl =
     ibind (write_full fd (frame_header (length req)) dl) (\<lambda>wr.
       if wr = 0 then write_full fd req dl else ireturn wr)"

text \<open>From \<open>SO_PEERCRED\<close> on: \<open>r_sec\<close> is the uid in the answer, \<open>r_nsec\<close> its length.\<close>

definition exchange :: "int \<Rightarrow> int \<Rightarrow> string \<Rightarrow> int \<times> int \<Rightarrow> (string + string) io" where
  "exchange uid fd req dl =
     ibind (syscall (GetPeerCred fd)) (\<lambda>cr.
       if r_ret cr \<noteq> 0 \<or> r_nsec cr \<noteq> 12 then close_fail fd ''peer''
       else if r_sec cr \<noteq> uid then close_fail fd ''peer_uid''
       else ibind (send_request fd req dl) (\<lambda>wr.
         if wr \<noteq> 0 then close_fail fd (write_error wr)
         else read_reply fd dl))"

definition connect_and_exchange :: "transport_cfg \<Rightarrow> string \<Rightarrow> int \<times> int \<Rightarrow> (string + string) io" where
  "connect_and_exchange t req dl =
     ibind (connect_deadline (socket_path t) dl) (\<lambda>c. case c of
         Inl e \<Rightarrow> ireturn (Inl e)
       | Inr fd \<Rightarrow> exchange (required_peer_uid t) fd req dl)"

definition pkgx_transport_run :: "transport_cfg \<Rightarrow> string \<Rightarrow> (string + string) io" where
  "pkgx_transport_run t req =
     (if req = [] \<or> 65536 < length req then ireturn (Inl ''request_size'')
      else ibind (deadline_at (if 0 < timeout_ms t then timeout_ms t else 5000)) (\<lambda>dl. case dl of
          None \<Rightarrow> ireturn (Inl ''clock'')
        | Some dl \<Rightarrow> connect_and_exchange t req dl))"

text \<open>The same as a \<open>pkgx_redeem_transport\<close>: the error string stays behind in the context.\<close>

definition pkgx_transport_tx :: "transport_cfg \<Rightarrow> transport" where
  "pkgx_transport_tx t req =
     ibind (pkgx_transport_run t req) (\<lambda>r. case r of
         Inl e \<Rightarrow> ireturn (-1, None)
       | Inr body \<Rightarrow> ireturn (0, Some body))"

end
