(* ===== verification/Session.thy ===== *)
theory Session
  imports Transport
begin

text \<open>
  The protocol of one broker exchange as an abstract machine over the calls of the transport: a
  socket is opened, its peer is authenticated, the request frame goes out in order, the reply
  comes in, the socket is closed. The machine says which calls are allowed in which state; the
  log of every run of the transport must be a run of the machine.
\<close>

datatype conn = Idle | Open int | Authed int string string | Done

definition frame_of :: "string \<Rightarrow> string" where
  "frame_of body = frame_header (length body) @ body"

definition begins :: "string \<Rightarrow> string \<Rightarrow> bool" where
  "begins d s \<longleftrightarrow> take (length d) s = d"

lemma begins_append [simp]: "begins d (d @ s)"
  by (simp add: begins_def)

lemma begins_E:
  assumes "begins d s" obtains rest where "s = d @ rest"
proof
  have "s = take (length d) s @ drop (length d) s" by simp
  also have "\<dots> = d @ drop (length d) s" by (subst assms [unfolded begins_def]) (rule refl)
  finally show "s = d @ drop (length d) s" .
qed

definition good_peer :: "transport_cfg \<Rightarrow> reply \<Rightarrow> bool" where
  "good_peer t r \<longleftrightarrow> r_ret r = 0 \<and> r_nsec r = 12 \<and> r_sec r = required_peer_uid t"

fun fd_of :: "conn \<Rightarrow> int option" where
  "fd_of Idle = None"
| "fd_of (Open f) = Some f"
| "fd_of (Authed f s g) = Some f"
| "fd_of Done = None"

text \<open>\<open>Authed f s g\<close>: the peer of \<open>f\<close> is authenticated, it took the bytes \<open>s\<close> and delivered \<open>g\<close>. A socket
whose peer was not authenticated may be closed and another one opened; after an authenticated one
nothing follows.\<close>

fun allowed :: "transport_cfg \<Rightarrow> string \<Rightarrow> conn \<Rightarrow> call \<Rightarrow> bool" where
  "allowed t req c ClockGettime = (c \<noteq> Done)"
| "allowed t req c SocketUnix = (c = Idle)"
| "allowed t req c (Nanosleep a b) = (c = Idle)"
| "allowed t req c (Poll f ev n) = (fd_of c = Some f)"
| "allowed t req c (ConnectUnix f path) = (c = Open f \<and> Some path = map_option cstr (socket_path t))"
| "allowed t req c (GetSoError f) = (c = Open f)"
| "allowed t req c (GetPeerCred f) = (c = Open f)"
| "allowed t req c (SendFd f d) = (case c of
     Authed h s g \<Rightarrow> f = h \<and> d \<noteq> [] \<and> begins d (drop (length s) (frame_of req)) | _ \<Rightarrow> False)"
| "allowed t req c (ReadFd f n) = (case c of Authed h s g \<Rightarrow> f = h \<and> s = frame_of req | _ \<Rightarrow> False)"
| "allowed t req c _ = False"

fun after_call :: "transport_cfg \<Rightarrow> conn \<Rightarrow> call \<Rightarrow> reply \<Rightarrow> conn" where
  "after_call t c SocketUnix r = (if r_ret r < 0 then c else Open (r_ret r))"
| "after_call t c (GetPeerCred f) r = (if good_peer t r then Authed f [] [] else c)"
| "after_call t (Authed h s g) (SendFd f d) r = Authed h (s @ sent_event f (Sys (SendFd f d) r)) g"
| "after_call t (Authed h s g) (ReadFd f n) r = Authed h s (g @ read_event f (Sys (ReadFd f n) r))"
| "after_call t c k r = c"

fun sess :: "transport_cfg \<Rightarrow> string \<Rightarrow> conn \<Rightarrow> event \<Rightarrow> conn option" where
  "sess t req c (Sys k r) = (if allowed t req c k then Some (after_call t c k r) else None)"
| "sess t req c (Blocked k) = (if allowed t req c k then Some c else None)"
| "sess t req c (CloseFd f) =
     (case c of
        Open h \<Rightarrow> if h = f then Some Idle else None
      | Authed h s g \<Rightarrow> if h = f then Some Done else None
      | _ \<Rightarrow> None)"
| "sess t req c e = None"

fun acc :: "transport_cfg \<Rightarrow> string \<Rightarrow> conn \<Rightarrow> event list \<Rightarrow> conn option" where
  "acc t req c [] = Some c"
| "acc t req c (e # es) = (case sess t req c e of None \<Rightarrow> None | Some c' \<Rightarrow> acc t req c' es)"

lemma acc_append [simp]:
  "acc t req c (es @ fs) = (case acc t req c es of None \<Rightarrow> None | Some c' \<Rightarrow> acc t req c' fs)"
  by (induction es arbitrary: c) (auto split: option.split)

unbundle bit_operations_syntax

section \<open>Frames\<close>

text \<open>The length field written for a body is read back as its length, and the other way round.\<close>

lemma byte_high: "8 \<le> m \<Longrightarrow> \<not> bit (of_char c :: nat) m"
proof -
  assume "8 \<le> m"
  have "(of_char c :: nat) < 2 ^ 8" by simp
  then have "take_bit 8 (of_char c :: nat) = of_char c" by (simp add: take_bit_nat_eq_self)
  with \<open>8 \<le> m\<close> show ?thesis by (metis bit_take_bit_iff not_le)
qed

lemma bit_byte32: "bit (byte32 c) m \<longleftrightarrow> m < 8 \<and> bit (of_char c :: nat) m"
  using byte_high [of m c] by (cases "m < 8") (auto simp: byte32_def bit_simps)

lemma header_byte_eq:
  assumes "\<And>j. j < 8 \<Longrightarrow> bit n (k + j) \<longleftrightarrow> bit (of_char c :: nat) j"
  shows "header_byte n k = c"
proof -
  have m: "(0xFF :: nat) = mask 8" by (simp add: mask_eq_exp_minus_1)
  have "drop_bit k n AND 0xFF = of_char c" unfolding m
  proof (rule bit_eqI)
    fix j show "bit (drop_bit k n AND mask 8) j = bit (of_char c :: nat) j"
      using assms [of j] byte_high [of j c] by (cases "j < 8") (auto simp: bit_simps)
  qed
  then show ?thesis by (simp add: header_byte_def)
qed

lemma reply_length_bytes:
  "header_byte (unat (reply_length h)) 24 = h ! 1"
  "header_byte (unat (reply_length h)) 16 = h ! 2"
  "header_byte (unat (reply_length h)) 8 = h ! 3"
  "header_byte (unat (reply_length h)) 0 = h ! 4"
  by (rule header_byte_eq, auto simp: reply_length_def bit_simps bit_byte32)+

lemma frame_header_reply:
  assumes "length h = 5" "h ! 0 = char_of (1 :: nat)"
  shows "frame_header (unat (reply_length h)) = h"
proof -
  obtain a b c d e where "h = [a, b, c, d, e]"
    using assms(1) by (auto simp: length_Suc_conv numeral_eq_Suc)
  with assms(2) show ?thesis by (simp add: frame_header_def reply_length_bytes)
qed

lemma bit_header_byte: "bit (of_char (header_byte n k) :: nat) m \<longleftrightarrow> m < 8 \<and> bit n (k + m)"
proof -
  have m: "(0xFF :: nat) = mask 8" by (simp add: mask_eq_exp_minus_1)
  have "(of_char (header_byte n k) :: nat) = take_bit 8 (drop_bit k n)"
    unfolding header_byte_def m by (simp add: take_bit_eq_mask [symmetric] take_bit_eq_mod)
  then show ?thesis by (simp add: bit_simps)
qed

lemma reply_length_header:
  assumes "n < 2 ^ 32"
  shows "unat (reply_length (frame_header n)) = n"
proof (rule bit_eqI)
  fix m
  have hi: "\<not> bit n m" if "32 \<le> m"
  proof -
    have "take_bit 32 n = n" using assms by (simp add: take_bit_nat_eq_self)
    with that show ?thesis by (metis bit_take_bit_iff not_le)
  qed
  have "m < 8 \<or> (8 \<le> m \<and> m < 16) \<or> (16 \<le> m \<and> m < 24) \<or> (24 \<le> m \<and> m < 32) \<or> 32 \<le> m" by linarith
  then show "bit (unat (reply_length (frame_header n))) m = bit n m"
    using hi by (elim disjE) (auto simp: reply_length_def frame_header_def bit_simps bit_byte32 bit_header_byte)
qed

section \<open>Being on time\<close>

fun late :: "int \<times> int \<Rightarrow> event \<Rightarrow> bool" where
  "late dl (Sys ClockGettime r) =
     (case clock_of r of None \<Rightarrow> True | Some now \<Rightarrow> time_left dl now \<le> 0)"
| "late dl e = False"

text \<open>
  \<open>live\<close>: a stretch of the log in which the deadline has not been seen to pass; \<open>ends\<close>: the
  machine accepts it and nothing is called after the deadline was seen to pass.
\<close>

definition live :: "transport_cfg \<Rightarrow> string \<Rightarrow> int \<times> int \<Rightarrow> conn \<Rightarrow> event list \<Rightarrow> conn \<Rightarrow> bool" where
  "live t req dl c es c' \<longleftrightarrow> acc t req c es = Some c' \<and> \<not> list_ex (late dl) es"

definition ends :: "transport_cfg \<Rightarrow> string \<Rightarrow> int \<times> int \<Rightarrow> conn \<Rightarrow> event list \<Rightarrow> conn \<Rightarrow> bool" where
  "ends t req dl c es c' \<longleftrightarrow> acc t req c es = Some c' \<and> stops_after (late dl) es"

definition cut :: "transport_cfg \<Rightarrow> string \<Rightarrow> int \<times> int \<Rightarrow> conn \<Rightarrow> event list \<Rightarrow> bool" where
  "cut t req dl c es \<longleftrightarrow> acc t req c es \<noteq> None \<and> stops_after (late dl) es"

lemma never_stops: "\<not> list_ex P es \<Longrightarrow> stops_after P es"
  by (induction es) auto

lemma live_ends: "live t req dl c es c' \<Longrightarrow> ends t req dl c es c'"
  by (simp add: live_def ends_def never_stops)

lemma live_cut: "live t req dl c es c' \<Longrightarrow> cut t req dl c es"
  by (simp add: live_def cut_def never_stops)

lemma live_nil [simp]: "live t req dl c [] c"
  by (simp add: live_def)

lemma live_append: "live t req dl c es c' \<Longrightarrow> live t req dl c' fs c'' \<Longrightarrow> live t req dl c (es @ fs) c''"
  by (simp add: live_def)

lemma ends_append: "live t req dl c es c' \<Longrightarrow> ends t req dl c' fs c'' \<Longrightarrow> ends t req dl c (es @ fs) c''"
  by (simp add: live_def ends_def never_stops)

lemma cut_append: "live t req dl c es c' \<Longrightarrow> cut t req dl c' fs \<Longrightarrow> cut t req dl c (es @ fs)"
  by (simp add: live_def cut_def never_stops)

lemmas join = live_append ends_append cut_append

definition closed :: "transport_cfg \<Rightarrow> string \<Rightarrow> int \<times> int \<Rightarrow> conn \<Rightarrow> event list \<Rightarrow> bool" where
  "closed t req dl c es \<longleftrightarrow> (\<exists>c'. ends t req dl c es c' \<and> fd_of c' = None)"

lemma closed_append: "live t req dl c es c' \<Longrightarrow> closed t req dl c' fs \<Longrightarrow> closed t req dl c (es @ fs)"
  unfolding closed_def by (metis ends_append)

section \<open>The helpers\<close>

lemma tr_ms_left:
  "(\<And>r v. late dl (Sys ClockGettime r) = (v \<le> 0) \<Longrightarrow> P v [Sys ClockGettime r]) \<Longrightarrow>
   E [Blocked ClockGettime] \<Longrightarrow> tr (ms_left dl) P E"
  unfolding ms_left_def by (intro tr_rules) auto

lemmas trace_defs = live_def ends_def cut_def closed_def

lemma wait_ok:
  assumes fd: "fd_of c = Some fd"
  shows "tr (wait_fd fd ev dl) (\<lambda>r es. ends t req dl c es c \<and> (r = 0 \<longrightarrow> live t req dl c es c))
    (cut t req dl c)"
  unfolding wait_fd_def
proof (rule tr_loop [where I = "\<lambda>_ es. live t req dl c es c"])
  fix s es assume es: "live t req dl c es c"
  show "tr (wait_round fd ev dl s)
      (\<lambda>r fs. case r of Inl s' \<Rightarrow> live t req dl c (es @ fs) c
         | Inr r \<Rightarrow> ends t req dl c (es @ fs) c \<and> (r = 0 \<longrightarrow> live t req dl c (es @ fs) c))
      (\<lambda>fs. cut t req dl c (es @ fs))"
    unfolding wait_round_def
    by (intro tr_rules tr_ms_left)
       (use es fd in \<open>auto simp: trace_defs never_stops simp del: late.simps(1)\<close>)
qed (auto intro: live_cut)

text \<open>\<open>fd\<close> waiting as a rule, continuing on a live stretch when the descriptor is ready.\<close>

lemma tr_wait:
  assumes "fd_of c = Some fd"
    and "\<And>es. live t req dl c es c \<Longrightarrow> P 0 es"
    and "\<And>r es. r \<noteq> 0 \<Longrightarrow> ends t req dl c es c \<Longrightarrow> P r es"
    and "\<And>es. cut t req dl c es \<Longrightarrow> E es"
  shows "tr (wait_fd fd ev dl) P E"
  by (rule tr_mono [OF wait_ok [where t = t and req = req, OF assms(1)]]) (use assms(2-) in metis)+

section \<open>Sending and receiving\<close>

lemma write_ok:
  assumes fr: "frame_of req = s @ buf @ rest"
  shows "tr (write_full fd buf dl)
    (\<lambda>r es. (\<exists>s'. ends t req dl (Authed fd s []) es (Authed fd s' [])) \<and>
      (r = 0 \<longrightarrow> live t req dl (Authed fd s []) es (Authed fd (s @ buf) [])))
    (cut t req dl (Authed fd s []))"
  unfolding write_full_def
proof (rule tr_loop [where I = "\<lambda>n es. n \<le> length buf \<and>
      live t req dl (Authed fd s []) es (Authed fd (s @ take n buf) [])"])
  fix n es assume i: "n \<le> length buf \<and> live t req dl (Authed fd s []) es (Authed fd (s @ take n buf) [])"
  have drop: "drop (length s + n) (frame_of req) = drop n buf @ rest" if "n \<le> length buf" for n
    using that by (simp add: fr)
  have more: "take n buf @ take (taken_of (drop n buf) r) (drop n buf) = take (n + taken_of (drop n buf) r) buf" for r
    by (simp add: take_add)
  have le: "n + taken_of (drop n buf) r \<le> length buf" for r
    using conjunct1 [OF i] unfolding taken_of_def length_drop by linarith
  show "tr (write_round fd buf dl n)
      (\<lambda>r fs. case r of Inl n' \<Rightarrow> n' \<le> length buf \<and> live t req dl (Authed fd s []) (es @ fs) (Authed fd (s @ take n' buf) [])
         | Inr r \<Rightarrow> (\<exists>s'. ends t req dl (Authed fd s []) (es @ fs) (Authed fd s' [])) \<and>
             (r = 0 \<longrightarrow> live t req dl (Authed fd s []) (es @ fs) (Authed fd (s @ buf) [])))
      (\<lambda>fs. cut t req dl (Authed fd s []) (es @ fs))"
    unfolding write_round_def
    by (intro tr_rules tr_ms_left tr_wait [where c = "Authed fd (s @ take n buf) []" and t = t and req = req])
       (use i drop more le in \<open>auto simp: trace_defs never_stops simp del: late.simps(1)\<close>)
qed (auto intro: live_cut)

lemma read_ok:
  shows "tr (read_full fd n dl)
    (\<lambda>x es. (\<exists>g'. ends t req dl (Authed fd (frame_of req) g) es (Authed fd (frame_of req) g')) \<and>
      (fst x = 0 \<longrightarrow> length (snd x) = n \<and>
         live t req dl (Authed fd (frame_of req) g) es (Authed fd (frame_of req) (g @ snd x))))
    (cut t req dl (Authed fd (frame_of req) g))"
  unfolding read_full_def
proof (rule tr_loop [where I = "\<lambda>buf es. length buf \<le> n \<and>
      live t req dl (Authed fd (frame_of req) g) es (Authed fd (frame_of req) (g @ buf))"])
  fix buf es assume i: "length buf \<le> n \<and>
      live t req dl (Authed fd (frame_of req) g) es (Authed fd (frame_of req) (g @ buf))"
  show "tr (read_round fd n dl buf)
      (\<lambda>x fs. case x of
           Inl buf \<Rightarrow> length buf \<le> n \<and>
             live t req dl (Authed fd (frame_of req) g) (es @ fs) (Authed fd (frame_of req) (g @ buf))
         | Inr x \<Rightarrow> (\<exists>g'. ends t req dl (Authed fd (frame_of req) g) (es @ fs) (Authed fd (frame_of req) g')) \<and>
             (fst x = 0 \<longrightarrow> length (snd x) = n \<and>
               live t req dl (Authed fd (frame_of req) g) (es @ fs) (Authed fd (frame_of req) (g @ snd x))))
      (\<lambda>fs. cut t req dl (Authed fd (frame_of req) g) (es @ fs))"
    unfolding read_round_def
    by (intro tr_rules tr_ms_left tr_wait [where c = "Authed fd (frame_of req) (g @ buf)" and t = t and req = req])
       (use i in \<open>auto simp: trace_defs never_stops simp del: late.simps(1)\<close>)
qed (auto intro: live_cut)

lemma connect_ok:
  assumes "socket_path t = Some p"
  shows "tr (io_loop (connect_round (cstr p) dl) ())
    (\<lambda>r es. case r of Inl e \<Rightarrow> ends t req dl Idle es Idle | Inr fd \<Rightarrow> live t req dl Idle es (Open fd))
    (cut t req dl Idle)"
proof (rule tr_loop [where I = "\<lambda>_ es. live t req dl Idle es Idle"])
  fix s es assume i: "live t req dl Idle es Idle"
  show "tr (connect_round (cstr p) dl s)
     (\<lambda>x fs. case x of Inl u \<Rightarrow> live t req dl Idle (es @ fs) Idle
        | Inr r \<Rightarrow> (case r of Inl e \<Rightarrow> ends t req dl Idle (es @ fs) Idle | Inr fd \<Rightarrow> live t req dl Idle (es @ fs) (Open fd)))
     (\<lambda>fs. cut t req dl Idle (es @ fs))"
    unfolding connect_round_def close_fail_def Let_def
    by (intro tr_rules tr_ms_left tr_wait [where c = "Open _" and t = t and req = req])
       (use i assms in \<open>auto simp: trace_defs never_stops simp del: late.simps(1)\<close>)
qed (auto intro: live_cut)

section \<open>The exchange\<close>

lemma tr_write_full:
  assumes "frame_of req = s @ buf @ rest"
    and "\<And>es. live t req dl (Authed fd s []) es (Authed fd (s @ buf) []) \<Longrightarrow> P 0 es"
    and "\<And>r es s'. r \<noteq> 0 \<Longrightarrow> ends t req dl (Authed fd s []) es (Authed fd s' []) \<Longrightarrow> P r es"
    and "\<And>es. cut t req dl (Authed fd s []) es \<Longrightarrow> E es"
  shows "tr (write_full fd buf dl) P E"
  by (rule tr_mono [OF write_ok [where t = t, OF assms(1)]]) (use assms(2-) in metis)+

lemma tr_read_full:
  assumes "\<And>buf es. length buf = n \<Longrightarrow>
      live t req dl (Authed fd (frame_of req) g) es (Authed fd (frame_of req) (g @ buf)) \<Longrightarrow> P (0, buf) es"
    and "\<And>r buf es g'. r \<noteq> 0 \<Longrightarrow>
      ends t req dl (Authed fd (frame_of req) g) es (Authed fd (frame_of req) g') \<Longrightarrow> P (r, buf) es"
    and "\<And>es. cut t req dl (Authed fd (frame_of req) g) es \<Longrightarrow> E es"
  shows "tr (read_full fd n dl) P E"
proof (rule tr_mono [OF read_ok [where t = t and req = req and g = g]])
  fix x :: "int \<times> string" and es
  assume "(\<exists>g'. ends t req dl (Authed fd (frame_of req) g) es (Authed fd (frame_of req) g')) \<and>
      (fst x = 0 \<longrightarrow> length (snd x) = n \<and>
         live t req dl (Authed fd (frame_of req) g) es (Authed fd (frame_of req) (g @ snd x)))"
  then show "P x es" using assms(1,2) by (cases x; cases "fst x = 0") auto
qed (use assms(3) in blast)

lemma send_ok:
  "tr (send_request fd req dl)
    (\<lambda>r es. (\<exists>s'. ends t req dl (Authed fd [] []) es (Authed fd s' [])) \<and>
      (r = 0 \<longrightarrow> live t req dl (Authed fd [] []) es (Authed fd (frame_of req) [])))
    (cut t req dl (Authed fd [] []))"
  unfolding send_request_def
  by (rule tr_bind, rule tr_write_full [where s = "[]" and rest = req and t = t],
      simp add: frame_of_def, intro tr_rules,
      rule tr_write_full [where s = "frame_header (length req)" and rest = "[]" and t = t],
      simp add: frame_of_def)
     (auto simp: trace_defs never_stops frame_of_def intro!: tr_rules)

text \<open>What an exchange that delivered \<open>body\<close> leaves in the log.\<close>

definition delivered :: "transport_cfg \<Rightarrow> string \<Rightarrow> int \<times> int \<Rightarrow> conn \<Rightarrow> string \<Rightarrow> event list \<Rightarrow> bool" where
  "delivered t req dl c body es \<longleftrightarrow> (\<exists>fd us. es = us @ [CloseFd fd] \<and>
     live t req dl c us (Authed fd (frame_of req) (frame_of body)) \<and> length body \<le> 65536)"

lemma frame_of_reply:
  "length h = 5 \<Longrightarrow> h ! 0 = char_of (1 :: nat) \<Longrightarrow> length body = unat (reply_length h) \<Longrightarrow>
   frame_of body = h @ body"
  using frame_header_reply [of h] by (simp add: frame_of_def)

lemma read_body_ok:
  assumes h: "length h = 5" "h ! 0 = char_of (1 :: nat)" "rlen = unat (reply_length h)" "rlen \<le> 65536"
    and es: "live t req dl (Authed fd (frame_of req) []) es (Authed fd (frame_of req) h)"
  shows "tr (read_body fd rlen dl)
    (\<lambda>r fs. closed t req dl (Authed fd (frame_of req) []) (es @ fs) \<and>
      (case r of Inl e \<Rightarrow> True | Inr body \<Rightarrow> delivered t req dl (Authed fd (frame_of req) []) body (es @ fs)))
    (\<lambda>fs. cut t req dl (Authed fd (frame_of req) []) (es @ fs))"
  unfolding read_body_def close_fail_def
proof (rule tr_bind, rule tr_read_full [where t = t and req = req and g = h])
  fix body fs
  assume len: "length body = rlen"
    and fs: "live t req dl (Authed fd (frame_of req) h) fs (Authed fd (frame_of req) (h @ body))"
  from len fs frame_of_reply [OF h(1,2), of body] h(3)
  have l: "live t req dl (Authed fd (frame_of req) []) (es @ fs) (Authed fd (frame_of req) (frame_of body))"
    using live_append [OF es] by simp
  then have "delivered t req dl (Authed fd (frame_of req) []) body (es @ fs @ [CloseFd fd])"
    unfolding delivered_def by (intro exI [of _ fd] exI [of _ "es @ fs"]) (use len h in auto)
  with fs es show "tr (case (0, body) of (rr, body) \<Rightarrow>
       if rr \<noteq> 0 then ibind (emit (CloseFd fd)) (\<lambda>_. ireturn (Inl (read_error rr)))
       else ibind (emit (CloseFd fd)) (\<lambda>_. ireturn (Inr body)))
     (\<lambda>r gs. closed t req dl (Authed fd (frame_of req) []) (es @ fs @ gs) \<and>
       (case r of Inl e \<Rightarrow> True | Inr body \<Rightarrow> delivered t req dl (Authed fd (frame_of req) []) body (es @ fs @ gs)))
     (\<lambda>gs. cut t req dl (Authed fd (frame_of req) []) (es @ fs @ gs))"
    by simp (intro tr_rules, auto simp: trace_defs never_stops)
qed (use es in \<open>auto intro!: tr_rules simp: trace_defs never_stops\<close>)

lemma read_reply_ok:
  "tr (read_reply fd dl)
    (\<lambda>r es. closed t req dl (Authed fd (frame_of req) []) es \<and>
      (case r of Inl e \<Rightarrow> True | Inr body \<Rightarrow> delivered t req dl (Authed fd (frame_of req) []) body es))
    (cut t req dl (Authed fd (frame_of req) []))"
  unfolding read_reply_def close_fail_def Let_def
proof (rule tr_bind, rule tr_read_full [where t = t and req = req and g = "[]"])
  fix h es
  assume h: "length h = 5" and l: "live t req dl (Authed fd (frame_of req) []) es (Authed fd (frame_of req) ([] @ h))"
  then have es: "live t req dl (Authed fd (frame_of req) []) es (Authed fd (frame_of req) h)" by simp
  show "tr (case (0, h) of (rr, rhdr) \<Rightarrow>
       if rr \<noteq> 0 then ibind (emit (CloseFd fd)) (\<lambda>_. ireturn (Inl (read_error rr)))
       else if rhdr ! 0 \<noteq> char_of (1 :: nat)
         then ibind (emit (CloseFd fd)) (\<lambda>_. ireturn (Inl ''frame_version''))
       else if 65536 < unat (reply_length rhdr)
         then ibind (emit (CloseFd fd)) (\<lambda>_. ireturn (Inl ''frame_toolarge''))
       else ibind (allocating aalloc) (\<lambda>m. case m of
           None \<Rightarrow> ibind (emit (CloseFd fd)) (\<lambda>_. ireturn (Inl ''oom''))
         | Some u \<Rightarrow> read_body fd (unat (reply_length rhdr)) dl))
    (\<lambda>r fs. closed t req dl (Authed fd (frame_of req) []) (es @ fs) \<and>
      (case r of Inl e \<Rightarrow> True | Inr body \<Rightarrow> delivered t req dl (Authed fd (frame_of req) []) body (es @ fs)))
    (\<lambda>fs. cut t req dl (Authed fd (frame_of req) []) (es @ fs))"
    by (simp, intro conjI impI tr_rules, use read_body_ok [OF h _ refl _ es] es in \<open>auto simp: trace_defs never_stops cong: sum.case_cong\<close>)
qed (auto intro!: tr_rules simp: trace_defs never_stops)

lemma tr_send_request:
  assumes "\<And>es. live t req dl (Authed fd [] []) es (Authed fd (frame_of req) []) \<Longrightarrow> P 0 es"
    and "\<And>r es s'. r \<noteq> 0 \<Longrightarrow> ends t req dl (Authed fd [] []) es (Authed fd s' []) \<Longrightarrow> P r es"
    and "\<And>es. cut t req dl (Authed fd [] []) es \<Longrightarrow> E es"
  shows "tr (send_request fd req dl) P E"
  by (rule tr_mono [OF send_ok [where t = t]]) (use assms in metis)+

lemma delivered_append:
  "live t req dl c es c' \<Longrightarrow> delivered t req dl c' body fs \<Longrightarrow> delivered t req dl c body (es @ fs)"
  unfolding delivered_def by (metis append_assoc live_append)

lemma exchange_ok:
  "tr (exchange (required_peer_uid t) fd req dl)
    (\<lambda>r es. closed t req dl (Open fd) es \<and>
      (case r of Inl e \<Rightarrow> True | Inr body \<Rightarrow> delivered t req dl (Open fd) body es))
    (cut t req dl (Open fd))"
  unfolding exchange_def close_fail_def
proof (intro tr_rules)
  fix cr :: reply
  assume "\<not> (r_ret cr \<noteq> 0 \<or> r_nsec cr \<noteq> 12)" "\<not> r_sec cr \<noteq> required_peer_uid t"
  then have peer: "live t req dl (Open fd) [Sys (GetPeerCred fd) cr] (Authed fd [] [])"
    by (simp add: live_def good_peer_def)
  show "tr (send_request fd req dl)
     (\<lambda>wr es. tr (if wr \<noteq> 0 then ibind (emit (CloseFd fd)) (\<lambda>_. ireturn (Inl (write_error wr))) else read_reply fd dl)
        (\<lambda>r fs. closed t req dl (Open fd) ([Sys (GetPeerCred fd) cr] @ es @ fs) \<and>
           (case r of Inl e \<Rightarrow> True | Inr body \<Rightarrow> delivered t req dl (Open fd) body ([Sys (GetPeerCred fd) cr] @ es @ fs)))
        (\<lambda>fs. cut t req dl (Open fd) ([Sys (GetPeerCred fd) cr] @ es @ fs)))
     (\<lambda>es. cut t req dl (Open fd) ([Sys (GetPeerCred fd) cr] @ es))"
  proof (rule tr_send_request [where t = t and req = req])
    fix es assume "live t req dl (Authed fd [] []) es (Authed fd (frame_of req) [])"
    then have l: "live t req dl (Open fd) ([Sys (GetPeerCred fd) cr] @ es) (Authed fd (frame_of req) [])"
      by (rule live_append [OF peer])
    show "tr (if (0::int) \<noteq> 0 then ibind (emit (CloseFd fd)) (\<lambda>_. ireturn (Inl (write_error 0))) else read_reply fd dl)
        (\<lambda>r fs. closed t req dl (Open fd) ([Sys (GetPeerCred fd) cr] @ es @ fs) \<and>
           (case r of Inl e \<Rightarrow> True | Inr body \<Rightarrow> delivered t req dl (Open fd) body ([Sys (GetPeerCred fd) cr] @ es @ fs)))
        (\<lambda>fs. cut t req dl (Open fd) ([Sys (GetPeerCred fd) cr] @ es @ fs))"
      unfolding append_assoc [symmetric]
      by (simp del: append_assoc, rule tr_mono [OF read_reply_ok [where t = t and req = req]])
         (use closed_append [OF l] cut_append [OF l] delivered_append [OF l] in \<open>auto split: sum.splits\<close>)
  qed (use peer in \<open>auto intro!: tr_rules simp: trace_defs never_stops\<close>)
qed (auto simp: trace_defs good_peer_def)

section \<open>The whole transport\<close>

text \<open>The log of a run: refused before the clock is read, or one clock reading that fixes the deadline
and then a stretch the machine accepts.\<close>

definition after_ms :: "int \<Rightarrow> int \<times> int \<Rightarrow> int \<times> int" where
  "after_ms ms now =
     (let ns = snd now + (ms smod 1000) * 1000000
      in (fst now + ms sdiv 1000 + ns sdiv 1000000000, ns smod 1000000000))"

definition deadline_of :: "transport_cfg \<Rightarrow> int \<times> int \<Rightarrow> int \<times> int" where
  "deadline_of t = after_ms (if 0 < timeout_ms t then timeout_ms t else 5000)"

lemma tr_deadline_at:
  "(\<And>r. clock_of r = None \<Longrightarrow> P None [Sys ClockGettime r]) \<Longrightarrow>
   (\<And>r now. clock_of r = Some now \<Longrightarrow> P (Some (after_ms ms now)) [Sys ClockGettime r]) \<Longrightarrow>
   E [Blocked ClockGettime] \<Longrightarrow> tr (deadline_at ms) P E"
  unfolding deadline_at_def Let_def
  by (intro tr_rules) (auto simp: after_ms_def Let_def)

definition transport_log :: "transport_cfg \<Rightarrow> string \<Rightarrow> string + string \<Rightarrow> event list \<Rightarrow> bool" where
  "transport_log t req r es \<longleftrightarrow> (case es of
       [] \<Rightarrow> r = Inl ''request_size''
     | Sys ClockGettime c # rest \<Rightarrow> (case clock_of c of
           None \<Rightarrow> r = Inl ''clock'' \<and> rest = []
         | Some now \<Rightarrow> closed t req (deadline_of t now) Idle rest \<and> req \<noteq> [] \<and> length req \<le> 65536 \<and>
             (case r of Inl e \<Rightarrow> True | Inr body \<Rightarrow> delivered t req (deadline_of t now) Idle body rest))
     | _ \<Rightarrow> False)"

definition transport_cut :: "transport_cfg \<Rightarrow> string \<Rightarrow> event list \<Rightarrow> bool" where
  "transport_cut t req es \<longleftrightarrow> (case es of
       [Blocked ClockGettime] \<Rightarrow> True
     | Sys ClockGettime c # rest \<Rightarrow> (case clock_of c of
           None \<Rightarrow> False | Some now \<Rightarrow> cut t req (deadline_of t now) Idle rest)
     | _ \<Rightarrow> False)"

lemma connected_ok:
  assumes "socket_path t = Some p"
  shows "tr (ibind (io_loop (connect_round (cstr p) dl) ()) (\<lambda>c. case c of
        Inl e \<Rightarrow> ireturn (Inl e) | Inr fd \<Rightarrow> exchange (required_peer_uid t) fd req dl))
    (\<lambda>r es. closed t req dl Idle es \<and>
      (case r of Inl e \<Rightarrow> True | Inr body \<Rightarrow> delivered t req dl Idle body es))
    (cut t req dl Idle)"
proof (rule tr_bind, rule tr_mono [OF connect_ok [where req = req, OF assms]])
  fix x :: "string + int" and es
  assume x: "case x of Inl e \<Rightarrow> ends t req dl Idle es Idle | Inr fd \<Rightarrow> live t req dl Idle es (Open fd)"
  show "tr (case x of Inl e \<Rightarrow> ireturn (Inl e) | Inr fd \<Rightarrow> exchange (required_peer_uid t) fd req dl)
     (\<lambda>r fs. closed t req dl Idle (es @ fs) \<and>
        (case r of Inl e \<Rightarrow> True | Inr body \<Rightarrow> delivered t req dl Idle body (es @ fs)))
     (\<lambda>fs. cut t req dl Idle (es @ fs))"
  proof (cases x)
    case (Inr fd)
    with x have l: "live t req dl Idle es (Open fd)" by simp
    show ?thesis
      unfolding Inr sum.case
      by (rule tr_mono [OF exchange_ok])
         (use closed_append [OF l] cut_append [OF l] delivered_append [OF l] in \<open>auto split: sum.splits\<close>)
  next
    case (Inl e)
    with x have "closed t req dl Idle es" unfolding closed_def by fastforce
    with Inl show ?thesis by (auto intro!: tr_rules)
  qed
qed

lemma connect_and_exchange_ok:
  "tr (connect_and_exchange t req dl)
    (\<lambda>r es. closed t req dl Idle es \<and>
      (case r of Inl e \<Rightarrow> True | Inr body \<Rightarrow> delivered t req dl Idle body es))
    (cut t req dl Idle)"
proof (cases "socket_path t")
  case (Some p)
  show ?thesis
  proof (cases "strlen p = 0 \<or> 108 \<le> strlen p")
    case False
    then show ?thesis using connected_ok [OF Some] Some by (simp add: connect_and_exchange_def connect_deadline_def)
  qed (auto simp: connect_and_exchange_def connect_deadline_def Some trace_defs intro!: tr_rules)
qed (auto simp: connect_and_exchange_def connect_deadline_def trace_defs intro!: tr_rules)

lemma transport_run_ok: "tr (pkgx_transport_run t req) (transport_log t req) (transport_cut t req)"
  unfolding pkgx_transport_run_def deadline_of_def [symmetric]
  by (intro tr_rules tr_deadline_at tr_mono [OF connect_and_exchange_ok])
     (auto simp: transport_log_def transport_cut_def deadline_of_def cong: sum.case_cong)

end
