(* ===== verification/Progress.thy ===== *)
theory Progress
  imports Stdin Transport
begin

text \<open>
  Loops end. A run that does not return has used up every answer of its script: no loop is ever
  cut short by the bound of \<open>io_loop\<close>, so in front of a kernel that keeps answering, not
  returning can only mean that the loop itself goes on. \<open>ct m P\<close> counts answers: \<open>P x n\<close> holds
  when \<open>m\<close> returns \<open>x\<close> after \<open>n\<close> calls.
\<close>

named_theorems ct_rules \<open>counting the answers a computation consumes\<close>

definition ct :: "'a io \<Rightarrow> ('a \<Rightarrow> nat \<Rightarrow> bool) \<Rightarrow> bool" where
  "ct m P \<longleftrightarrow> (\<forall>w. wp m (\<lambda>x w'. \<exists>rs. answers w = rs @ answers w' \<and> P x (length rs)) (\<lambda>w'. answers w' = []) w)"

lemma ct_mono: "ct m P \<Longrightarrow> (\<And>x n. P x n \<Longrightarrow> Q x n) \<Longrightarrow> ct m Q"
  unfolding ct_def by (blast intro: wp_mono)

lemma ct_return [ct_rules]: "P x 0 \<Longrightarrow> ct (ireturn x) P"
  by (simp add: ct_def wp_return)

lemma ct_again [ct_rules]: "P (Inl s) 0 \<Longrightarrow> ct (again s) P"
  by (simp add: ct_def wp_again)

lemma ct_leave [ct_rules]: "P (Inr x) 0 \<Longrightarrow> ct (leave x) P"
  by (simp add: ct_def wp_leave)

lemma ct_emit [ct_rules]: "P () 0 \<Longrightarrow> ct (emit e) P"
  by (simp add: ct_def wp_emit)

lemma ct_syscall [ct_rules]: "(\<And>r. P r 1) \<Longrightarrow> ct (syscall c) P"
  by (auto simp: ct_def wp_syscall intro!: exI [of _ "[_]"])

lemma ct_allocating [ct_rules]: "(\<And>x. P x 0) \<Longrightarrow> ct (allocating m) P"
  by (simp add: ct_def wp_allocating)

lemma ct_bind_seq:
  assumes m: "ct m R" and f: "\<And>x n. R x n \<Longrightarrow> ct (f x) (\<lambda>y k. P y (n + k))"
  shows "ct (ibind m f) P"
  unfolding ct_def wp_bind
proof
  fix w
  show "wp m (\<lambda>x. wp (f x) (\<lambda>y w'. \<exists>rs. answers w = rs @ answers w' \<and> P y (length rs)) (\<lambda>w'. answers w' = []))
      (\<lambda>w'. answers w' = []) w"
  proof (rule wp_mono [OF m [unfolded ct_def, rule_format]])
    fix x and v :: os assume "\<exists>rs. answers w = rs @ answers v \<and> R x (length rs)"
    then obtain rs where rs: "answers w = rs @ answers v" "R x (length rs)" by blast
    show "wp (f x) (\<lambda>y w'. \<exists>rs. answers w = rs @ answers w' \<and> P y (length rs)) (\<lambda>w'. answers w' = []) v"
      by (rule wp_mono [OF f [OF rs(2), unfolded ct_def, rule_format]])
         (use rs(1) in \<open>auto intro: exI [of _ "rs @ _"]\<close>)
  qed
qed

lemma ct_bind [ct_rules]: "ct m (\<lambda>x n. ct (f x) (\<lambda>y k. P y (n + k))) \<Longrightarrow> ct (ibind m f) P"
  by (erule ct_bind_seq)

lemma ct_if [ct_rules]: "(b \<Longrightarrow> ct m P) \<Longrightarrow> (\<not> b \<Longrightarrow> ct n P) \<Longrightarrow> ct (if b then m else n) P"
  by simp

lemma ct_option [ct_rules]:
  "(x = None \<Longrightarrow> ct m P) \<Longrightarrow> (\<And>y. x = Some y \<Longrightarrow> ct (f y) P) \<Longrightarrow>
   ct (case x of None \<Rightarrow> m | Some y \<Rightarrow> f y) P"
  by (cases x) auto

lemma ct_sum [ct_rules]:
  "(\<And>y. x = Inl y \<Longrightarrow> ct (f y) P) \<Longrightarrow> (\<And>y. x = Inr y \<Longrightarrow> ct (g y) P) \<Longrightarrow>
   ct (case x of Inl y \<Rightarrow> f y | Inr y \<Rightarrow> g y) P"
  by (cases x) auto

lemma ct_prod [ct_rules]: "(\<And>a b. x = (a, b) \<Longrightarrow> ct (f a b) P) \<Longrightarrow> ct (case x of (a, b) \<Rightarrow> f a b) P"
  by (cases x) auto

text \<open>A loop whose every further round makes a call never feels the bound on rounds.\<close>

lemma ct_rounds:
  fixes body :: "'s \<Rightarrow> ('s + 'a) io"
  assumes "\<And>s. ct (body s) (\<lambda>r n. case r of Inl s' \<Rightarrow> 0 < n | Inr x \<Rightarrow> True)"
  shows "length (answers w) < k \<Longrightarrow> wp (rounds k body s)
    (\<lambda>x w'. \<exists>rs. answers w = rs @ answers w') (\<lambda>w'. answers w' = []) w"
proof (induction k arbitrary: s w)
  case (Suc k)
  show ?case
    unfolding wp_rounds_Suc
  proof (rule wp_mono [OF assms [unfolded ct_def, rule_format]])
    fix r :: "'s + 'a" and v :: os
    assume "\<exists>rs. answers w = rs @ answers v \<and> (case r of Inl s' \<Rightarrow> 0 < length rs | Inr x \<Rightarrow> True)"
    then obtain rs where rs: "answers w = rs @ answers v" "case r of Inl s' \<Rightarrow> 0 < length rs | Inr x \<Rightarrow> True"
      by blast
    show "case r of Inl s' \<Rightarrow> wp (rounds k body s') (\<lambda>x w'. \<exists>rs. answers w = rs @ answers w') (\<lambda>w'. answers w' = []) v
        | Inr x \<Rightarrow> \<exists>rs. answers w = rs @ answers v"
    proof (cases r)
      case (Inl s')
      with rs Suc.prems have "length (answers v) < k" by (cases rs) auto
      from Suc.IH [OF this] show ?thesis
        unfolding Inl sum.case by (rule wp_mono) (use rs(1) in auto)
    qed (use rs in auto)
  qed
qed simp

lemma ct_loop:
  assumes "\<And>s. ct (body s) (\<lambda>r n. case r of Inl s' \<Rightarrow> 0 < n | Inr x \<Rightarrow> True)"
  shows "ct (io_loop body s) (\<lambda>x n. True)"
  unfolding ct_def
proof
  fix w
  show "wp (io_loop body s) (\<lambda>x w'. \<exists>rs. answers w = rs @ answers w' \<and> True) (\<lambda>w'. answers w' = []) w"
    using ct_rounds [where body = body and k = "Suc (length (answers w))" and s = s and w = w, OF assms]
    by (simp only: wp_def io_loop_def simp_thms lessI)
qed

lemma ct_loop_rule [ct_rules]:
  assumes "\<And>s. ct (body s) (\<lambda>r n. case r of Inl s' \<Rightarrow> 0 < n | Inr x \<Rightarrow> True)" "\<And>x n. P x n"
  shows "ct (io_loop body s) P"
  by (rule ct_mono [OF ct_loop]) (use assms in auto)

lemma ct_None: "ct m P \<Longrightarrow> m w = (None, w') \<Longrightarrow> answers w' = []"
  unfolding ct_def using wp_None by fast

section \<open>The helpers\<close>

lemma ct_clock [ct_rules]: "(\<And>x. P x 1) \<Longrightarrow> ct clock_gettime P"
  unfolding clock_gettime_def by (intro ct_rules) auto

lemma ct_read [ct_rules]: "(\<And>x. P x 1) \<Longrightarrow> ct (read_fd fd n) P"
  unfolding read_fd_def by (intro ct_rules) auto

lemma ct_send [ct_rules]: "(\<And>x. P x 1) \<Longrightarrow> ct (send_fd fd d) P"
  unfolding send_fd_def by (intro ct_rules) auto

lemma ct_ms_left [ct_rules]: "(\<And>x. P x 1) \<Longrightarrow> ct (ms_left dl) P"
  unfolding ms_left_def by (intro ct_rules) auto

lemma ct_wait [ct_rules]: "(\<And>x n. P x n) \<Longrightarrow> ct (wait_fd fd ev dl) P"
  unfolding wait_fd_def wait_round_def by (intro ct_rules) auto

lemma ct_close_fail [ct_rules]: "(\<And>x. P x 0) \<Longrightarrow> ct (close_fail fd e) P"
  unfolding close_fail_def by (intro ct_rules) auto

lemma ct_write_full [ct_rules]: "(\<And>x n. P x n) \<Longrightarrow> ct (write_full fd buf dl) P"
  unfolding write_full_def write_round_def by (intro ct_rules) auto

lemma ct_read_full [ct_rules]: "(\<And>x n. P x n) \<Longrightarrow> ct (read_full fd k dl) P"
  unfolding read_full_def read_round_def by (intro ct_rules) auto

lemma ct_connect [ct_rules]: "(\<And>x n. P x n) \<Longrightarrow> ct (connect_deadline path dl) P"
  unfolding connect_deadline_def connect_round_def Let_def by (intro ct_rules) auto

lemma ct_transport: "ct (pkgx_transport_run t req) (\<lambda>x n. True)"
  unfolding pkgx_transport_run_def deadline_at_def connect_and_exchange_def exchange_def send_request_def
    read_reply_def read_body_def Let_def
  by (intro ct_rules) auto

lemma ct_stdin: "ct (pkgx_read_stdin_deadline fd dl) (\<lambda>x n. True)"
  unfolding pkgx_read_stdin_deadline_def stdin_round_def grow_stdin_def stdin_finish_def Let_def
  by (intro ct_rules) auto

end
