(* ===== verification/Budget.thy ===== *)
theory Budget
  imports Os
begin

text \<open>
  How many calls a computation makes. A call either moves bytes, or hands over a directory entry, or is one the
  kernel sends back to be tried again; all others are overhead, and a computation has a
  bound on its overhead that does not depend on the answers. Rules for the constructs of the programs, for any
  additive measure of the events.
\<close>

section \<open>Additive measures\<close>

locale log_measure =
  fixes f :: "event list \<Rightarrow> int"
  assumes f_nil: "f [] = 0" and f_append: "f (es @ fs) = f es + f fs"
begin

definition within :: "nat \<Rightarrow> 'a io \<Rightarrow> bool" where
  "within b m \<longleftrightarrow> tr m (\<lambda>x es. f es \<le> int b) (\<lambda>es. f es \<le> int b)"

lemma withinI: "tr m (\<lambda>x es. f es \<le> int b) (\<lambda>es. f es \<le> int b) \<Longrightarrow> within b m"
  by (simp add: within_def)

lemma within_tr: "within b m \<Longrightarrow> (\<And>x es. f es \<le> int b \<Longrightarrow> P x es) \<Longrightarrow> (\<And>es. f es \<le> int b \<Longrightarrow> E es) \<Longrightarrow> tr m P E"
  unfolding within_def by (erule tr_mono)

lemma within_mono: "within a m \<Longrightarrow> a \<le> b \<Longrightarrow> within b m"
  unfolding within_def by (erule tr_mono) auto

lemma within_return: "within 0 (ireturn x)" "within 0 (again s)" "within 0 (leave y)"
  by (auto simp: f_nil intro!: withinI tr_rules)

lemma within_memory: "within 0 (allocating m)"
  by (auto simp: f_nil intro!: withinI tr_allocating)

text \<open>What the first part returned may bound the second.\<close>

lemma within_bind_post:
  assumes m: "tr m (\<lambda>x es. f es \<le> int a \<and> R x) (\<lambda>es. f es \<le> int a)" and g: "\<And>x. R x \<Longrightarrow> within b (g x)"
  shows "within (a + b) (ibind m g)"
proof (rule withinI, rule tr_bind_seq [OF tr_mono [OF m]])
  fix x es assume "f es \<le> int a \<and> R x"
  then show "tr (g x) (\<lambda>y fs. f (es @ fs) \<le> int (a + b)) (\<lambda>fs. f (es @ fs) \<le> int (a + b))"
    by (intro within_tr [OF g]) (auto simp: f_append)
qed auto

lemma within_bind: "within a m \<Longrightarrow> (\<And>x. within b (g x)) \<Longrightarrow> within (a + b) (ibind m g)"
  by (rule within_bind_post [where R = "\<lambda>x. True"]) (simp_all add: within_def)

lemma within_max: "within a m \<Longrightarrow> within (max a b) m" "within b m \<Longrightarrow> within (max a b) m"
  by (erule within_mono, simp)+

lemma within_if: "within a m \<Longrightarrow> within b n \<Longrightarrow> within (max a b) (if c then m else n)"
  by (simp add: within_max)

lemma within_option: "within a m \<Longrightarrow> (\<And>y. within b (g y)) \<Longrightarrow> within (max a b) (case x of None \<Rightarrow> m | Some y \<Rightarrow> g y)"
  by (cases x) (simp_all add: within_max)

lemma within_list: "within a m \<Longrightarrow> (\<And>y ys. within b (g y ys)) \<Longrightarrow> within (max a b) (case x of [] \<Rightarrow> m | y # ys \<Rightarrow> g y ys)"
  by (cases x) (simp_all add: within_max)

lemma within_sum: "(\<And>y. within a (g y)) \<Longrightarrow> (\<And>y. within b (h y)) \<Longrightarrow> within (max a b) (case x of Inl y \<Rightarrow> g y | Inr y \<Rightarrow> h y)"
  by (cases x) (simp_all add: within_max)

lemma within_prod: "(\<And>y z. within a (g y z)) \<Longrightarrow> within a (case x of (y, z) \<Rightarrow> g y z)"
  by (auto split: prod.split)

lemma within_let: "within a (g x) \<Longrightarrow> within a (let y = x in g y)"
  by simp

text \<open>A loop is within what its last round takes when the others take nothing.\<close>

lemma within_loop:
  assumes "\<And>s. tr (body s) (\<lambda>r es. f es \<le> (case r of Inl s' \<Rightarrow> 0 | Inr x \<Rightarrow> int b)) (\<lambda>es. f es \<le> int b)"
  shows "within b (io_loop body s)"
proof (rule withinI, rule tr_loop [where I = "\<lambda>s es. f es \<le> 0"])
  fix s es assume "f es \<le> 0"
  then show "tr (body s) (\<lambda>r fs. case r of Inl s' \<Rightarrow> f (es @ fs) \<le> 0 | Inr x \<Rightarrow> f (es @ fs) \<le> int b)
      (\<lambda>fs. f (es @ fs) \<le> int b)"
    by (intro tr_mono [OF assms]) (auto simp: f_append split: sum.splits)
qed (auto simp: f_nil)

lemma within_log: "within b m \<Longrightarrow> \<exists>es. log (snd (m w)) = log w @ es \<and> f es \<le> int b"
  unfolding within_def by (rule tr_run [where w' = "snd (m w)" and res = "fst (m w)"]) auto

lemmas within_basic = within_return within_memory within_bind within_if within_option within_list within_sum
  within_prod within_let

end

section \<open>The measures\<close>

text \<open>Calls that are tried again: interrupted or not ready, a poll whose slice ended, a listener whose queue is full.\<close>

fun retried :: "event \<Rightarrow> bool" where
  "retried (Sys (Poll fd ev ms) r) \<longleftrightarrow> r_ret r = 0 \<or> r_ret r < 0 \<and> r_errno r = EINTR"
| "retried (Sys (ReadFd fd n) r) \<longleftrightarrow> r_ret r < 0 \<and> r_errno r \<in> {EINTR, EAGAIN}"
| "retried (Sys (SendFd fd d) r) \<longleftrightarrow> r_ret r < 0 \<and> r_errno r \<in> {EINTR, EAGAIN}"
| "retried (Sys (WriteFd fd d) r) \<longleftrightarrow> r_ret r < 0 \<and> r_errno r = EINTR"
| "retried (Sys (ConnectUnix fd path) r) \<longleftrightarrow> r_ret r \<noteq> 0 \<and> r_errno r = EAGAIN"
| "retried (Sys (Proc (Waitpid pid)) r) \<longleftrightarrow> r_ret r < 0 \<and> r_errno r = EINTR"
| "retried e = False"

text \<open>Bytes moved by a call, in either direction.\<close>

fun moved :: "event \<Rightarrow> nat" where
  "moved (Sys (ReadFd fd n) r) = (if 0 \<le> r_ret r then length (bytes_of n r) else 0)"
| "moved (Sys (SendFd fd d) r) = (if 0 \<le> r_ret r then taken_of d r else 0)"
| "moved (Sys (WriteFd fd d) r) = (if 0 \<le> r_ret r then taken_of d r else 0)"
| "moved e = 0"

fun listed :: "event \<Rightarrow> bool" where
  "listed (Sys (Fd (ReadDir d)) r) \<longleftrightarrow> r_ret r \<noteq> 0"
| "listed e = False"

definition calls_in :: "event list \<Rightarrow> nat" where
  "calls_in es = length (filter is_call es)"

definition retries :: "event list \<Rightarrow> nat" where
  "retries es = length (filter retried es)"

definition traffic :: "event list \<Rightarrow> nat" where
  "traffic es = sum_list (map moved es)"

definition entries :: "event list \<Rightarrow> nat" where
  "entries es = length (filter listed es)"

lemmas counts = calls_in_def retries_def traffic_def entries_def

text \<open>The calls that are not paid for: four for a retry, three for a byte or an entry.\<close>

definition overhead :: "event list \<Rightarrow> int" where
  "overhead es = int (calls_in es) - 4 * int (retries es) - 3 * int (traffic es) - 3 * int (entries es)"

lemma overhead_simps [simp]: "overhead [] = 0" "overhead (es @ fs) = overhead es + overhead fs"
  "overhead (e # es) = (if is_call e then 1 else 0) - (if retried e then 4 else 0) - 3 * int (moved e) -
     (if listed e then 3 else 0) + overhead es"
  by (simp_all add: overhead_def counts)

interpretation effort: log_measure overhead
  by unfold_locales simp_all

lemma traffic_simps [simp]: "traffic [] = 0" "traffic (es @ fs) = traffic es + traffic fs"
  "traffic (e # es) = moved e + traffic es"
  by (simp_all add: traffic_def)

interpretation volume: log_measure "\<lambda>es. int (traffic es)"
  by unfold_locales simp_all

section \<open>Calls\<close>

lemma effort_call: "effort.within 1 (syscall c)"
  by (rule effort.withinI, rule tr_syscall) auto

lemma effort_emit: "is_note e \<Longrightarrow> \<not> is_call e \<Longrightarrow> effort.within 0 (emit e)"
  by (rule effort.withinI, rule tr_emit; cases e; simp)

lemmas effort_note = effort_emit [of "Wipe s" for s, simplified] effort_emit [of "CloseFd fd" for fd, simplified]
  effort_emit [of "Realloc s" for s, simplified]

lemma effort_clock: "effort.within 1 clock_gettime"
  unfolding clock_gettime_def
  by (rule effort.within_mono [OF effort.within_bind [OF effort_call effort.within_return(1)]]) simp

lemmas effort_rules = effort.within_basic effort_call effort_note effort_clock

end
