(* ===== verification/Transport_Proofs.thy ===== *)
theory Transport_Proofs
  imports Session Progress Redeem_Proofs Budget
begin

text \<open>
  What every run of the transport guarantees, read off the session machine: authentication before
  the first byte, one request per connection, the framing of request and reply, every socket
  closed, silence after the deadline, and a bound on the number of calls.
\<close>

section \<open>Invariants of the session machine\<close>

definition authenticated :: "transport_cfg \<Rightarrow> int \<Rightarrow> event list \<Rightarrow> bool" where
  "authenticated t f es \<longleftrightarrow>
     (\<exists>xs p ys. es = xs @ Sys (GetPeerCred f) p # ys \<and> good_peer t p \<and> CloseFd f \<notin> set ys)"

definition silent :: "int \<Rightarrow> event list \<Rightarrow> bool" where
  "silent f es \<longleftrightarrow> bytes_sent f es = [] \<and> bytes_read f es = []"

fun sess_inv :: "transport_cfg \<Rightarrow> string \<Rightarrow> conn \<Rightarrow> event list \<Rightarrow> bool" where
  "sess_inv t req (Authed f s g) es \<longleftrightarrow> authenticated t f es \<and> bytes_sent f es = s \<and> bytes_read f es = g \<and>
     (\<exists>rest. frame_of req = s @ rest) \<and> (\<forall>h. h \<noteq> f \<longrightarrow> silent h es)"
| "sess_inv t req Done es \<longleftrightarrow> True"
| "sess_inv t req c es \<longleftrightarrow> (\<forall>h. silent h es)"

lemma authenticated_snoc: "authenticated t f es \<Longrightarrow> e \<noteq> CloseFd f \<Longrightarrow> authenticated t f (es @ [e])"
  unfolding authenticated_def by fastforce

lemma authenticated_now: "good_peer t p \<Longrightarrow> authenticated t f (es @ [Sys (GetPeerCred f) p])"
  unfolding authenticated_def by fastforce

lemma prefix_taken:
  assumes "begins d rest"
  shows "\<exists>rest'. rest = take k d @ rest'"
proof -
  obtain r where "rest = d @ r" using assms by (rule begins_E)
  then have "rest = take k d @ (drop k d @ r)" by (simp add: append_assoc [symmetric] del: append_assoc)
  then show ?thesis by blast
qed

definition neutral :: "event \<Rightarrow> bool" where
  "neutral e \<longleftrightarrow> (\<forall>f. sent_event f e = [] \<and> read_event f e = [] \<and> e \<noteq> CloseFd f)"

lemma sess_inv_neutral: "sess_inv t req c es \<Longrightarrow> neutral e \<Longrightarrow> sess_inv t req c (es @ [e])"
  by (cases c) (auto simp: neutral_def silent_def authenticated_snoc)

lemma sess_inv_open: "sess_inv t req c es \<Longrightarrow> c = Idle \<or> c = Open f \<Longrightarrow> sess_inv t req Idle es \<and> sess_inv t req (Open g) es"
  by auto

lemma sess_inv_send:
  assumes "sess_inv t req (Authed f s g) es" "begins d (drop (length s) (frame_of req))"
  shows "sess_inv t req (Authed f (s @ sent_event f (Sys (SendFd f d) r)) g) (es @ [Sys (SendFd f d) r])"
proof -
  from assms(1) obtain rest where rest: "frame_of req = s @ rest" by auto
  with assms(2) have "begins d rest" by simp
  then obtain rest' where "rest = take (taken_of d r) d @ rest'" using prefix_taken by blast
  with rest have "\<exists>rest. frame_of req = (s @ sent_event f (Sys (SendFd f d) r)) @ rest" by auto
  then show ?thesis
    using assms(1) by (simp add: authenticated_snoc silent_def)
qed

lemma sess_inv_read:
  assumes "sess_inv t req (Authed f s g) es"
  shows "sess_inv t req (Authed f s (g @ read_event f (Sys (ReadFd f n) r))) (es @ [Sys (ReadFd f n) r])"
  using assms by (simp add: authenticated_snoc silent_def)

lemma sess_inv_peer:
  assumes "sess_inv t req (Open f) es" "good_peer t r"
  shows "sess_inv t req (Authed f [] []) (es @ [Sys (GetPeerCred f) r])"
  using assms by (simp add: authenticated_now silent_def)

lemma sess_inv_step:
  assumes "sess_inv t req c es" "sess t req c e = Some c'"
  shows "sess_inv t req c' (es @ [e])"
proof (cases e)
  case (Sys k r)
  have al: "allowed t req c k" and c': "c' = after_call t c k r"
    using assms(2) Sys by (auto split: if_splits)
  have same: ?thesis if "neutral e" "c' = c" using sess_inv_neutral [OF assms(1)] that by simp
  show ?thesis
  proof (cases k)
    case SocketUnix
    then have "neutral e" "c = Idle" using Sys al by (simp_all add: neutral_def)
    then show ?thesis using sess_inv_neutral [OF assms(1), of e] c' SocketUnix by (simp split: if_splits)
  next
    case (GetPeerCred f)
    then have "neutral e" "c = Open f" using Sys al by (simp_all add: neutral_def)
    then show ?thesis
      using same sess_inv_peer assms(1) c' GetPeerCred Sys by (simp split: if_splits)
  next
    case (SendFd f d)
    then obtain s g where "c = Authed f s g" "begins d (drop (length s) (frame_of req))"
      using al by (auto split: conn.splits)
    then show ?thesis using sess_inv_send [of t req f s g es d r] assms(1) c' SendFd Sys
      by (simp del: sess_inv.simps sent_event.simps)
  next
    case (ReadFd f n)
    then obtain s g where "c = Authed f s g" using al by (auto split: conn.splits)
    then show ?thesis using sess_inv_read [of t req f s g es n r] assms(1) c' ReadFd Sys
      by (simp del: sess_inv.simps read_event.simps)
  qed (use same Sys c' al in \<open>simp_all add: neutral_def\<close>)
next
  case (Blocked k)
  then have "c' = c" "neutral e" using assms(2) by (auto simp: neutral_def split: if_splits)
  then show ?thesis using sess_inv_neutral [OF assms(1)] by simp
next
  case (CloseFd f)
  then show ?thesis using assms by (cases c) (auto simp: silent_def split: if_splits)
qed (use assms(2) in simp_all)

lemma acc_inv: "acc t req Idle es = Some c \<Longrightarrow> sess_inv t req c es"
proof (induction es arbitrary: c rule: rev_induct)
  case (snoc e es)
  then obtain c1 where "acc t req Idle es = Some c1" "sess t req c1 e = Some c"
    by (auto split: option.splits)
  with snoc.IH show ?case by (blast intro: sess_inv_step)
qed (simp add: silent_def)


section \<open>The clock\<close>

lemma tr_ms_left_count:
  "(\<And>r v. P v [Sys ClockGettime r]) \<Longrightarrow> E [Blocked ClockGettime] \<Longrightarrow> tr (ms_left dl) P E"
  unfolding ms_left_def by (intro tr_rules) auto

section \<open>How long a run can be\<close>

lemma effort_ms_left: "effort.within 1 (ms_left dl)"
  unfolding ms_left_def by (rule effort.within_mono, (rule effort_rules)+, simp)

lemma effort_close: "effort.within 0 (close_fail fd e)"
  unfolding close_fail_def by (rule effort.within_mono, (rule effort_rules)+, simp)

lemma tr_ms_left_effort: "(\<And>x es. overhead es \<le> 1 \<Longrightarrow> P x es) \<Longrightarrow> (\<And>es. overhead es \<le> 1 \<Longrightarrow> E es) \<Longrightarrow> tr (ms_left dl) P E"
  using effort.within_tr [OF effort_ms_left] by simp

lemma effort_wait: "effort.within 2 (wait_fd fd ev dl)"
  unfolding wait_fd_def wait_round_def
  by (rule effort.within_loop) (intro tr_rules tr_ms_left_effort; auto)

lemma tr_wait_effort: "(\<And>x es. overhead es \<le> 2 \<Longrightarrow> P x es) \<Longrightarrow> (\<And>es. overhead es \<le> 2 \<Longrightarrow> E es) \<Longrightarrow> tr (wait_fd fd ev dl) P E"
  using effort.within_tr [OF effort_wait] by simp

lemma effort_write: "effort.within 2 (write_full fd buf dl)"
  unfolding write_full_def write_round_def
  by (rule effort.within_loop) (intro tr_rules tr_ms_left_effort tr_wait_effort; auto)

lemma some_bytes: "bytes_of n r \<noteq> [] \<Longrightarrow> 1 \<le> int (length (bytes_of n r))"
  by (cases "bytes_of n r") auto

lemma effort_read: "effort.within 2 (read_full fd n dl)"
  unfolding read_full_def read_round_def
  by (rule effort.within_loop) (intro tr_rules tr_ms_left_effort tr_wait_effort; auto dest!: some_bytes)

lemma effort_connect_loop: "effort.within 6 (io_loop (connect_round path dl) u)"
  unfolding connect_round_def close_fail_def Let_def
  by (rule effort.within_loop) (intro tr_rules tr_ms_left_effort tr_wait_effort; auto)

lemma effort_connect: "effort.within 6 (connect_deadline path dl)"
  unfolding connect_deadline_def
  by (rule effort.within_mono, (rule effort_rules effort_connect_loop)+, simp)

lemma effort_transport: "effort.within 16 (pkgx_transport_run t req)"
  unfolding pkgx_transport_run_def deadline_at_def connect_and_exchange_def exchange_def send_request_def
    read_reply_def read_body_def close_fail_def Let_def
  by (rule effort.within_mono, (rule effort_rules effort_connect effort_write effort_read)+, simp)

section \<open>How much a run can move\<close>

lemma volume_zero: "(\<And>x es. traffic es = 0 \<Longrightarrow> P x es) \<Longrightarrow> (\<And>es. traffic es = 0 \<Longrightarrow> E es) \<Longrightarrow> tr (ms_left dl) P E"
  unfolding ms_left_def by (intro tr_rules) auto

lemma tr_wait_volume: "(\<And>x es. traffic es = 0 \<Longrightarrow> P x es) \<Longrightarrow> (\<And>es. traffic es = 0 \<Longrightarrow> E es) \<Longrightarrow> tr (wait_fd fd ev dl) P E"
  unfolding wait_fd_def wait_round_def
  by (rule tr_loop [where I = "\<lambda>s es. traffic es = 0"]) (auto intro!: tr_rules volume_zero)

lemma volume_write: "volume.within (length buf) (write_full fd buf dl)"
  unfolding write_full_def write_round_def
  by (rule volume.withinI, rule tr_loop [where I = "\<lambda>s es. traffic es = s \<and> s \<le> length buf"])
     (auto simp: taken_of_def intro!: tr_rules volume_zero tr_wait_volume)

lemma volume_read: "volume.within n (read_full fd n dl)"
  unfolding read_full_def read_round_def
  by (rule volume.withinI, rule tr_loop [where I = "\<lambda>s es. traffic es = length s \<and> length s \<le> n"])
     (auto intro!: tr_rules volume_zero tr_wait_volume)

lemma volume_connect: "volume.within 0 (connect_deadline path dl)"
proof -
  have "volume.within 0 (io_loop (connect_round p dl) u)" for p u
    unfolding connect_round_def close_fail_def Let_def
    by (rule volume.within_loop) (intro tr_rules volume_zero tr_wait_volume; auto)
  then show ?thesis unfolding connect_deadline_def by (auto split: option.split intro!: volume.within_return)
qed

lemma volume_note: "is_note e \<Longrightarrow> \<not> is_call e \<Longrightarrow> volume.within 0 (emit e)"
  by (rule volume.withinI, rule tr_emit; cases e; simp)

lemma tr_volume: "volume.within n m \<Longrightarrow> (\<And>x es. traffic es \<le> n \<Longrightarrow> P x es) \<Longrightarrow> (\<And>es. traffic es \<le> n \<Longrightarrow> E es) \<Longrightarrow> tr m P E"
  by (erule volume.within_tr) auto

lemma volume_body: "n \<le> 65536 \<Longrightarrow> volume.within 65536 (read_body fd n dl)"
  unfolding read_body_def close_fail_def
  by (rule volume.withinI) (intro tr_rules tr_volume [OF volume_read]; auto)

lemma volume_reply: "volume.within (5 + 65536) (read_reply fd dl)"
  unfolding read_reply_def close_fail_def Let_def
  by (rule volume.withinI) (intro tr_rules tr_volume [OF volume_read] tr_volume [OF volume_body]; auto)

lemma volume_exchange: "volume.within (5 + length req + (5 + 65536)) (exchange uid fd req dl)"
  unfolding exchange_def send_request_def close_fail_def
  by (rule volume.withinI)
     (intro tr_rules tr_volume [OF volume_write] tr_volume [OF volume_reply]; auto simp: frame_header_def)

lemma volume_transport: "volume.within (5 + length req + (5 + 65536)) (pkgx_transport_run t req)"
  unfolding pkgx_transport_run_def deadline_at_def connect_and_exchange_def Let_def
  by (rule volume.withinI)
     (intro tr_rules tr_volume [OF volume_connect] tr_volume [OF volume_exchange]; auto)

lemma acc_entries: "acc t req c es = Some c' \<Longrightarrow> entries es = 0"
proof (induction es arbitrary: c)
  case (Cons e es)
  then obtain d where d: "sess t req c e = Some d" "acc t req d es = Some c'" by (auto split: option.splits)
  then have "\<not> listed e" by (cases e rule: listed.cases) auto
  with Cons.IH [OF d(2)] show ?case by (simp add: entries_def)
qed (simp add: entries_def)

section \<open>Whole runs\<close>

definition accepted_log :: "transport_cfg \<Rightarrow> string \<Rightarrow> bool \<Rightarrow> event list \<Rightarrow> bool" where
  "accepted_log t req fin es \<longleftrightarrow> (\<exists>c. acc t req Idle es = Some c \<and> (fin \<longrightarrow> fd_of c = None))"

lemma log_accepted: "transport_log t req r es \<Longrightarrow> accepted_log t req True es"
  by (auto simp: transport_log_def accepted_log_def closed_def ends_def split: list.splits event.splits call.splits option.splits)

lemma cut_accepted: "transport_cut t req es \<Longrightarrow> accepted_log t req False es"
  by (auto simp: transport_cut_def accepted_log_def cut_def split: list.splits event.splits call.splits option.splits)

text \<open>After the first reading, silence once the deadline has been seen to pass.\<close>

definition punctual :: "transport_cfg \<Rightarrow> event list \<Rightarrow> bool" where
  "punctual t es \<longleftrightarrow> (case es of
       [] \<Rightarrow> True
     | [Blocked ClockGettime] \<Rightarrow> True
     | Sys ClockGettime r # rest \<Rightarrow> (case clock_of r of
           None \<Rightarrow> rest = [] | Some now \<Rightarrow> stops_after (late (deadline_of t now)) rest)
     | _ \<Rightarrow> False)"

lemma log_punctual: "transport_log t req r es \<Longrightarrow> punctual t es"
  by (auto simp: transport_log_def punctual_def closed_def ends_def split: list.splits event.splits call.splits option.splits)

lemma cut_punctual: "transport_cut t req es \<Longrightarrow> punctual t es"
  by (auto simp: transport_cut_def punctual_def cut_def split: list.splits event.splits call.splits option.splits)

lemma run_log:
  assumes "pkgx_transport_run t req w = (res, w')"
  shows "\<exists>es. later w es w' \<and> accepted_log t req (res \<noteq> None) es \<and> punctual t es"
  using tr_later [OF transport_run_ok, of t req w _ w'] tr_cut_later [OF transport_run_ok, of t req w w']
    assms log_accepted cut_accepted log_punctual cut_punctual by (cases res) fastforce+

section \<open>Errors\<close>

fun is_send :: "event \<Rightarrow> bool" where
  "is_send (Sys (SendFd f d) r) = True"
| "is_send (Blocked (SendFd f d)) = True"
| "is_send e = False"

definition quiet :: "event list \<Rightarrow> bool" where
  "quiet es \<longleftrightarrow> \<not> list_ex is_send es"

lemma quiet_simps [simp]: "quiet []" "quiet (es @ fs) = (quiet es \<and> quiet fs)" "quiet (e # es) = (\<not> is_send e \<and> quiet es)"
  by (auto simp: quiet_def)

text \<open>The reasons before and after the point from which bytes may have left.\<close>

definition EARLY_ERRORS :: "string list" where
  "EARLY_ERRORS = [''request_size'', ''clock'', ''socket_path'', ''socket'', ''connect'', ''deadline'', ''peer'', ''peer_uid'']"

definition LATE_ERRORS :: "string list" where
  "LATE_ERRORS = [''send'', ''deadline'', ''recv'', ''frame_eof'', ''frame_version'', ''frame_toolarge'', ''oom'']"

definition error_log :: "string + 'a \<Rightarrow> event list \<Rightarrow> bool" where
  "error_log r es \<longleftrightarrow> (case r of Inr x \<Rightarrow> True
     | Inl e \<Rightarrow> e \<in> set LATE_ERRORS \<or> (e \<in> set EARLY_ERRORS \<and> quiet es))"

lemma tr_wait_quiet: "(\<And>r es. quiet es \<Longrightarrow> P r es) \<Longrightarrow> (\<And>es. E es) \<Longrightarrow> tr (wait_fd fd ev dl) P E"
  unfolding wait_fd_def
  by (rule tr_loop [where I = "\<lambda>_ es. quiet es"])
     (auto simp: wait_round_def intro!: tr_rules tr_ms_left_count)

lemma tr_connect_quiet:
  assumes "\<And>r es. quiet es \<Longrightarrow> (\<forall>e. r = Inl e \<longrightarrow> e \<in> set EARLY_ERRORS) \<Longrightarrow> P r es" "\<And>es. E es"
  shows "tr (connect_deadline path dl) P E"
proof -
  have "tr (io_loop (connect_round p dl) u) P E" for p u
    by (rule tr_loop [where I = "\<lambda>_ es. quiet es"])
       (auto simp: connect_round_def close_fail_def Let_def EARLY_ERRORS_def assms(2)
         intro!: tr_rules tr_ms_left_count tr_wait_quiet assms(1))
  then show ?thesis
    unfolding connect_deadline_def
    by (auto intro!: tr_rules assms(1) simp: EARLY_ERRORS_def split: option.splits)
qed

definition late_error :: "string + 'a \<Rightarrow> bool" where
  "late_error r \<longleftrightarrow> (case r of Inl e \<Rightarrow> e \<in> set LATE_ERRORS | Inr x \<Rightarrow> True)"

lemma late_error_log: "late_error r \<Longrightarrow> error_log r es"
  by (auto simp: late_error_def error_log_def split: sum.splits)

lemma read_write_late: "late_error (Inl (read_error k))" "late_error (Inl (write_error k))"
  by (simp_all add: late_error_def LATE_ERRORS_def read_error_def write_error_def)

lemma tr_reply_error: "(\<And>r es. late_error r \<Longrightarrow> P r es) \<Longrightarrow> (\<And>es. E es) \<Longrightarrow> tr (read_reply fd dl) P E"
  unfolding read_reply_def read_body_def close_fail_def Let_def
  by (intro tr_rules effort.within_tr [OF effort_read])
     (simp_all add: read_write_late, simp_all add: late_error_def LATE_ERRORS_def)

lemma exchange_errors: "tr (exchange uid fd req dl) (\<lambda>r es. error_log r es) (\<lambda>es. True)"
  unfolding exchange_def send_request_def close_fail_def
  by (intro tr_rules effort.within_tr [OF effort_write] tr_reply_error)
     (simp_all add: late_error_log read_write_late, simp_all add: error_log_def EARLY_ERRORS_def)

lemma transport_errors: "tr (pkgx_transport_run t req) (\<lambda>r es. error_log r es) (\<lambda>es. True)"
  unfolding pkgx_transport_run_def connect_and_exchange_def
  by (intro tr_rules tr_deadline_at tr_connect_quiet tr_mono [OF exchange_errors])
     (auto simp: error_log_def EARLY_ERRORS_def split: sum.splits)

section \<open>As a transport of the redeem client\<close>

definition tx_events :: "transport_cfg \<Rightarrow> string \<Rightarrow> event list \<Rightarrow> bool" where
  "tx_events t body es \<longleftrightarrow> accepted_log t body False es \<and> punctual t es"

definition tx_done :: "transport_cfg \<Rightarrow> string \<Rightarrow> string \<Rightarrow> event list \<Rightarrow> bool" where
  "tx_done t body reply es \<longleftrightarrow> transport_log t body (Inr reply) es"

lemma accepted_weaken: "accepted_log t req b es \<Longrightarrow> accepted_log t req False es"
  by (auto simp: accepted_log_def)

lemma transport_tx_ok:
  "tr (pkgx_transport_tx t body)
    (\<lambda>x es. tx_events t body es \<and> (fst x = 0 \<longrightarrow> (\<exists>r. snd x = Some r \<and> tx_done t body r es)))
    (tx_events t body)"
  unfolding pkgx_transport_tx_def
  by (rule tr_bind, rule tr_mono [OF transport_run_ok])
     (use log_punctual cut_punctual cut_accepted accepted_weaken [OF log_accepted] in
       \<open>auto intro!: tr_rules simp: tx_events_def tx_done_def\<close>)

interpretation broker: redeem_transport "pkgx_transport_tx t" "tx_events t" "tx_done t" for t
  by unfold_locales (rule transport_tx_ok)

section \<open>Properties\<close>

text \<open>C4. The token is never written to an unauthenticated peer: in every run, finished or cut off, a send
on a socket is preceded by a peer-credentials answer for that same socket with exactly the required
uid, the socket has not been closed in between, and the bytes offered continue the request frame
exactly where the bytes already taken end.\<close>

theorem transport_authenticates_first:
  assumes "pkgx_transport_run t req w = (res, w')"
    and "log w' = log w @ us @ e # vs" and "e = Blocked (SendFd f d) \<or> e = Sys (SendFd f d) r"
  shows "(\<exists>xs p ys. us = xs @ Sys (GetPeerCred f) p # ys \<and> r_ret p = 0 \<and> r_nsec p = 12 \<and>
      r_sec p = required_peer_uid t \<and> CloseFd f \<notin> set ys) \<and>
    (\<exists>rest. frame_header (length req) @ req = bytes_sent f us @ d @ rest)"
proof -
  obtain es where "later w es w'" "accepted_log t req (res \<noteq> None) es" using run_log [OF assms(1)] by blast
  with assms(2) obtain c where "acc t req Idle (us @ e # vs) = Some c"
    by (auto simp: later_def accepted_log_def)
  then obtain c1 where c1: "acc t req Idle us = Some c1" "sess t req c1 e \<noteq> None"
    by (auto split: option.splits)
  then have "allowed t req c1 (SendFd f d)" using assms(3) by (auto split: if_splits)
  then obtain s g where c: "c1 = Authed f s g" "begins d (drop (length s) (frame_of req))"
    by (auto split: conn.splits)
  with acc_inv [OF c1(1)] obtain rest where inv: "authenticated t f us" "bytes_sent f us = s" "frame_of req = s @ rest"
    by auto
  with c(2) obtain rest' where "rest = d @ rest'" using begins_E by (metis append_eq_conv_conj)
  with inv have "\<exists>rest. frame_header (length req) @ req = bytes_sent f us @ d @ rest" by (auto simp: frame_of_def)
  with inv(1) show ?thesis by (auto simp: authenticated_def good_peer_def)
qed

text \<open>C27. Success means a complete exchange: the request fits its bounds, the bytes taken by the peer are the
framed request, the bytes read from it are the frame of exactly the body that is returned, the body is
at most 64 KiB, and closing that socket is the last thing that happens.\<close>

theorem transport_delivers:
  assumes "pkgx_transport_run t req w = (Some (Inr body), w')"
  shows "\<exists>es fd. log w' = log w @ es @ [CloseFd fd] \<and> bytes_sent fd es = frame_header (length req) @ req \<and>
    bytes_read fd es = frame_header (length body) @ body \<and> length body \<le> 65536 \<and>
    req \<noteq> [] \<and> length req \<le> 65536"
proof -
  obtain es where es: "later w es w'" "transport_log t req (Inr body) es"
    using tr_later [OF transport_run_ok assms] by blast
  then obtain r rest now where r: "es = Sys ClockGettime r # rest" "req \<noteq> []" "length req \<le> 65536"
    "delivered t req (deadline_of t now) Idle body rest"
    by (auto simp: transport_log_def split: list.splits event.splits call.splits option.splits)
  then obtain fd us where us: "rest = us @ [CloseFd fd]"
    "acc t req Idle us = Some (Authed fd (frame_of req) (frame_of body))" "length body \<le> 65536"
    by (auto simp: delivered_def live_def)
  from acc_inv [OF us(2)] have "bytes_sent fd us = frame_of req" "bytes_read fd us = frame_of body" by simp_all
  then have "bytes_sent fd (Sys ClockGettime r # us) = frame_header (length req) @ req"
    "bytes_read fd (Sys ClockGettime r # us) = frame_header (length body) @ body"
    by (simp_all add: frame_of_def)
  moreover have "log w' = log w @ (Sys ClockGettime r # us) @ [CloseFd fd]"
    using es(1) r(1) us(1) by (simp add: later_def)
  ultimately show ?thesis using r us(3) by blast
qed

text \<open>C28. Refinement: the log of every run, finished or cut off, is a run of the abstract session machine (one
socket at a time, calls only in the states that allow them, nothing after an authenticated socket is
closed), and a run that returns leaves no socket open.\<close>

theorem transport_refines_session:
  assumes "pkgx_transport_run t req w = (res, w')"
  shows "\<exists>es c. log w' = log w @ es \<and> acc t req Idle es = Some c \<and> (res \<noteq> None \<longrightarrow> fd_of c = None)"
  using run_log [OF assms] by (auto simp: later_def accepted_log_def)

text \<open>C29. One absolute deadline: it is the first reading of the clock plus the budget, and once a reading shows
it passed (or the clock fails) no further call is made; progress never extends it.\<close>

theorem transport_punctual:
  assumes "pkgx_transport_run t req w = (res, w')"
  shows "\<exists>es. log w' = log w @ es \<and> (case es of
       [] \<Rightarrow> True
     | [Blocked ClockGettime] \<Rightarrow> True
     | Sys ClockGettime r # rest \<Rightarrow> (case clock_of r of None \<Rightarrow> rest = []
         | Some now \<Rightarrow> stops_after (late (deadline_of t now)) rest)
     | _ \<Rightarrow> False)"
  using run_log [OF assms] unfolding later_def punctual_def by blast

text \<open>C30. The exchange ends, whatever the kernel answers and whatever its clock does: a run makes at most three calls for each byte
of the two frames it can move (the request, its header and a reply of up to 64 KiB with its own), four for each
call that was interrupted, not ready, timed out or refused for a full backlog, and sixteen more; a call that moved nothing is
not repeated otherwise. And a run that has not returned is waiting for an answer.\<close>

theorem transport_returns:
  "\<exists>es. log (snd (pkgx_transport_run t req w)) = log w @ es \<and>
    calls_in es \<le> 4 * retries es + 3 * (length req + 65546) + 16 \<and>
    ((\<exists>r. fst (pkgx_transport_run t req w) = Some r) \<or> answers (snd (pkgx_transport_run t req w)) = [])"
proof -
  obtain res w' where run: "pkgx_transport_run t req w = (res, w')" by (cases "pkgx_transport_run t req w")
  have both: "tr (pkgx_transport_run t req) (\<lambda>x es. overhead es \<le> 16 \<and> traffic es \<le> length req + 65546)
      (\<lambda>es. overhead es \<le> 16 \<and> traffic es \<le> length req + 65546)"
    by (rule tr_mono [OF tr_both [OF effort_transport [unfolded effort.within_def] volume_transport [unfolded volume.within_def]]]) auto
  from tr_run [OF this run] obtain es where es: "log w' = log w @ es" "overhead es \<le> 16" "traffic es \<le> length req + 65546"
    by blast
  have "entries es = 0"
    using run_log [OF run] es(1) acc_entries unfolding later_def accepted_log_def by fastforce
  then have "calls_in es \<le> 4 * retries es + 3 * (length req + 65546) + 16"
    using es(2,3) by (simp add: overhead_def)
  moreover have "(\<exists>r. res = Some r) \<or> answers w' = []"
    using ct_None [OF ct_transport, of t req w w'] run by (cases res) auto
  ultimately show ?thesis using es(1) run by auto
qed

text \<open>C31. A failure names one of the fourteen documented reasons, and every reason up to and including the
check of the peer means that not a single byte was offered to anyone.\<close>

theorem transport_error_meaning:
  assumes "pkgx_transport_run t req w = (Some (Inl e), w')"
  shows "\<exists>es. log w' = log w @ es \<and>
    (e \<in> {''send'', ''deadline'', ''recv'', ''frame_eof'', ''frame_version'', ''frame_toolarge'', ''oom''} \<or>
     e \<in> {''request_size'', ''clock'', ''socket_path'', ''socket'', ''connect'', ''deadline'', ''peer'', ''peer_uid''} \<and>
     \<not> list_ex is_send es)"
  using tr_returns [OF transport_errors assms]
  by (auto simp: error_log_def EARLY_ERRORS_def LATE_ERRORS_def quiet_def)

text \<open>Frames round-trip: the length written into a header is the one read back, for every 32-bit length,
and a received header is the one a sender of that length would have written.\<close>

theorem frame_header_roundtrip:
  "(n < 4294967296 \<longrightarrow> unat (reply_length (frame_header n)) = n) \<and>
   (length h = 5 \<and> h ! 0 = char_of (1 :: nat) \<longrightarrow> frame_header (unat (reply_length h)) = h)"
  using reply_length_header [of n] frame_header_reply [of h] by simp

section \<open>A concrete exchange\<close>

text \<open>A broker that answers \<open>ok\<close> to \<open>hi\<close> within four of five milliseconds; nineteen answers are left.\<close>

definition ex_cfg :: transport_cfg where
  "ex_cfg = \<lparr>socket_path = Some ''/run/b'', required_peer_uid = 0, timeout_ms = 5\<rparr>"

definition at_ms :: "int \<Rightarrow> reply" where
  "at_ms k = \<lparr>r_ret = 0, r_errno = EOther, r_data = [], r_sec = 0, r_nsec = k * 1000000, r_pkgs = [], r_sources = []\<rparr>"

definition root_peer :: reply where
  "root_peer = \<lparr>r_ret = 0, r_errno = EOther, r_data = [], r_sec = 0, r_nsec = 12, r_pkgs = [], r_sources = []\<rparr>"

definition ex_answers :: "reply list" where
  "ex_answers = [at_ms 0, ok_reply 3 [] 0, ok_reply 0 [] 0, root_peer, at_ms 1, ok_reply 5 [] 0, at_ms 2,
     ok_reply 2 [] 0, at_ms 3, ok_reply 5 (frame_header 2) 0, at_ms 4, ok_reply 2 ''ok'' 0]"

definition ex_events :: "event list" where
  "ex_events = [Sys ClockGettime (at_ms 0), Sys SocketUnix (ok_reply 3 [] 0),
     Sys (ConnectUnix 3 ''/run/b'') (ok_reply 0 [] 0), Sys (GetPeerCred 3) root_peer,
     Sys ClockGettime (at_ms 1), Sys (SendFd 3 (frame_header 2)) (ok_reply 5 [] 0),
     Sys ClockGettime (at_ms 2), Sys (SendFd 3 ''hi'') (ok_reply 2 [] 0),
     Sys ClockGettime (at_ms 3), Sys (ReadFd 3 5) (ok_reply 5 (frame_header 2) 0),
     Sys ClockGettime (at_ms 4), Sys (ReadFd 3 2) (ok_reply 2 ''ok'' 0), CloseFd 3]"

lemma header_facts [simp]: "length (frame_header n) = 5" "frame_header n ! 0 = char_of (1 :: nat)"
  "frame_header n \<noteq> []"
  by (simp_all add: frame_header_def)

lemma two_bytes: "unat (reply_length (frame_header 2)) = 2"
  by (rule reply_length_header) simp

lemma ex_transport_run:
  "pkgx_transport_run ex_cfg ''hi'' (script (ex_answers @ rs)) =
     (Some (Inr ''ok''), \<lparr>answers = rs, log = ex_events, aorc = (\<lambda>_. True), acnt = 1\<rparr>)"
  by (simp add: io_run pkgx_transport_run_def deadline_at_def connect_and_exchange_def connect_deadline_def
    connect_round_def exchange_def send_request_def write_full_def write_round_def read_reply_def read_full_def
    read_round_def read_body_def ms_left_def time_left_def two_bytes ex_cfg_def ex_answers_def ex_events_def at_ms_def
    root_peer_def flip: numeral_2_eq_2)

lemma ex_log: "log (script rs) = []" "answers (script rs) = rs"
  by (simp_all add: script_def)

theorem transport_authenticates_first_witness:
  "\<exists>rest. frame_header 2 @ ''hi'' = bytes_sent 3 (take 7 ex_events) @ ''hi'' @ rest"
proof -
  have "\<exists>rest. frame_header (length ''hi'') @ ''hi'' = bytes_sent 3 (take 7 ex_events) @ ''hi'' @ rest"
    using transport_authenticates_first [OF ex_transport_run [of "[]"],
        where us = "take 7 ex_events" and f = 3 and d = "''hi''" and r = "ok_reply 2 [] 0"
          and e = "Sys (SendFd 3 ''hi'') (ok_reply 2 [] 0)" and vs = "drop 8 ex_events"]
    by (simp add: ex_log ex_events_def)
  then show ?thesis by (simp flip: numeral_2_eq_2)
qed

theorem transport_delivers_witness: "\<exists>es fd. ex_events = es @ [CloseFd fd] \<and>
    bytes_read fd es = frame_header (length ''ok'') @ ''ok''"
  using transport_delivers [OF ex_transport_run [of "[]"]] by (auto simp: ex_log)

theorem transport_refines_session_witness: "\<exists>c. acc ex_cfg ''hi'' Idle ex_events = Some c \<and> fd_of c = None"
  using transport_refines_session [OF ex_transport_run [of "[]"]] by (auto simp: ex_log)

theorem transport_punctual_witness: "stops_after (late (deadline_of ex_cfg (0, 0))) (tl ex_events)"
  using transport_punctual [OF ex_transport_run [of "[]"]]
  by (auto simp: ex_log ex_events_def clock_of_def at_ms_def)

text \<open>A request too large for a frame.\<close>

theorem transport_error_meaning_witness:
  "\<exists>es. log (snd (pkgx_transport_run ex_cfg [] (script []))) = es \<and> \<not> list_ex is_send es"
proof -
  have "pkgx_transport_run ex_cfg [] (script []) = (Some (Inl ''request_size''), script [])"
    by (simp add: pkgx_transport_run_def ireturn_def)
  from transport_error_meaning [OF this] this show ?thesis by (auto simp: ex_log)
qed

theorem frame_header_roundtrip_witness:
  "unat (reply_length (frame_header 70000)) = 70000 \<and>
   frame_header (unat (reply_length (frame_header 3))) = frame_header 3"
  using frame_header_roundtrip [of 70000 "frame_header 3"] by simp

end
