(* ===== verification/Spawn.thy ===== *)
theory Spawn
  imports Os
begin

text \<open>
  Running a child program without a shell, from \<open>src/spawn.c\<close>, and the write loop that
  \<open>src/result.c\<close> shares with it in all but name. The inherited environment is an argument. A
  \<open>NULL\<close>-terminated array is a list.
\<close>

unbundle bit_operations_syntax

section \<open>Writing in full\<close>

text \<open>The loop state is the offset; the loop ends with the error flag of the result channel (0, or
-1 where the source breaks) and the offset reached.\<close>

definition push_round :: "int \<Rightarrow> string \<Rightarrow> nat \<Rightarrow> (nat + (int \<times> nat)) io" where
  "push_round fd buf off =
     (if \<not> off < length buf then leave (0, off)
      else ibind (write_fd fd (drop off buf)) (\<lambda>w. case w of
          Inl e \<Rightarrow> if e = EINTR then again off else leave (-1, off)
        | Inr w \<Rightarrow> if w = 0 then leave (-1, off) else again (off + w)))"

definition push :: "int \<Rightarrow> string \<Rightarrow> (int \<times> nat) io" where
  "push fd buf = io_loop (push_round fd buf) 0"

section \<open>The child\<close>

definition build_child_env :: "string list \<Rightarrow> string list \<Rightarrow> string list option io" where
  "build_child_env environ extra_env =
     ibind (allocating aalloc) (\<lambda>m. case m of
         None \<Rightarrow> ireturn None
       | Some u \<Rightarrow> ireturn (Some (extra_env @ environ)))"

text \<open>The environment of the child; without extra entries the inherited one, not allocated.\<close>

definition child_environment :: "string list \<Rightarrow> string list option \<Rightarrow> string list option io" where
  "child_environment environ extra_env =
     (case extra_env of None \<Rightarrow> ireturn (Some environ) | Some extra \<Rightarrow> build_child_env environ extra)"

definition close_pipe :: "int \<times> int \<Rightarrow> unit io" where
  "close_pipe p = ibind (emit (CloseFd (fst p))) (\<lambda>_. emit (CloseFd (snd p)))"

text \<open>\<open>pipe(in)\<close> when there is an input; \<open>None\<close> is failure.\<close>

definition open_pipe :: "string option \<Rightarrow> (int \<times> int) option option io" where
  "open_pipe input =
     (case input of
        None \<Rightarrow> ireturn (Some None)
      | Some s \<Rightarrow> ibind (syscall (Proc PipePair)) (\<lambda>r.
          if r_ret r \<noteq> 0 then ireturn None else ireturn (Some (Some (r_sec r, r_nsec r)))))"

text \<open>The file actions that make the pipe the child's standard input; the first failure ends them.\<close>

definition add_actions :: "int \<times> int \<Rightarrow> bool io" where
  "add_actions p =
     ibind (syscall (Proc (ActionsDup2 (fst p) 0))) (\<lambda>r1.
       if r_ret r1 \<noteq> 0 then ireturn False
       else ibind (syscall (Proc (ActionsClose (fst p)))) (\<lambda>r2.
         if r_ret r2 \<noteq> 0 then ireturn False
         else ibind (syscall (Proc (ActionsClose (snd p)))) (\<lambda>r3. ireturn (r_ret r3 = 0))))"

definition file_actions :: "(int \<times> int) option \<Rightarrow> bool io" where
  "file_actions pipes =
     ibind (syscall (Proc ActionsInit)) (\<lambda>r. case pipes of
         None \<Rightarrow> ireturn (r_ret r = 0)
       | Some p \<Rightarrow>
           if r_ret r \<noteq> 0 then ibind (close_pipe p) (\<lambda>_. ireturn False)
           else ibind (add_actions p) (\<lambda>ok.
             if ok then ireturn True else ibind (close_pipe p) (\<lambda>_. ireturn False)))"

text \<open>Deliver the payload with \<open>SIGPIPE\<close> ignored, close the write end, restore the handler.\<close>

definition deliver :: "int \<Rightarrow> string \<Rightarrow> bool io" where
  "deliver fd input =
     ibind (syscall (Sigpipe True)) (\<lambda>s.
       if r_ret s \<noteq> 0 then ibind (emit (CloseFd fd)) (\<lambda>_. ireturn False)
       else ibind (push fd (cstr input)) (\<lambda>p.
         ibind (emit (CloseFd fd)) (\<lambda>_.
         ibind (syscall (Sigpipe False)) (\<lambda>r.
           ireturn (snd p = strlen input \<and> r_ret r = 0)))))"

text \<open>\<open>WIFEXITED\<close> and \<open>WEXITSTATUS (status) == 0\<close>.\<close>

definition exited_zero :: "int \<Rightarrow> bool" where
  "exited_zero status \<longleftrightarrow> status AND 0x7F = 0 \<and> drop_bit 8 (status AND 0xFF00) = 0"

definition wait_child_round :: "int \<Rightarrow> unit \<Rightarrow> (unit + (int \<times> int)) io" where
  "wait_child_round pid u =
     ibind (syscall (Proc (Waitpid pid))) (\<lambda>r.
       if r_ret r < 0 \<and> r_errno r = EINTR then again () else leave (r_ret r, r_sec r))"

definition wait_child :: "int \<Rightarrow> bool \<Rightarrow> int io" where
  "wait_child pid deliver_ok =
     ibind (io_loop (wait_child_round pid) ()) (\<lambda>(w, status).
       if w \<noteq> pid then ireturn (-1)
       else ireturn (if exited_zero status \<and> deliver_ok then 0 else -1))"

text \<open>From \<open>posix_spawn\<close> on. \<open>r_sec\<close> is the child's pid. The result is the return value and \<open>*started\<close>.\<close>

definition run_child ::
  "string list \<Rightarrow> string list \<Rightarrow> string option \<Rightarrow> (int \<times> int) option \<Rightarrow> (int \<times> bool) io" where
  "run_child argv env input pipes =
     ibind (syscall (Proc (PosixSpawn argv env))) (\<lambda>sp.
     ibind (case pipes of None \<Rightarrow> ireturn () | Some p \<Rightarrow> emit (CloseFd (fst p))) (\<lambda>_.
       if r_ret sp \<noteq> 0 then
         ibind (case pipes of None \<Rightarrow> ireturn () | Some p \<Rightarrow> emit (CloseFd (snd p))) (\<lambda>_. ireturn (-1, False))
       else ibind (case (input, pipes) of (Some s, Some p) \<Rightarrow> deliver (snd p) s | _ \<Rightarrow> ireturn True) (\<lambda>deliver_ok.
         ibind (wait_child (r_sec sp) deliver_ok) (\<lambda>rc. ireturn (rc, True)))))"

definition pkgx_spawn_wait_env ::
  "string list \<Rightarrow> string list \<Rightarrow> string option \<Rightarrow> string list option \<Rightarrow> (int \<times> bool) io" where
  "pkgx_spawn_wait_env environ argv input extra_env =
     (if argv = [] then ireturn (-1, False)
      else ibind (child_environment environ extra_env) (\<lambda>env. case env of
          None \<Rightarrow> ireturn (-1, False)
        | Some env \<Rightarrow> ibind (open_pipe input) (\<lambda>pipes. case pipes of
              None \<Rightarrow> ireturn (-1, False)
            | Some pipes \<Rightarrow> ibind (file_actions pipes) (\<lambda>ok.
                if \<not> ok then ireturn (-1, False) else run_child argv env input pipes))))"

definition pkgx_spawn_wait :: "string list \<Rightarrow> string list \<Rightarrow> string option \<Rightarrow> (int \<times> bool) io" where
  "pkgx_spawn_wait environ argv input = pkgx_spawn_wait_env environ argv input None"

end
