(* ===== verification/Spawn_Proofs.thy ===== *)
theory Spawn_Proofs
  imports Spawn
begin

text \<open>What a spawn leaves behind: which child was started, what it was fed, which descriptors are
still open, and that a broken pipe never kills the helper.\<close>

section \<open>Reading the log of a spawn\<close>

fun spawn_event :: "event \<Rightarrow> (string list \<times> string list \<times> bool) list" where
  "spawn_event (Sys (Proc (PosixSpawn argv env)) r) = [(argv, env, r_ret r = 0)]"
| "spawn_event e = []"

fun pipe_event :: "event \<Rightarrow> int list" where
  "pipe_event (Sys (Proc PipePair) r) = (if r_ret r = 0 then [r_sec r, r_nsec r] else [])"
| "pipe_event e = []"

fun close_event :: "event \<Rightarrow> int list" where
  "close_event (CloseFd f) = [f]"
| "close_event e = []"

definition spawns :: "event list \<Rightarrow> (string list \<times> string list \<times> bool) list" where
  "spawns es = concat (map spawn_event es)"

definition pipes_opened :: "event list \<Rightarrow> int list" where
  "pipes_opened es = concat (map pipe_event es)"

definition fds_closed :: "event list \<Rightarrow> int list" where
  "fds_closed es = concat (map close_event es)"

text \<open>\<open>SIGPIPE\<close> is ignored during every write, and the handler is put back: the automaton of the mask.\<close>

fun sig_step :: "event \<Rightarrow> bool \<Rightarrow> bool option" where
  "sig_step (Sys (Sigpipe True) r) b = Some (r_ret r = 0 \<or> b)"
| "sig_step (Sys (Sigpipe False) r) b = Some False"
| "sig_step (Sys (WriteFd f d) r) b = (if b then Some True else None)"
| "sig_step (Blocked (WriteFd f d)) b = (if b then Some True else None)"
| "sig_step e b = Some b"

fun sig_mask :: "bool \<Rightarrow> event list \<Rightarrow> bool option" where
  "sig_mask b [] = Some b"
| "sig_mask b (e # es) = (case sig_step e b of None \<Rightarrow> None | Some b \<Rightarrow> sig_mask b es)"

lemma sig_mask_append [simp]: "sig_mask b (es @ fs) = (case sig_mask b es of None \<Rightarrow> None | Some b \<Rightarrow> sig_mask b fs)"
  by (induction es arbitrary: b) (auto split: option.split)

lemma spawn_log_simps [simp]:
  "spawns [] = []" "spawns (es @ fs) = spawns es @ spawns fs" "spawns (e # fs) = spawn_event e @ spawns fs"
  "pipes_opened [] = []" "pipes_opened (es @ fs) = pipes_opened es @ pipes_opened fs"
  "pipes_opened (e # fs) = pipe_event e @ pipes_opened fs"
  "fds_closed [] = []" "fds_closed (es @ fs) = fds_closed es @ fds_closed fs"
  "fds_closed (e # fs) = close_event e @ fds_closed fs"
  by (simp_all add: spawns_def pipes_opened_def fds_closed_def)

text \<open>A stretch that starts no child and opens or closes nothing.\<close>

definition plain :: "event list \<Rightarrow> bool" where
  "plain es \<longleftrightarrow> spawns es = [] \<and> pipes_opened es = [] \<and> fds_closed es = []"

section \<open>Writing\<close>

definition pushed :: "int \<Rightarrow> string \<Rightarrow> nat \<Rightarrow> event list \<Rightarrow> bool" where
  "pushed fd buf off es \<longleftrightarrow> off \<le> length buf \<and> plain es \<and> bytes_written fd es = take off buf \<and>
     sig_mask True es = Some True"

lemma pushed_start: "pushed fd buf 0 []"
  by (simp add: pushed_def plain_def)

lemma push_round_ok:
  assumes "pushed fd buf off es"
  shows "tr (push_round fd buf off)
    (\<lambda>r fs. case r of Inl off' \<Rightarrow> pushed fd buf off' (es @ fs)
       | Inr x \<Rightarrow> pushed fd buf (snd x) (es @ fs) \<and> (fst x = 0 \<longleftrightarrow> snd x = length buf))
    (\<lambda>fs. \<exists>off. pushed fd buf off (es @ fs))"
proof -
  have more: "take off buf @ take (taken_of (drop off buf) r) (drop off buf) = take (off + taken_of (drop off buf) r) buf" for r
    by (simp add: take_add)
  have le: "off + taken_of (drop off buf) r \<le> length buf" if "off \<le> length buf" for r
    using that unfolding taken_of_def length_drop by linarith
  show ?thesis
    unfolding push_round_def
    by (intro tr_rules) (use assms more le in \<open>auto simp: pushed_def plain_def intro: less_imp_le\<close>)
qed

lemma push_ok:
  "tr (push fd buf) (\<lambda>x es. pushed fd buf (snd x) es \<and> (fst x = 0 \<longleftrightarrow> snd x = length buf))
     (\<lambda>es. \<exists>off. pushed fd buf off es)"
  unfolding push_def
  by (rule tr_loop [where I = "pushed fd buf"]) (use pushed_start push_round_ok in blast)+

text \<open>Writing with the mask on, as a rule.\<close>

lemma tr_push:
  assumes "\<And>rc off es. pushed fd buf off es \<Longrightarrow> (rc = 0 \<longleftrightarrow> off = length buf) \<Longrightarrow> P (rc, off) es"
    and "\<And>off es. pushed fd buf off es \<Longrightarrow> E es"
  shows "tr (push fd buf) P E"
proof (rule tr_mono [OF push_ok])
  fix x :: "int \<times> nat" and es
  assume "pushed fd buf (snd x) es \<and> (fst x = 0 \<longleftrightarrow> snd x = length buf)"
  then show "P x es" using assms(1) [of "snd x" es "fst x"] by simp
qed (use assms(2) in blast)

section \<open>The child\<close>

text \<open>The child got a prefix of its input.\<close>

definition part_of :: "string \<Rightarrow> string \<Rightarrow> bool" where
  "part_of t s \<longleftrightarrow> (\<exists>off. t = take off s)"

lemma part_of_simps [simp]: "part_of s s" "part_of [] s" "part_of (take off s) s"
proof -
  show "part_of s s" unfolding part_of_def by (rule exI [of _ "length s"]) simp
  show "part_of [] s" unfolding part_of_def by (rule exI [of _ 0]) simp
qed (auto simp: part_of_def)

definition delivered_to :: "int \<Rightarrow> string \<Rightarrow> bool \<Rightarrow> event list \<Rightarrow> bool" where
  "delivered_to fd s ok es \<longleftrightarrow> spawns es = [] \<and> pipes_opened es = [] \<and> fds_closed es = [fd] \<and>
     sig_mask False es = Some False \<and> part_of (bytes_written fd es) (cstr s) \<and>
     (ok \<longrightarrow> bytes_written fd es = cstr s)"

definition unmasked :: "event list \<Rightarrow> bool" where
  "unmasked es \<longleftrightarrow> sig_mask False es \<noteq> None"

lemma deliver_trace:
  "tr (deliver fd s) (\<lambda>ok es. delivered_to fd s ok es) (\<lambda>es. spawns es = [] \<and> unmasked es)"
  unfolding deliver_def
  by (intro tr_rules tr_push) (auto simp: delivered_to_def pushed_def plain_def unmasked_def strlen_def)

text \<open>Events that neither start, open, close nor write anything.\<close>

definition quiet_wait :: "event list \<Rightarrow> bool" where
  "quiet_wait es \<longleftrightarrow> plain es \<and> (\<forall>b. sig_mask b es = Some b) \<and> (\<forall>f. bytes_written f es = [])"

fun child_exit :: "int \<Rightarrow> event \<Rightarrow> bool" where
  "child_exit pid (Sys (Proc (Waitpid p)) r) = (p = pid \<and> r_ret r = pid \<and> exited_zero (r_sec r))"
| "child_exit pid e = False"

lemma wait_child_trace:
  "tr (wait_child pid ok) (\<lambda>rc es. quiet_wait es \<and> es \<noteq> [] \<and> rc \<in> {0, -1} \<and>
      (rc = 0 \<longleftrightarrow> ok \<and> child_exit pid (last es))) quiet_wait"
proof -
  have "tr (io_loop (wait_child_round pid) ())
      (\<lambda>x es. quiet_wait es \<and> es \<noteq> [] \<and> (\<exists>r. last es = Sys (Proc (Waitpid pid)) r \<and> x = (r_ret r, r_sec r))) quiet_wait"
    by (rule tr_loop [where I = "\<lambda>_. quiet_wait"])
       (auto simp: wait_child_round_def quiet_wait_def plain_def intro!: tr_rules)
  then show ?thesis
    unfolding wait_child_def by (rule tr_bind_seq) (auto intro!: tr_rules split: if_splits)
qed

lemma tr_wait_child:
  assumes "\<And>rc es. quiet_wait es \<Longrightarrow> es \<noteq> [] \<Longrightarrow> rc \<in> {0, -1} \<Longrightarrow>
      (rc = 0 \<longleftrightarrow> ok \<and> child_exit pid (last es)) \<Longrightarrow> P rc es" "\<And>es. quiet_wait es \<Longrightarrow> E es"
  shows "tr (wait_child pid ok) P E"
  by (rule tr_mono [OF wait_child_trace]) (use assms in blast)+

lemma tr_deliver:
  assumes "\<And>ok es. delivered_to fd s ok es \<Longrightarrow> P ok es" "\<And>es. spawns es = [] \<Longrightarrow> unmasked es \<Longrightarrow> E es"
  shows "tr (deliver fd s) P E"
  by (rule tr_mono [OF deliver_trace]) (use assms in blast)+

section \<open>The whole spawn\<close>

text \<open>The pipe was opened for an input, and only then.\<close>

definition piped :: "string option \<Rightarrow> (int \<times> int) option \<Rightarrow> event list \<Rightarrow> bool" where
  "piped input pipes es \<longleftrightarrow> pipes_opened es = (case pipes of None \<Rightarrow> [] | Some (a, b) \<Rightarrow> [a, b]) \<and>
     (pipes = None \<longleftrightarrow> input = None)"

definition spawn_log :: "string list \<Rightarrow> string list \<Rightarrow> string option \<Rightarrow> int \<times> bool \<Rightarrow> event list \<Rightarrow> bool" where
  "spawn_log argv env input = (\<lambda>(rc, started) es.
     rc \<in> {0, -1} \<and>
     (started \<longleftrightarrow> spawns es = [(argv, env, True)]) \<and>
     (\<not> started \<longrightarrow> spawns es \<in> {[], [(argv, env, False)]} \<and> (\<forall>f. bytes_written f es = [])) \<and>
     mset (fds_closed es) = mset (pipes_opened es) \<and> sig_mask False es = Some False \<and>
     (\<forall>s. input = Some s \<and> started \<longrightarrow> (\<exists>a b. pipes_opened es = [a, b] \<and> part_of (bytes_written b es) (cstr s))) \<and>
     (rc = 0 \<longrightarrow> started \<and> (\<exists>pid. child_exit pid (last es)) \<and>
        (\<forall>s. input = Some s \<longrightarrow> (\<exists>a b. pipes_opened es = [a, b] \<and> bytes_written b es = cstr s))))"

text \<open>A run that has not returned.\<close>

definition spawn_cut :: "string list \<Rightarrow> string list \<Rightarrow> event list \<Rightarrow> bool" where
  "spawn_cut argv env es \<longleftrightarrow> spawns es \<in> {[], [(argv, env, False)], [(argv, env, True)]} \<and> unmasked es"

lemmas child_log_defs = quiet_wait_def plain_def spawn_log_def spawn_cut_def unmasked_def delivered_to_def

lemma run_child_trace:
  assumes "(pipes = None) = (input = None)"
    and "spawns es = []" "fds_closed es = []" "\<And>f. bytes_written f es = []" "sig_mask False es = Some False"
    and "pipes_opened es = (case pipes of None \<Rightarrow> [] | Some p \<Rightarrow> [fst p, snd p])"
  shows "tr (run_child argv env input pipes) (\<lambda>x fs. spawn_log argv env input x (es @ fs)) (\<lambda>fs. spawn_cut argv env (es @ fs))"
proof (cases pipes)
  case None
  with assms(1) have "input = None" by simp
  then show ?thesis
    unfolding run_child_def None option.case prod.case
    by (intro tr_rules tr_wait_child) (use assms None in \<open>auto simp: child_log_defs\<close>)
next
  case (Some p)
  with assms(1) obtain s a b where i: "input = Some s" "p = (a, b)" by (cases input; cases p) auto
  then show ?thesis
    unfolding run_child_def Some i option.case prod.case fst_conv snd_conv
    by (intro tr_rules tr_wait_child tr_deliver) (use assms Some i in \<open>auto simp: child_log_defs\<close>)
qed

text \<open>The environment the child gets.\<close>

definition child_env :: "string list \<Rightarrow> string list option \<Rightarrow> string list" where
  "child_env environ extra_env = (case extra_env of None \<Rightarrow> environ | Some extra \<Rightarrow> extra @ environ)"

lemma tr_child_environment:
  "P None [] \<Longrightarrow> P (Some (child_env environ extra)) [] \<Longrightarrow> tr (child_environment environ extra) P E"
  unfolding child_environment_def build_child_env_def
  by (intro tr_rules) (auto simp: child_env_def)

fun ends_of :: "(int \<times> int) option \<Rightarrow> int list" where
  "ends_of None = []"
| "ends_of (Some (a, b)) = [a, b]"

text \<open>Before the child: nothing written, no child, the pipe open and perhaps closed again.\<close>

definition prepared :: "int list \<Rightarrow> int list \<Rightarrow> event list \<Rightarrow> bool" where
  "prepared opened closed es \<longleftrightarrow> spawns es = [] \<and> pipes_opened es = opened \<and> fds_closed es = closed \<and>
     (\<forall>f. bytes_written f es = []) \<and> sig_mask False es = Some False"

lemma prepared_nil: "prepared [] [] []"
  by (simp add: prepared_def)

lemma prepared_append: "prepared p c es \<Longrightarrow> prepared q d fs \<Longrightarrow> prepared (p @ q) (c @ d) (es @ fs)"
  by (simp add: prepared_def)

lemma open_pipe_trace:
  "tr (open_pipe input) (\<lambda>r es. case r of
       None \<Rightarrow> prepared [] [] es
     | Some pipes \<Rightarrow> prepared (ends_of pipes) [] es \<and> (pipes = None \<longleftrightarrow> input = None)) (prepared [] [])"
  unfolding open_pipe_def by (intro tr_rules) (auto simp: prepared_def)

lemma file_actions_trace:
  "tr (file_actions pipes) (\<lambda>ok es. prepared [] (if ok then [] else ends_of pipes) es) (prepared [] [])"
  unfolding file_actions_def add_actions_def close_pipe_def
  by (intro tr_rules) (auto simp: prepared_def)

lemma prepared_refused: "prepared p c es \<Longrightarrow> mset p = mset c \<Longrightarrow> spawn_log argv env input (-1, False) es"
  by (auto simp: prepared_def spawn_log_def)

lemma prepared_cut: "prepared p c es \<Longrightarrow> spawn_cut argv env es"
  by (auto simp: prepared_def spawn_cut_def unmasked_def)

lemma spawn_trace:
  "tr (pkgx_spawn_wait_env environ argv input extra)
     (spawn_log argv (child_env environ extra) input) (spawn_cut argv (child_env environ extra))"
proof -
  define env where "env = child_env environ extra"
  have child: "tr (run_child argv env input pipes) (\<lambda>x hs. spawn_log argv env input x (fs @ hs))
      (\<lambda>hs. spawn_cut argv env (fs @ hs))"
    if "prepared (ends_of pipes) [] fs" "pipes = None \<longleftrightarrow> input = None" for pipes fs
    by (rule run_child_trace) (use that in \<open>auto simp: prepared_def split: option.split\<close>)
  have actions: "tr (ibind (file_actions pipes) (\<lambda>ok. if \<not> ok then ireturn (-1, False) else run_child argv env input pipes))
      (\<lambda>x gs. spawn_log argv env input x (fs @ gs)) (\<lambda>gs. spawn_cut argv env (fs @ gs))"
    if fs: "prepared (ends_of pipes) [] fs" and "pipes = None \<longleftrightarrow> input = None" for pipes fs
  proof (rule tr_bind_seq, rule tr_mono [OF file_actions_trace])
    show "spawn_cut argv env (fs @ gs)" if "prepared [] [] gs" for gs
      using prepared_append [OF fs that] by (rule prepared_cut)
  next
    fix ok gs assume gs: "prepared [] (if ok then [] else ends_of pipes) gs"
    show "tr (if \<not> ok then ireturn (-1, False) else run_child argv env input pipes)
        (\<lambda>x hs. spawn_log argv env input x (fs @ gs @ hs)) (\<lambda>hs. spawn_cut argv env (fs @ gs @ hs))"
    proof (cases ok)
      case True
      with prepared_append [OF fs gs] child [of pipes "fs @ gs"] that(2) show ?thesis by simp
    next
      case False
      with prepared_append [OF fs gs] show ?thesis by (auto intro!: tr_rules prepared_refused)
    qed
  qed
  have main: "tr (ibind (open_pipe input) (\<lambda>pipes. case pipes of
        None \<Rightarrow> ireturn (-1, False)
      | Some pipes \<Rightarrow> ibind (file_actions pipes) (\<lambda>ok.
          if \<not> ok then ireturn (-1, False) else run_child argv env input pipes)))
      (spawn_log argv env input) (spawn_cut argv env)"
  proof (rule tr_bind_seq [OF open_pipe_trace [THEN tr_mono]])
    fix pipes fs
    assume "case pipes of None \<Rightarrow> prepared [] [] fs
        | Some pipes \<Rightarrow> prepared (ends_of pipes) [] fs \<and> (pipes = None \<longleftrightarrow> input = None)"
    then show "tr (case pipes of None \<Rightarrow> ireturn (-1, False)
        | Some pipes \<Rightarrow> ibind (file_actions pipes) (\<lambda>ok.
            if \<not> ok then ireturn (-1, False) else run_child argv env input pipes))
        (\<lambda>x gs. spawn_log argv env input x (fs @ gs)) (\<lambda>gs. spawn_cut argv env (fs @ gs))"
      by (cases pipes) (auto intro!: tr_return actions prepared_refused)
  qed (auto intro: prepared_cut)
  show ?thesis
    unfolding pkgx_spawn_wait_env_def env_def [symmetric]
    by (rule tr_if, rule tr_return, rule prepared_refused [OF prepared_nil], simp,
        rule tr_bind, rule tr_child_environment)
       (auto simp: prepared_refused [OF prepared_nil] main env_def [symmetric] intro!: tr_return)
qed

section \<open>Properties\<close>

text \<open>C32. What \<open>pkgx_spawn_wait_env\<close> returns is what happened: \<open>started\<close> says exactly whether the one
\<open>posix_spawn\<close>, of this program with the extra entries in front of the inherited environment, succeeded;
success means that the child was reaped with exit status 0 and, when there was an input, was handed all
of it; without a child nothing was written. Every end of the pipe is closed again, every write was made
with \<open>SIGPIPE\<close> ignored, and the handler was put back.\<close>

theorem spawn_outcome:
  assumes "pkgx_spawn_wait_env environ argv input extra w = (Some (rc, started), w')"
  shows "\<exists>es. log w' = log w @ es \<and> rc \<in> {0, -1} \<and>
     (started \<longleftrightarrow> spawns es = [(argv, child_env environ extra, True)]) \<and>
     (\<not> started \<longrightarrow> spawns es \<in> {[], [(argv, child_env environ extra, False)]} \<and> (\<forall>f. bytes_written f es = [])) \<and>
     mset (fds_closed es) = mset (pipes_opened es) \<and> sig_mask False es = Some False \<and>
     (rc = 0 \<longrightarrow> started \<and> (\<exists>pid. child_exit pid (last es)) \<and>
        (\<forall>s. input = Some s \<longrightarrow> (\<exists>a b. pipes_opened es = [a, b] \<and> bytes_written b es = cstr s)))"
  using tr_returns [OF spawn_trace assms] unfolding spawn_log_def by blast

text \<open>A child fed two bytes, in two writes, that exits with status 0.\<close>

definition ex_child :: "reply list" where
  "ex_child = [\<lparr>r_ret = 0, r_errno = EOther, r_data = [], r_sec = 5, r_nsec = 6, r_pkgs = [], r_sources = []\<rparr>,
     ok_reply 0 [] 0, ok_reply 0 [] 0, ok_reply 0 [] 0, ok_reply 0 [] 0, ok_reply 0 [] 77, ok_reply 0 [] 0,
     ok_reply 1 [] 0, ok_reply 1 [] 0, ok_reply 0 [] 0, ok_reply 77 [] 0]"

lemma ex_spawn_run: "fst (pkgx_spawn_wait_env [''A=1''] [''/usr/bin/dpkg''] (Some ''ab'') None (script ex_child)) = Some (0, True)"
  by (simp add: io_run pkgx_spawn_wait_env_def child_environment_def open_pipe_def file_actions_def add_actions_def
    run_child_def deliver_def push_def push_round_def wait_child_def wait_child_round_def exited_zero_def
    ex_child_def strlen_def cstr_def)

theorem spawn_outcome_witness:
  "\<exists>a b. bytes_written b (log (snd (pkgx_spawn_wait_env [''A=1''] [''/usr/bin/dpkg''] (Some ''ab'') None (script ex_child)))) = ''ab'' \<and>
     mset (fds_closed (log (snd (pkgx_spawn_wait_env [''A=1''] [''/usr/bin/dpkg''] (Some ''ab'') None (script ex_child))))) = {#a, b#}"
proof -
  have run: "pkgx_spawn_wait_env [''A=1''] [''/usr/bin/dpkg''] (Some ''ab'') None (script ex_child) =
      (Some (0, True), snd (pkgx_spawn_wait_env [''A=1''] [''/usr/bin/dpkg''] (Some ''ab'') None (script ex_child)))"
    using ex_spawn_run by (simp add: prod_eq_iff)
  show ?thesis
    using spawn_outcome [OF run] by (simp add: script_def) (elim conjE exE, intro exI conjI, assumption, simp)
qed

end
