(* ===== verification/Apt_Status.thy ===== *)
theory Apt_Status
  imports Prelude
begin

text \<open>
  The effector's outcome and the pure classifiers of \<open>src/apt_status.c\<close>: what is reported after
  the attempt, from what actually happened.
\<close>

datatype apt_status = APT_OK | APT_NO_OP | APT_LOCKED | APT_NOT_OWNED | APT_HELD | APT_PROTECTED
  | APT_NO_INTENT | APT_RESOLVE_FAILED | APT_NOT_APPLIED | APT_COMMIT_FAILED | APT_BROKEN | APT_INTERNAL

definition pkgx_txn_classify :: "bool \<Rightarrow> bool \<Rightarrow> bool \<Rightarrow> bool \<Rightarrow> apt_status" where
  "pkgx_txn_classify committer_entered execution_began committed_ok broken =
     (if \<not> committer_entered then APT_INTERNAL
      else if \<not> execution_began then APT_NOT_APPLIED
      else if broken then APT_BROKEN
      else if committed_ok then APT_OK
      else APT_COMMIT_FAILED)"

definition pkgx_update_classify :: "bool \<Rightarrow> bool \<Rightarrow> bool \<Rightarrow> apt_status" where
  "pkgx_update_classify committer_entered refresh_ok indexes_readable =
     (if \<not> committer_entered then APT_INTERNAL
      else if refresh_ok \<and> indexes_readable then APT_OK
      else APT_COMMIT_FAILED)"

definition pkgx_hold_classify :: "bool \<Rightarrow> bool \<Rightarrow> bool \<Rightarrow> apt_status" where
  "pkgx_hold_classify committer_entered selection_applied selection_matches =
     (if \<not> committer_entered then APT_INTERNAL
      else if selection_applied \<and> selection_matches then APT_OK
      else APT_COMMIT_FAILED)"

record lock_outcome =
  execution_began :: bool
  committed_ok :: bool

definition pkgx_commit_lock_handoff :: "bool \<Rightarrow> bool \<Rightarrow> bool \<Rightarrow> lock_outcome" where
  "pkgx_commit_lock_handoff unlock_inner_ok dpkg_completed relock_inner_ok =
     \<lparr>execution_began = unlock_inner_ok,
      committed_ok = unlock_inner_ok \<and> dpkg_completed \<and> relock_inner_ok\<rparr>"

lemma lock_handoff_simps [simp]:
  "execution_began (pkgx_commit_lock_handoff u d r) = u"
  "committed_ok (pkgx_commit_lock_handoff u d r) \<longleftrightarrow> u \<and> d \<and> r"
  by (simp_all add: pkgx_commit_lock_handoff_def)

text \<open>Which statuses each classifier can give, and when it says OK.\<close>

lemma classify_ok [simp]:
  "pkgx_txn_classify e b c k = APT_OK \<longleftrightarrow> e \<and> b \<and> c \<and> \<not> k"
  "pkgx_update_classify e r i = APT_OK \<longleftrightarrow> e \<and> r \<and> i"
  "pkgx_hold_classify e a m = APT_OK \<longleftrightarrow> e \<and> a \<and> m"
  by (simp_all add: pkgx_txn_classify_def pkgx_update_classify_def pkgx_hold_classify_def)

end
