(* ===== verification/Result.thy ===== *)
theory Result
  imports Spawn Redeem Apt_Status
begin

text \<open>
  The result channel of \<open>src/result.c\<close>: the name of a status, the one JSON record, its emission
  in full, the isolation of the channel, and the bounded detail. The Jansson entry points are
  those of \<open>Redeem\<close>.
\<close>

definition pkgx_status_name :: "apt_status \<Rightarrow> string" where
  "pkgx_status_name st = (case st of
     APT_OK \<Rightarrow> ''ok'' | APT_NO_OP \<Rightarrow> ''no_op'' | APT_LOCKED \<Rightarrow> ''apt_locked''
   | APT_NOT_OWNED \<Rightarrow> ''package_not_owned'' | APT_HELD \<Rightarrow> ''held'' | APT_PROTECTED \<Rightarrow> ''protected_package''
   | APT_NO_INTENT \<Rightarrow> ''no_intent'' | APT_RESOLVE_FAILED \<Rightarrow> ''resolve_failed'' | APT_NOT_APPLIED \<Rightarrow> ''not_applied''
   | APT_COMMIT_FAILED \<Rightarrow> ''operation_failed'' | APT_BROKEN \<Rightarrow> ''dpkg_broken'' | APT_INTERNAL \<Rightarrow> ''internal'')"

text \<open>\<open>bad |= json_object_set_new (...)\<close>: a failure is remembered and the next member still tried.\<close>

definition attempt :: "'a am \<Rightarrow> 'a option am" where
  "attempt m = (\<lambda>A k. case m A k of (Inl e, k') \<Rightarrow> (Inr None, k') | (Inr x, k') \<Rightarrow> (Inr (Some x), k'))"

definition add_member :: "bool \<times> (string \<times> json) list \<Rightarrow> string \<Rightarrow> json am \<Rightarrow> (bool \<times> (string \<times> json) list) am" where
  "add_member ob k v =
     abind (attempt (set_new (snd ob) k v)) (\<lambda>r. case r of
         None \<Rightarrow> aret (True, snd ob)
       | Some kvs \<Rightarrow> aret (fst ob, kvs))"

text \<open>The text of the record, without its terminator; it must fit \<open>outlen\<close> bytes with it.\<close>

definition pkgx_result_json ::
  "jansson \<Rightarrow> apt_status \<Rightarrow> bool \<Rightarrow> string \<Rightarrow> string \<Rightarrow> nat \<Rightarrow> string am" where
  "pkgx_result_json jn st effect_issued correlation_id detail outlen =
     abind (aguard (outlen \<noteq> 0) Violation) (\<lambda>_.
     abind aalloc (\<lambda>_.
     abind (add_member (False, []) ''status'' (json_string jn (pkgx_status_name st))) (\<lambda>ob.
     abind (add_member ob ''effect_issued'' (aret (if effect_issued then JTrue else JFalse))) (\<lambda>ob.
     abind (add_member ob ''correlation_id'' (json_string jn correlation_id)) (\<lambda>ob.
     abind (add_member ob ''detail'' (json_string jn detail)) (\<lambda>(bad, kvs).
     abind (aguard (\<not> bad) Violation) (\<lambda>_.
     abind (json_dumps jn (JObject kvs)) (\<lambda>s.
     abind (aguard (\<not> outlen < strlen s + 1) TooLarge) (\<lambda>_. aret (cstr s))))))))))"

text \<open>One line to the channel, with \<open>SIGPIPE\<close> ignored for the write; 0 or -1.\<close>

definition emit_line :: "int \<Rightarrow> string \<Rightarrow> int io" where
  "emit_line fd buf =
     ibind (syscall (Sigpipe True)) (\<lambda>i.
       if r_ret i \<noteq> 0 then ireturn (-1)
       else ibind (push fd buf) (\<lambda>p.
         ibind (syscall (Sigpipe False)) (\<lambda>r.
           ireturn (if r_ret r \<noteq> 0 then -1 else fst p))))"

definition pkgx_result_emit ::
  "jansson \<Rightarrow> int \<Rightarrow> apt_status \<Rightarrow> bool \<Rightarrow> string \<Rightarrow> string \<Rightarrow> int io" where
  "pkgx_result_emit jn fd st effect_issued correlation_id detail =
     ibind (allocating (pkgx_result_json jn st effect_issued correlation_id detail 512)) (\<lambda>buf. case buf of
         None \<Rightarrow> ireturn (-1)
       | Some s \<Rightarrow> emit_line fd (s @ [CHR 0x0A]))"

definition pkgx_result_channel_open :: "int io" where
  "pkgx_result_channel_open =
     ibind (syscall (Fd (Dup 1))) (\<lambda>d. let rfd = r_ret d in
       if rfd < 0 then ireturn (-1)
       else ibind (syscall (Fd (SetFlags rfd 1))) (\<lambda>f.
         if r_ret f \<noteq> 0 then ibind (emit (CloseFd rfd)) (\<lambda>_. ireturn (-1))
         else ibind (syscall (Fd (Dup2 2 1))) (\<lambda>o2.
           if r_ret o2 < 0 then ibind (emit (CloseFd rfd)) (\<lambda>_. ireturn (-1))
           else ireturn rfd)))"

text \<open>What \<open>pkgx_detail_set\<close> leaves in a detail buffer of 128 bytes.\<close>

definition pkgx_detail_set :: "string option \<Rightarrow> string" where
  "pkgx_detail_set s = take (128 - 1) (nz s)"

end
