(* ===== verification/Result_Proofs.thy ===== *)
theory Result_Proofs
  imports Result Spawn_Proofs Redeem_Proofs
begin

text \<open>The record on the result channel says what it was given, and success of the emission means that
the whole line is out.\<close>

definition result_record :: "apt_status \<Rightarrow> bool \<Rightarrow> string \<Rightarrow> string \<Rightarrow> json" where
  "result_record st issued cid detail = JObject
     [(''status'', JString (pkgx_status_name st)), (''effect_issued'', if issued then JTrue else JFalse),
      (''correlation_id'', JString (cstr cid)), (''detail'', JString (cstr detail))]"

lemma status_name_plain [simp]: "cstr (pkgx_status_name st) = pkgx_status_name st"
  by (cases st) (simp_all add: pkgx_status_name_def)

lemma status_name_inject: "pkgx_status_name st = pkgx_status_name st' \<longleftrightarrow> st = st'"
  by (cases st; cases st') (simp_all add: pkgx_status_name_def)

lemma pc_attempt [alloc_rules]: "pcorrect m (\<lambda>x. P (Some x)) \<Longrightarrow> P None \<Longrightarrow> pcorrect (attempt m) P"
  by (rule pcI) (auto simp: attempt_def dest: pcD split: prod.splits sum.splits)

lemma pc_add_member [alloc_rules]:
  "pcorrect v (\<lambda>j. P (fst ob, snd ob @ [(k, j)])) \<Longrightarrow> P (True, snd ob) \<Longrightarrow> pcorrect (add_member ob k v) P"
  unfolding add_member_def by (intro alloc_rules) (auto intro!: alloc_rules elim: pc_weaken)

definition result_line :: "jansson \<Rightarrow> json \<Rightarrow> string \<Rightarrow> bool" where
  "result_line jn j s \<longleftrightarrow> (\<exists>t. j_dumps jn j = Some t \<and> s = cstr t \<and> length s < 512)"

lemma pc_result_json:
  "pcorrect (pkgx_result_json jn st issued cid detail 512) (result_line jn (result_record st issued cid detail))"
  unfolding pkgx_result_json_def json_dumps_def
  by (intro alloc_rules) (auto simp: result_record_def result_line_def strlen_def split: prod.split intro!: alloc_rules)

section \<open>Emission\<close>

definition emitted :: "jansson \<Rightarrow> int \<Rightarrow> json \<Rightarrow> int \<Rightarrow> event list \<Rightarrow> bool" where
  "emitted jn fd j rc es \<longleftrightarrow> rc \<in> {0, -1} \<and> plain es \<and> sig_mask False es = Some False \<and>
     (es = [] \<and> rc = -1 \<or> (\<exists>s. result_line jn j s \<and> part_of (bytes_written fd es) (s @ [CHR 0x0A]) \<and>
        (rc = 0 \<longrightarrow> bytes_written fd es = s @ [CHR 0x0A])))"

definition emission_cut :: "jansson \<Rightarrow> int \<Rightarrow> json \<Rightarrow> event list \<Rightarrow> bool" where
  "emission_cut jn fd j es \<longleftrightarrow> plain es \<and> unmasked es \<and>
     (\<exists>s. result_line jn j s \<and> part_of (bytes_written fd es) (s @ [CHR 0x0A]))"

lemma push_codes: "tr (push fd buf) (\<lambda>x es. fst x \<in> {0, -1}) (\<lambda>es. True)"
  unfolding push_def push_round_def
  by (rule tr_loop [where I = "\<lambda>_ _. True"]) (auto intro!: tr_rules)

lemma tr_push_coded:
  assumes "\<And>rc off es. pushed fd buf off es \<Longrightarrow> (rc = 0 \<longleftrightarrow> off = length buf) \<Longrightarrow> rc \<in> {0, -1} \<Longrightarrow> P (rc, off) es"
    and "\<And>off es. pushed fd buf off es \<Longrightarrow> E es"
  shows "tr (push fd buf) P E"
proof (rule tr_mono [OF tr_both [OF push_ok push_codes]])
  fix x :: "int \<times> nat" and es
  assume "(pushed fd buf (snd x) es \<and> (fst x = 0 \<longleftrightarrow> snd x = length buf)) \<and> fst x \<in> {0, -1}"
  then show "P x es" using assms(1) [of "snd x" es "fst x"] by (cases x) (simp, blast)
qed (use assms(2) in blast)

lemma emit_line_trace:
  "tr (emit_line fd buf)
     (\<lambda>rc es. rc \<in> {0, -1} \<and> plain es \<and> sig_mask False es = Some False \<and>
        part_of (bytes_written fd es) buf \<and> (rc = 0 \<longrightarrow> bytes_written fd es = buf))
     (\<lambda>es. plain es \<and> unmasked es \<and> part_of (bytes_written fd es) buf)"
  unfolding emit_line_def
  by (intro tr_rules tr_push_coded) (auto simp: unmasked_def plain_def pushed_def split: if_splits)

lemma emit_trace:
  "tr (pkgx_result_emit jn fd st issued cid detail)
     (emitted jn fd (result_record st issued cid detail)) (emission_cut jn fd (result_record st issued cid detail))"
  unfolding pkgx_result_emit_def
  by (rule tr_bind, rule tr_pcorrect [OF pc_result_json])
     (auto simp: emitted_def emission_cut_def plain_def intro!: tr_return tr_mono [OF emit_line_trace])

section \<open>Properties\<close>

lemma result_record_faithful:
  "result_record st issued cid detail = result_record st' issued' cid' detail' \<longleftrightarrow>
     st = st' \<and> issued = issued' \<and> cstr cid = cstr cid' \<and> cstr detail = cstr detail'"
  by (auto simp: result_record_def status_name_inject split: if_splits)

text \<open>C33. The emission of a result reports what reached the channel: 0 only when the whole record of this
outcome and its newline were taken by the descriptor, -1 otherwise; what was written is always a prefix
of that line, it is shorter than the 512-byte buffer, every write is made with \<open>SIGPIPE\<close> ignored, and the
handler is put back.\<close>

theorem result_emit_outcome:
  assumes "pkgx_result_emit jn fd st issued cid detail w = (Some rc, w')"
  shows "\<exists>es. log w' = log w @ es \<and> rc \<in> {0, -1} \<and> sig_mask False es = Some False \<and>
    (es = [] \<and> rc = -1 \<or> (\<exists>s. result_line jn (result_record st issued cid detail) s \<and>
       part_of (bytes_written fd es) (s @ [CHR 0x0A]) \<and> (rc = 0 \<longrightarrow> bytes_written fd es = s @ [CHR 0x0A])))"
  using tr_returns [OF emit_trace assms] unfolding emitted_def by blast

text \<open>A printer with a fixed text, and a channel that takes it in two pieces.\<close>

definition print_jn :: jansson where
  "print_jn = \<lparr>j_loadb = (\<lambda>_. None), j_dumps = (\<lambda>_. Some ''r''), j_utf8 = (\<lambda>_. True)\<rparr>"

definition ex_channel :: "reply list" where
  "ex_channel = [ok_reply 0 [] 0, ok_reply 1 [] 0, ok_reply 1 [] 0, ok_reply 0 [] 0]"

lemma ex_emit_run: "fst (pkgx_result_emit print_jn 7 APT_OK True a_cid ''ok'' (script ex_channel)) = Some 0"
  by (simp add: io_run pkgx_result_emit_def pkgx_result_json_def emit_line_def push_def push_round_def add_member_def
    attempt_def set_new_def json_string_def json_dumps_def abind_def aret_def aguard_def print_jn_def ex_channel_def)

theorem result_emit_outcome_witness:
  "\<exists>s. bytes_written 7 (log (snd (pkgx_result_emit print_jn 7 APT_OK True a_cid ''ok'' (script ex_channel)))) = s @ [CHR 0x0A] \<and>
     result_line print_jn (result_record APT_OK True a_cid ''ok'') s"
proof -
  have run: "pkgx_result_emit print_jn 7 APT_OK True a_cid ''ok'' (script ex_channel) =
      (Some 0, snd (pkgx_result_emit print_jn 7 APT_OK True a_cid ''ok'' (script ex_channel)))"
    using ex_emit_run by (simp add: prod_eq_iff)
  have l: "log (script ex_channel) = []" by (simp add: script_def)
  show ?thesis using result_emit_outcome [OF run] l by auto
qed

end
