(* ===== verification/Harden.thy ===== *)
theory Harden
  imports Os Policy
begin

text \<open>
  Process hygiene from \<open>src/harden.c\<close>: the trusted uid, the scrubbed environment, the
  close-on-exec sweep over \<open>/proc/self/fd\<close> and the neutral standard input. The environment is a
  list of \<open>NAME=value\<close> entries, passed explicitly.
\<close>

unbundle bit_operations_syntax

section \<open>The trusted uid\<close>

text \<open>\<open>getenv\<close>, and the value \<open>strtoull\<close>/\<open>strtol\<close> compute from a string of digits.\<close>

fun getenv :: "string list \<Rightarrow> string \<Rightarrow> string option" where
  "getenv [] name = None"
| "getenv (e # es) name =
     (if take (length name + 1) e = name @ ''='' then Some (drop (length name + 1) e) else getenv es name)"

definition digit_value :: "char \<Rightarrow> nat" where
  "digit_value c = of_char c - 48"

definition decimal :: "string \<Rightarrow> nat" where
  "decimal s = foldl (\<lambda>v c. 10 * v + digit_value c) 0 s"

text \<open>\<open>errno\<close> is set when the value does not fit 64 bits; \<open>uid_t\<close> has 32.\<close>

definition pkgx_read_pkexec_uid :: "string list \<Rightarrow> int option" where
  "pkgx_read_pkexec_uid environ =
     (case getenv environ ''PKEXEC_UID'' of
        None \<Rightarrow> None
      | Some s \<Rightarrow>
          if cstr s = [] then None
          else if \<not> list_all is_digit (cstr s) then None
          else let v = decimal (cstr s) in
            if 2 ^ 64 \<le> v then None
            else let u = of_nat v :: 32 word in
              if unat u \<noteq> v then None else Some (uint u))"

section \<open>The environment\<close>

definition SAFE_ENV :: "(string \<times> string) list" where
  "SAFE_ENV = [(''PATH'', ''/usr/sbin:/usr/bin:/sbin:/bin''), (''LC_ALL'', ''C''),
     (''DEBIAN_FRONTEND'', ''noninteractive'')]"

text \<open>\<open>setenv\<close> for each entry, up to the first failure. The result is the new environment.\<close>

fun set_all :: "(string \<times> string) list \<Rightarrow> string list \<Rightarrow> string list option io" where
  "set_all [] env = ireturn (Some env)"
| "set_all ((k, v) # kvs) env =
     ibind (syscall (Proc (SetEnv k v))) (\<lambda>r.
       if r_ret r \<noteq> 0 then ireturn None else set_all kvs (env @ [k @ ''='' @ v]))"

definition pkgx_scrub_env :: "string list option io" where
  "pkgx_scrub_env =
     ibind (syscall (Proc ClearEnv)) (\<lambda>r. if r_ret r \<noteq> 0 then ireturn None else set_all SAFE_ENV [])"

section \<open>Descriptors\<close>

text \<open>\<open>strtol\<close> of a name that starts with a digit, narrowed to \<open>int\<close>.\<close>

definition fd_number :: "string \<Rightarrow> int" where
  "fd_number name = c_int (min (2 ^ 63 - 1) (int (decimal (takeWhile is_digit (cstr name)))))"

definition is_fd_name :: "string \<Rightarrow> bool" where
  "is_fd_name name \<longleftrightarrow> (case cstr name of [] \<Rightarrow> False | c # cs \<Rightarrow> is_digit c)"

text \<open>Set the flag on one descriptor; -1 only when setting it fails.\<close>

definition set_cloexec :: "int \<Rightarrow> int \<Rightarrow> int io" where
  "set_cloexec fd rc =
     ibind (syscall (Fd (GetFlags fd))) (\<lambda>g.
       if r_ret g < 0 then ireturn rc
       else if r_ret g AND 1 = 0 then
         ibind (syscall (Fd (SetFlags fd (r_ret g OR 1)))) (\<lambda>s. ireturn (if r_ret s < 0 then -1 else rc))
       else ireturn rc)"

text \<open>One directory entry: \<open>r_ret\<close> is 0 at the end of the directory. The state is \<open>rc\<close>.\<close>

definition cloexec_round :: "int \<Rightarrow> int \<Rightarrow> int \<Rightarrow> (int + int) io" where
  "cloexec_round lowest dirfd rc =
     ibind (syscall (Fd (ReadDir dirfd))) (\<lambda>e.
       if r_ret e = 0 then leave rc
       else if \<not> is_fd_name (r_data e) then again rc
       else let fd = fd_number (r_data e) in
         if fd < lowest \<or> fd = dirfd then again rc
         else ibind (set_cloexec fd rc) again)"

text \<open>The descriptor of the directory stream is the answer to \<open>opendir\<close>.\<close>

definition pkgx_cloexec_from :: "int \<Rightarrow> int io" where
  "pkgx_cloexec_from lowest =
     ibind (syscall (Fd OpenProcFd)) (\<lambda>d.
       if r_ret d < 0 then ireturn (-1)
       else ibind (io_loop (cloexec_round lowest (r_ret d)) 0) (\<lambda>rc.
         ibind (emit (CloseFd (r_ret d))) (\<lambda>_. ireturn rc)))"

text \<open>Fd 0 must survive an exec.\<close>

definition keep_stdin :: "int io" where
  "keep_stdin =
     ibind (syscall (Fd (GetFlags 0))) (\<lambda>g.
       if r_ret g < 0 then ireturn (-1)
       else if r_ret g AND 1 \<noteq> 0 then
         ibind (syscall (Fd (SetFlags 0 (r_ret g AND NOT 1)))) (\<lambda>s. ireturn (if r_ret s < 0 then -1 else 0))
       else ireturn 0)"

definition pkgx_null_stdin :: "int io" where
  "pkgx_null_stdin =
     ibind (syscall (Fd OpenNull)) (\<lambda>n. let fd = r_ret n in
       if fd < 0 then ireturn (-1)
       else if fd \<noteq> 0 then
         ibind (syscall (Fd (Dup2 fd 0))) (\<lambda>d.
           if r_ret d < 0 then ibind (emit (CloseFd fd)) (\<lambda>_. ireturn (-1))
           else ibind (emit (CloseFd fd)) (\<lambda>_. keep_stdin))
       else keep_stdin)"

end
