(* ===== verification/Harden_Proofs.thy ===== *)
theory Harden_Proofs
  imports Harden
begin

text \<open>What process hygiene guarantees when it reports success: the uid is the number pkexec wrote, the
environment is the fixed one, standard input is the null device and survives an exec, and no listed
descriptor at or above the bound does.\<close>

section \<open>The uid\<close>

lemma pkexec_uid_iff:
  "pkgx_read_pkexec_uid environ = Some u \<longleftrightarrow>
     (\<exists>s. getenv environ ''PKEXEC_UID'' = Some s \<and> cstr s \<noteq> [] \<and> list_all is_digit (cstr s) \<and>
        u = int (decimal (cstr s)) \<and> decimal (cstr s) < 2 ^ 32)"
proof -
  have fits: "unat (of_nat v :: 32 word) = v \<longleftrightarrow> v < 2 ^ 32" for v :: nat
    by (simp add: unat_of_nat take_bit_eq_mod) (metis mod_less mod_less_divisor zero_less_numeral)
  have big: "\<not> 2 ^ 64 \<le> v" if "v < 2 ^ 32" for v :: nat
    using that by simp
  have u: "uint (of_nat v :: 32 word) = int v" if "v < 2 ^ 32" for v :: nat
    using fits [of v] that by (metis uint_nat)
  show ?thesis
    unfolding pkgx_read_pkexec_uid_def Let_def
    by (auto simp: fits u big split: option.split)
qed

section \<open>The environment\<close>

definition safe_environ :: "string list" where
  "safe_environ = [''PATH=/usr/sbin:/usr/bin:/sbin:/bin'', ''LC_ALL=C'', ''DEBIAN_FRONTEND=noninteractive'']"

lemma scrub_trace:
  "tr pkgx_scrub_env (\<lambda>r es. r = None \<or> r = Some safe_environ) (\<lambda>es. True)"
  unfolding pkgx_scrub_env_def SAFE_ENV_def set_all.simps
  by (intro tr_rules) (simp_all add: safe_environ_def)

section \<open>Standard input\<close>

definition stdin_null :: "event list \<Rightarrow> bool" where
  "stdin_null es \<longleftrightarrow> (\<exists>n. Sys (Fd OpenNull) n \<in> set es \<and>
     (r_ret n = 0 \<or> (\<exists>d. Sys (Fd (Dup2 (r_ret n) 0)) d \<in> set es \<and> 0 \<le> r_ret d)))"

text \<open>The last word on the flags of fd 0: no close-on-exec.\<close>

fun inheritable :: "event \<Rightarrow> bool" where
  "inheritable (Sys (Fd (GetFlags f)) r) = (f = 0 \<and> 0 \<le> r_ret r \<and> r_ret r AND 1 = 0)"
| "inheritable (Sys (Fd (SetFlags f n)) r) = (f = 0 \<and> 0 \<le> r_ret r \<and> n AND 1 = 0)"
| "inheritable e = False"

lemma clear_bit: "(n AND - 2) AND 1 = (0 :: int)"
  by (simp add: and.assoc)

lemma null_stdin_trace:
  "tr pkgx_null_stdin (\<lambda>rc es. rc \<in> {0, -1} \<and> (rc = 0 \<longrightarrow> stdin_null es \<and> inheritable (last es))) (\<lambda>es. True)"
  unfolding pkgx_null_stdin_def keep_stdin_def Let_def
  by (intro tr_rules) (auto simp: stdin_null_def clear_bit split: if_splits)

section \<open>The sweep\<close>

text \<open>A listed descriptor is dealt with: it was gone, or has the flag, or got it.\<close>

definition swept :: "int \<Rightarrow> event list \<Rightarrow> bool" where
  "swept fd es \<longleftrightarrow> (\<exists>g. Sys (Fd (GetFlags fd)) g \<in> set es \<and>
     (r_ret g < 0 \<or> r_ret g AND 1 \<noteq> 0 \<or>
      (\<exists>s n. Sys (Fd (SetFlags fd n)) s \<in> set es \<and> n AND 1 \<noteq> 0 \<and> 0 \<le> r_ret s)))"

definition listed :: "int \<Rightarrow> int \<Rightarrow> event \<Rightarrow> int list" where
  "listed lowest dirfd e = (case e of
     Sys (Fd (ReadDir d)) r \<Rightarrow>
       if r_ret r \<noteq> 0 \<and> is_fd_name (r_data r) \<and> lowest \<le> fd_number (r_data r) \<and> fd_number (r_data r) \<noteq> dirfd
       then [fd_number (r_data r)] else []
   | _ \<Rightarrow> [])"

lemma swept_more: "swept fd es \<Longrightarrow> swept fd (fs @ es)" "swept fd es \<Longrightarrow> swept fd (es @ fs)"
  unfolding swept_def by fastforce+

lemma set_bit_0: "(n OR 1) AND 1 = (1 :: int)"
  by (simp add: and_one_eq or_one_eq) presburger

definition sweeping :: "int \<Rightarrow> int \<Rightarrow> int \<Rightarrow> event list \<Rightarrow> bool" where
  "sweeping lowest dirfd rc es \<longleftrightarrow> rc \<in> {0, -1} \<and>
     (rc = 0 \<longrightarrow> list_all (\<lambda>e. list_all (\<lambda>fd. swept fd es) (listed lowest dirfd e)) es)"

lemma sweeping_more:
  assumes "sweeping lowest dirfd rc es" "rc' = 0 \<longrightarrow> rc = 0" "rc' \<in> {0, -1}"
    and "rc' = 0 \<longrightarrow> list_all (\<lambda>e. list_all (\<lambda>fd. swept fd fs) (listed lowest dirfd e)) fs"
  shows "sweeping lowest dirfd rc' (es @ fs)"
  using assms by (auto simp: sweeping_def list_all_iff intro: swept_more)

lemma cloexec_round_ok:
  assumes "sweeping lowest dirfd rc es"
  shows "tr (cloexec_round lowest dirfd rc)
    (\<lambda>r fs. case r of Inl rc' \<Rightarrow> sweeping lowest dirfd rc' (es @ fs)
       | Inr rc' \<Rightarrow> sweeping lowest dirfd rc' (es @ fs)) (\<lambda>fs. True)"
proof -
  have rc: "rc \<in> {0, -1}" using assms by (simp add: sweeping_def)
  show ?thesis
    unfolding cloexec_round_def set_cloexec_def Let_def
    by (intro tr_rules; (simp only: sum.case append.simps, rule sweeping_more [OF assms])?;
        insert rc; auto simp: listed_def swept_def set_bit_0 split: if_splits)
qed

lemma cloexec_trace:
  "tr (pkgx_cloexec_from lowest) (\<lambda>rc es. rc \<in> {0, -1} \<and>
      (rc = 0 \<longrightarrow> (\<exists>d. Sys (Fd OpenProcFd) d \<in> set es \<and> 0 \<le> r_ret d \<and>
         list_all (\<lambda>e. list_all (\<lambda>fd. swept fd es) (listed lowest (r_ret d) e)) es))) (\<lambda>es. True)"
proof -
  have loop: "tr (io_loop (cloexec_round lowest dirfd) 0) (sweeping lowest dirfd) (\<lambda>es. True)" for dirfd
    by (rule tr_loop [where I = "sweeping lowest dirfd"]) (use cloexec_round_ok in \<open>auto simp: sweeping_def\<close>)
  have wrap: "(\<exists>d'. Sys (Fd OpenProcFd) d' \<in> set (Sys (Fd OpenProcFd) d # es @ [CloseFd (r_ret d)]) \<and> 0 \<le> r_ret d' \<and>
       list_all (\<lambda>e. list_all (\<lambda>fd. swept fd (Sys (Fd OpenProcFd) d # es @ [CloseFd (r_ret d)])) (listed lowest (r_ret d') e))
         (Sys (Fd OpenProcFd) d # es @ [CloseFd (r_ret d)]))"
    if "0 \<le> r_ret d" "sweeping lowest (r_ret d) 0 es" for d es
  proof (intro exI [of _ d] conjI)
    have "swept fd (Sys (Fd OpenProcFd) d # es @ [CloseFd (r_ret d)])" if "swept fd es" for fd
      using swept_more(1) [OF swept_more(2) [OF that], of "[_]"] by simp
    with that show "list_all (\<lambda>e. list_all (\<lambda>fd. swept fd (Sys (Fd OpenProcFd) d # es @ [CloseFd (r_ret d)])) (listed lowest (r_ret d) e))
         (Sys (Fd OpenProcFd) d # es @ [CloseFd (r_ret d)])"
      by (auto simp: sweeping_def list_all_iff listed_def)
  qed (use that in auto)
  show ?thesis
    unfolding pkgx_cloexec_from_def
    by (intro tr_rules tr_mono [OF loop]) (use wrap in \<open>auto simp: sweeping_def\<close>)
qed

section \<open>Properties\<close>

text \<open>C35. The invoking uid is taken from \<open>PKEXEC_UID\<close> only when it is a non-empty string of decimal digits whose
value fits the 32 bits of \<open>uid_t\<close>, and then it is that value; anything else is refused.\<close>

theorem pkexec_uid_exact:
  "pkgx_read_pkexec_uid environ = Some u \<longleftrightarrow>
     (\<exists>s. getenv environ ''PKEXEC_UID'' = Some s \<and> cstr s \<noteq> [] \<and> list_all is_digit (cstr s) \<and>
        u = int (decimal (cstr s)) \<and> decimal (cstr s) < 2 ^ 32)"
  by (rule pkexec_uid_iff)

text \<open>C34. When the descriptor sweep reports success, every descriptor at or above the bound that the
directory listed, the directory's own apart, was already gone, or had close-on-exec, or was given it.\<close>

theorem cloexec_complete:
  assumes "pkgx_cloexec_from lowest w = (Some 0, w')"
  shows "\<exists>es d. log w' = log w @ es \<and> Sys (Fd OpenProcFd) d \<in> set es \<and> 0 \<le> r_ret d \<and>
    list_all (\<lambda>e. list_all (\<lambda>fd. swept fd es) (listed lowest (r_ret d) e)) es"
  using tr_returns [OF cloexec_trace assms] by auto

text \<open>Descriptors 3 (the directory), 4 (already close-on-exec) and 12 are listed.\<close>

definition ex_sweep :: "reply list" where
  "ex_sweep = [ok_reply 3 [] 0, ok_reply 1 ''.'' 0, ok_reply 1 ''3'' 0, ok_reply 1 ''4'' 0, ok_reply 1 [] 0,
     ok_reply 1 ''12'' 0, ok_reply 0 [] 0, ok_reply 0 [] 0, ok_reply 0 [] 0]"

lemma digits: "is_digit CHR ''3''" "is_digit CHR ''4''" "is_digit CHR ''1''" "is_digit CHR ''2''" "\<not> is_digit CHR ''.''"
  by code_simp+

lemma fd_numbers: "fd_number ''3'' = 3" "fd_number ''4'' = 4" "fd_number ''12'' = 12"
  by (simp_all add: fd_number_def decimal_def digit_value_def cstr_def digits c_int_id)

lemma ex_sweep_run: "fst (pkgx_cloexec_from 3 (script ex_sweep)) = Some 0"
  by (simp add: io_run pkgx_cloexec_from_def cloexec_round_def set_cloexec_def ex_sweep_def is_fd_name_def
    cstr_def digits fd_numbers)

lemma ex_sweep_lists:
  "Sys (Fd (ReadDir 3)) (ok_reply 1 ''12'' 0) \<in> set (log (snd (pkgx_cloexec_from 3 (script ex_sweep))))"
  "Sys (Fd OpenProcFd) d \<in> set (log (snd (pkgx_cloexec_from 3 (script ex_sweep)))) \<Longrightarrow> r_ret d = 3"
  by (auto simp: io_run pkgx_cloexec_from_def cloexec_round_def set_cloexec_def ex_sweep_def is_fd_name_def
    cstr_def digits fd_numbers)

theorem cloexec_complete_witness:
  "swept 12 (log (snd (pkgx_cloexec_from 3 (script ex_sweep))))"
proof -
  have run: "pkgx_cloexec_from 3 (script ex_sweep) = (Some 0, snd (pkgx_cloexec_from 3 (script ex_sweep)))"
    using ex_sweep_run by (simp add: prod_eq_iff)
  have l: "log (script ex_sweep) = []" by (simp add: script_def)
  obtain d where d: "Sys (Fd OpenProcFd) d \<in> set (log (snd (pkgx_cloexec_from 3 (script ex_sweep))))"
    "list_all (\<lambda>e. list_all (\<lambda>fd. swept fd (log (snd (pkgx_cloexec_from 3 (script ex_sweep))))) (listed 3 (r_ret d) e))
       (log (snd (pkgx_cloexec_from 3 (script ex_sweep))))"
    using cloexec_complete [OF run] l by auto
  have "listed 3 3 (Sys (Fd (ReadDir 3)) (ok_reply 1 ''12'' 0)) = [12]"
    by (simp add: listed_def ok_reply_def is_fd_name_def cstr_def digits fd_numbers)
  then show ?thesis
    using d ex_sweep_lists by (fastforce simp: list_all_iff)
qed

end
