(* ===== verification/Apt_Common.thy ===== *)
theory Apt_Common
  imports Os Digest
begin

text \<open>
  The shared libapt scaffolding of \<open>src/apt_common.cc\<close>: initialisation, the mapping of the cache,
  the source list and the selections to the records of the digest, and the ground truth read from
  a fresh cache. What libapt answers comes from the script (see \<open>Libapt\<close>); a pointer or a flag it
  returns is false or null when \<open>r_ret\<close> is 0. The holders that keep the C strings alive are the
  records themselves.
\<close>

definition apt :: "apt_call \<Rightarrow> bool io" where
  "apt c = ibind (syscall (Apt c)) (\<lambda>r. ireturn (r_ret r \<noteq> 0))"

text \<open>Calls whose answer is not looked at.\<close>

definition apt_do :: "apt_call \<Rightarrow> unit io" where
  "apt_do c = ibind (syscall (Apt c)) (\<lambda>r. ireturn ())"

definition apt_packages :: "apt_call \<Rightarrow> apt_pkg list io" where
  "apt_packages c = ibind (syscall (Apt c)) (\<lambda>r. ireturn (r_pkgs r))"

text \<open>The result is \<open>*err\<close>, if any.\<close>

definition pkgx_apt_init :: "string option io" where
  "pkgx_apt_init =
     ibind (apt InitConfig) (\<lambda>c.
       if \<not> c then ireturn (Some ''apt config init failed'')
       else ibind (apt InitSystem) (\<lambda>s.
         if \<not> s then ireturn (Some ''apt system init failed'') else ireturn None))"

fun decimal_digits :: "nat \<Rightarrow> string" where
  "decimal_digits n = (if n < 10 then [] else decimal_digits (n div 10)) @ [char_of (48 + n mod 10)]"

definition pkgx_apt_set_lock_timeout :: "int \<Rightarrow> unit io" where
  "pkgx_apt_set_lock_timeout seconds =
     (let seconds = (if seconds < 0 then 0 else seconds)
      in apt_do (ConfigSet ''DPkg::Lock::Timeout'' (decimal_digits (nat seconds))))"

section \<open>Transactions\<close>

definition txn_action :: "apt_pkg \<Rightarrow> string option" where
  "txn_action p =
     (if a_delete p then Some (if a_purge p then ''purge'' else ''remove'')
      else if a_new_install p then Some ''install''
      else if a_upgrade p then Some ''upgrade''
      else if a_downgrade p then Some ''downgrade''
      else None)"

definition ver_str :: "version option \<Rightarrow> string" where
  "ver_str v = (case v of None \<Rightarrow> [] | Some v \<Rightarrow> v_str v)"

definition txn_flags :: "apt_pkg \<Rightarrow> string list" where
  "txn_flags p =
     (let pver = (if a_current_ver p \<noteq> None then a_current_ver p else a_inst_ver p);
          required = (case pver of None \<Rightarrow> False | Some v \<Rightarrow> v_required v) in
      (if a_selected p = SelHold then [''hold''] else []) @
      (if a_auto p then [''auto''] else []) @
      (if a_essential p then [''essential''] else []) @
      (if required \<or> a_important p then [''protected''] else []))"

definition txn_holder :: "apt_pkg \<Rightarrow> string \<Rightarrow> txn_record" where
  "txn_holder p action =
     \<lparr>t_package = Some (a_name p), t_architecture = Some (a_arch p), t_action = Some action,
      t_from_version = Some (ver_str (a_current_ver p)), t_to_version = Some (ver_str (a_inst_ver p)),
      t_flags = map Some (txn_flags p)\<rparr>"

fun pkgx_apt_map_txn :: "apt_pkg list \<Rightarrow> txn_record list" where
  "pkgx_apt_map_txn [] = []"
| "pkgx_apt_map_txn (p # ps) =
     (case txn_action p of
        None \<Rightarrow> pkgx_apt_map_txn ps
      | Some action \<Rightarrow> txn_holder p action # pkgx_apt_map_txn ps)"

section \<open>Sources\<close>

text \<open>A \<open>std::set\<close> of the non-empty strings of a list, in its order.\<close>

definition string_set :: "string list \<Rightarrow> string list" where
  "string_set xs = sort (remdups (filter (\<lambda>x. x \<noteq> []) xs))"

definition src_options ::
  "(string \<Rightarrow> 8 word list option) \<Rightarrow> meta_index \<Rightarrow> (string option \<times> string option) list" where
  "src_options evp mi =
     (let signed_by = (case pkgx_signed_by_inline_token evp (Some (m_signed_by mi)) of
            Token t \<Rightarrow> t | _ \<Rightarrow> m_signed_by mi);
          arches = string_set (map snd (m_targets mi)) in
      (if m_signed_by mi \<noteq> [] then [(Some ''signed-by'', Some signed_by)] else []) @
      (if arches \<noteq> [] then [(Some ''architectures'', Some (sepby CHR '' '' arches))] else []) @
      (case m_trusted mi of
         TRI_YES \<Rightarrow> [(Some ''trusted'', Some ''yes'')]
       | TRI_NO \<Rightarrow> [(Some ''trusted'', Some ''no'')]
       | _ \<Rightarrow> []))"

definition src_holder :: "(string \<Rightarrow> 8 word list option) \<Rightarrow> meta_index \<Rightarrow> src_record" where
  "src_holder evp mi =
     \<lparr>s_uri = Some (m_uri mi), s_suite = Some (m_dist mi),
      s_components = map Some (string_set (map fst (m_targets mi))), s_opts = src_options evp mi\<rparr>"

fun pkgx_apt_map_sources ::
  "(string \<Rightarrow> 8 word list option) \<Rightarrow> meta_index option list \<Rightarrow> src_record list" where
  "pkgx_apt_map_sources evp [] = []"
| "pkgx_apt_map_sources evp (None # ms) = pkgx_apt_map_sources evp ms"
| "pkgx_apt_map_sources evp (Some mi # ms) = src_holder evp mi # pkgx_apt_map_sources evp ms"

section \<open>Selections\<close>

definition selection_word :: "selection \<Rightarrow> string" where
  "selection_word sel = (case sel of
     SelInstall \<Rightarrow> ''install'' | SelHold \<Rightarrow> ''hold'' | SelDeInstall \<Rightarrow> ''deinstall''
   | SelPurge \<Rightarrow> ''purge'' | _ \<Rightarrow> ''unknown'')"

record hold_change =
  hc_package :: string
  hc_from :: string
  hc_to :: string
  hc_want_hold :: bool

datatype hold_map = HOLD_MAP_OK "hold_change list" | HOLD_MAP_UNKNOWN string | HOLD_MAP_INVALID string

fun map_hold_targets :: "bool \<Rightarrow> string list \<Rightarrow> hold_change list \<Rightarrow> hold_map io" where
  "map_hold_targets hold [] changes = ireturn (HOLD_MAP_OK changes)"
| "map_hold_targets hold (t # ts) changes =
     ibind (apt_packages (FindPkg t)) (\<lambda>found. case found of
         [] \<Rightarrow> ireturn (HOLD_MAP_UNKNOWN t)
       | p # _ \<Rightarrow>
           let from_state = selection_word (a_selected p);
               to_state = (if hold then ''hold'' else ''install'') in
           if from_state \<noteq> ''install'' \<and> from_state \<noteq> ''hold'' then ireturn (HOLD_MAP_INVALID t)
           else if from_state = to_state then map_hold_targets hold ts changes
           else map_hold_targets hold ts (changes @
             [\<lparr>hc_package = t, hc_from = from_state, hc_to = to_state, hc_want_hold = hold\<rparr>]))"

definition hold_record_of :: "hold_change \<Rightarrow> hold_record" where
  "hold_record_of h = \<lparr>h_package = Some (hc_package h), h_from_state = Some (hc_from h), h_to_state = Some (hc_to h)\<rparr>"

definition pkgx_apt_map_hold :: "string list \<Rightarrow> bool \<Rightarrow> hold_map io" where
  "pkgx_apt_map_hold targets hold = map_hold_targets hold targets []"

section \<open>Pending configuration\<close>

definition pending_state :: "install_state \<Rightarrow> string option" where
  "pending_state cur = (case cur of
     UnPacked \<Rightarrow> Some ''unpacked'' | HalfConfigured \<Rightarrow> Some ''half-configured''
   | TriggersAwaited \<Rightarrow> Some ''triggers-awaited'' | TriggersPending \<Rightarrow> Some ''triggers-pending''
   | _ \<Rightarrow> None)"

text \<open>\<open>Inl\<close> names a half-installed package.\<close>

fun pkgx_apt_map_configure :: "apt_pkg list \<Rightarrow> string + cfg_record list" where
  "pkgx_apt_map_configure [] = Inr []"
| "pkgx_apt_map_configure (p # ps) =
     (if a_current_state p = HalfInstalled then Inl (a_name p)
      else case pending_state (a_current_state p) of
          None \<Rightarrow> pkgx_apt_map_configure ps
        | Some state \<Rightarrow>
            (case pkgx_apt_map_configure ps of
               Inl name \<Rightarrow> Inl name
             | Inr recs \<Rightarrow> Inr (\<lparr>c_package = Some (a_name p), c_architecture = Some (a_arch p),
                 c_current_version = Some (ver_str (a_current_ver p)), c_state = Some state\<rparr> # recs)))"

section \<open>Ground truth\<close>

definition scan_broken :: "bool io" where
  "scan_broken =
     ibind (apt GetPkgCache) (\<lambda>pc. ibind (apt GetDepCache) (\<lambda>fdc.
       if pc \<and> fdc then
         ibind (apt BrokenCount) (\<lambda>broken.
           if broken then ireturn True
           else ibind (apt_packages ReadCache) (\<lambda>ps. ireturn (list_ex (\<lambda>p. \<not> a_needs_nothing p) ps)))
       else ireturn True))"

definition pkgx_apt_ground_truth_broken :: "bool io" where
  "pkgx_apt_ground_truth_broken =
     ibind (apt_do PushErrors) (\<lambda>_. ibind (apt (OpenCache False)) (\<lambda>opened.
     ibind (if opened then scan_broken else ireturn True) (\<lambda>bad.
     ibind (apt_do RevertErrors) (\<lambda>_. ireturn bad))))"

end
