(* ===== verification/Effectors.thy ===== *)
theory Effectors
  imports Apt_Common Apt_Status Gate Result Spawn
begin

text \<open>
  The four effectors: \<open>src/apt_txn.cc\<close>, \<open>src/apt_update.cc\<close>, \<open>src/apt_hold.cc\<close> and
  \<open>src/apt_configure.cc\<close>. Each opens libapt, maps its plan, runs the plan step over the broker
  transport in \<open>pe_tx\<close>, hands its committer to the gate, reads its own ground truth and classifies.
  An outcome is the status, \<open>out_cid\<close>, \<open>*effect_issued\<close> and the detail buffer.
\<close>

type_synonym effect_outcome = "apt_status \<times> string \<times> bool \<times> string"

text \<open>The switch over the plan step's verdict; \<open>None\<close> goes on to the commit.\<close>

definition refusal_status :: "plan_result \<Rightarrow> apt_status option" where
  "refusal_status pr = (case pr of
     PLAN_NO_OP \<Rightarrow> Some APT_NO_OP | PLAN_NOT_OWNED \<Rightarrow> Some APT_NOT_OWNED | PLAN_HELD \<Rightarrow> Some APT_HELD
   | PLAN_PROTECTED \<Rightarrow> Some APT_PROTECTED | PLAN_NO_INTENT \<Rightarrow> Some APT_NO_INTENT
   | PLAN_INTERNAL \<Rightarrow> Some APT_INTERNAL | PLAN_OK \<Rightarrow> None)"

text \<open>Preparations return a status and a detail when the effector has to return early.\<close>

type_synonym early = "(apt_status \<times> string) option"

definition and_then :: "early io \<Rightarrow> early io \<Rightarrow> early io" where
  "and_then m n = ibind m (\<lambda>f. case f of Some x \<Rightarrow> ireturn (Some x) | None \<Rightarrow> n)"

definition check :: "bool \<Rightarrow> apt_status \<Rightarrow> string \<Rightarrow> early io" where
  "check ok st detail = ireturn (if ok then None else Some (st, detail))"

definition prepared_for :: "early io \<Rightarrow> string \<Rightarrow> effect_outcome io \<Rightarrow> effect_outcome io" where
  "prepared_for m cid body =
     ibind m (\<lambda>f. case f of
         Some (st, detail) \<Rightarrow> ireturn (st, cid, False, pkgx_detail_set (Some detail))
       | None \<Rightarrow> body)"

text \<open>libapt, and the lock timeout.\<close>

definition apt_start :: "int \<Rightarrow> early io" where
  "apt_start timeout =
     ibind pkgx_apt_init (\<lambda>err. case err of
         Some e \<Rightarrow> ireturn (Some (APT_INTERNAL, e))
       | None \<Rightarrow> ibind (pkgx_apt_set_lock_timeout timeout) (\<lambda>_. ireturn None))"

text \<open>The frontend lock, then the cache without locking again; \<open>dep\<close> asks for the dependency cache too.\<close>

definition open_cache :: "bool \<Rightarrow> early io" where
  "open_cache dep =
     ibind (apt SystemLock) (\<lambda>locked.
       if \<not> locked then ireturn (Some (APT_LOCKED, ''apt_locked''))
       else ibind (apt (OpenCache False)) (\<lambda>opened.
         if \<not> opened then ireturn (Some (APT_INTERNAL, ''cache''))
         else ibind (apt GetPkgCache) (\<lambda>c. ibind (if dep then apt GetDepCache else ireturn True) (\<lambda>dc.
           check (c \<and> dc) APT_INTERNAL ''cache''))))"

text \<open>After the plan step: refuse with its verdict, or commit.\<close>

definition settle :: "plan_outcome \<Rightarrow> (string \<Rightarrow> effect_outcome io) \<Rightarrow> effect_outcome io" where
  "settle p commit = (case p of (pr, cid, detail) \<Rightarrow>
     (case refusal_status pr of
        Some st \<Rightarrow> ireturn (st, cid, False, pkgx_detail_set detail)
      | None \<Rightarrow> commit cid))"

section \<open>Transactions\<close>

record txn_ctx =
  tc_entered :: bool
  tc_fetched :: bool
  tc_began :: bool
  tc_committed :: bool

text \<open>The inner-lock hand-off around \<open>DoInstall\<close>.\<close>

definition txn_install :: "txn_ctx \<Rightarrow> (int \<times> txn_ctx) io" where
  "txn_install c =
     ibind (apt UnLockInner) (\<lambda>unlock_ok.
     ibind (if unlock_ok
            then ibind (apt DoInstall) (\<lambda>completed. ibind (apt LockInner) (\<lambda>relock_ok. ireturn (completed, relock_ok)))
            else ireturn (False, False)) (\<lambda>(completed, relock_ok).
       let oc = pkgx_commit_lock_handoff unlock_ok completed relock_ok;
           c = c\<lparr>tc_began := execution_began oc, tc_committed := committed_ok oc\<rparr>
       in ireturn (if tc_committed c then 0 else -1, c)))"

definition txn_fetch :: "txn_ctx \<Rightarrow> (int \<times> txn_ctx) io" where
  "txn_fetch c =
     ibind (apt CreatePM) (\<lambda>pm.
       if \<not> pm then ireturn (-1, c)
       else ibind (apt_do OpenRecords) (\<lambda>_. ibind (apt PendingError) (\<lambda>pending.
         if pending then ireturn (-1, c)
         else ibind (apt GetArchives) (\<lambda>got.
           if \<not> got then ireturn (-1, c)
           else ibind (apt FetchArchives) (\<lambda>run.
             if \<not> run then ireturn (-1, c) else txn_install (c\<lparr>tc_fetched := True\<rparr>))))))"

definition txn_commit :: "txn_ctx committer" where
  "txn_commit c cid =
     (let c = c\<lparr>tc_entered := True\<rparr> in
      ibind (apt_do (ConfigSet ''CommandLine::AsString'' (''runix:'' @ cid))) (\<lambda>_.
      ibind (apt GetDepCache) (\<lambda>dc. ibind (apt GetPkgCache) (\<lambda>pc. ibind (apt GetSourceList) (\<lambda>sources.
        if \<not> dc \<or> \<not> pc \<or> \<not> sources then ireturn (-1, c) else txn_fetch c)))))"

text \<open>The target loop: mark each package; \<open>Some\<close> is the detail of a failure.\<close>

fun mark_targets :: "bool \<Rightarrow> bool \<Rightarrow> string list \<Rightarrow> string option io" where
  "mark_targets removal purge [] = ireturn None"
| "mark_targets removal purge (t # ts) =
     ibind (apt_packages (FindPkg t)) (\<lambda>found.
       if found = [] then ireturn (Some t)
       else ibind (apt_do (Protect t)) (\<lambda>_.
         ibind (if removal
                then ibind (apt_do (MarkDelete t purge)) (\<lambda>_. apt_do (ResolverRemove t))
                else apt_do (MarkInstall t True)) (\<lambda>_. mark_targets removal purge ts)))"

definition txn_resolve :: "string \<Rightarrow> string list \<Rightarrow> early io" where
  "txn_resolve verb targets =
     (let removal = (verb = ''apt.remove'' \<or> verb = ''apt.purge''); purge = (verb = ''apt.purge'');
          upgrade = (verb = ''apt.upgrade''); dist = (verb = ''apt.dist_upgrade'') in
      if upgrade \<or> dist then
        ibind (apt (Upgrade (if dist then ALLOW_EVERYTHING else FORBID_REMOVE_PACKAGES))) (\<lambda>ok.
          check ok APT_RESOLVE_FAILED ''resolve'')
      else
        ibind (apt_do NewResolver) (\<lambda>_. ibind (mark_targets removal purge targets) (\<lambda>r. case r of
            Some d \<Rightarrow> ireturn (Some (APT_RESOLVE_FAILED, d))
          | None \<Rightarrow> ibind (apt (Resolve True)) (\<lambda>ok. check ok APT_RESOLVE_FAILED ''resolve''))))"

text \<open>From the gate on.\<close>

definition txn_report :: "txn_ctx \<Rightarrow> apt_status \<Rightarrow> string" where
  "txn_report c st = (case st of
     APT_OK \<Rightarrow> ''ok''
   | APT_NOT_APPLIED \<Rightarrow> (if tc_fetched c then ''commit_setup'' else ''fetch'')
   | APT_BROKEN \<Rightarrow> ''broken'' | APT_COMMIT_FAILED \<Rightarrow> ''commit'' | _ \<Rightarrow> ''internal'')"

definition txn_finish :: "string \<Rightarrow> effect_outcome io" where
  "txn_finish cid =
     ibind (pkgx_effect_gate PLAN_OK (Some cid) (Some txn_commit)
         \<lparr>tc_entered = False, tc_fetched = False, tc_began = False, tc_committed = False\<rparr>) (\<lambda>(g, c).
     ibind (if tc_began c then pkgx_apt_ground_truth_broken else ireturn False) (\<lambda>broken.
       let st = pkgx_txn_classify (tc_entered c) (tc_began c) (tc_committed c) broken
       in ireturn (st, cid, tc_began c, pkgx_detail_set (Some (txn_report c st)))))"

definition txn_plan_and_commit :: "plan_env \<Rightarrow> string \<Rightarrow> string list \<Rightarrow> string \<Rightarrow> effect_outcome io" where
  "txn_plan_and_commit env verb targets cid =
     ibind (apt_packages ReadCache) (\<lambda>ps.
     ibind (pkgx_plan_and_redeem env verb (pkgx_apt_map_txn ps) (map Some targets) cid) (\<lambda>p. settle p txn_finish))"

definition txn_open :: "string \<Rightarrow> string list \<Rightarrow> int \<Rightarrow> early io" where
  "txn_open verb targets timeout =
     and_then (apt_start timeout)
       (and_then (check (\<not> ((verb = ''apt.upgrade'' \<or> verb = ''apt.dist_upgrade'') \<and> targets \<noteq> []))
           APT_RESOLVE_FAILED ''targets_unsupported'')
         (and_then (open_cache True) (txn_resolve verb targets)))"

definition pkgx_apt_txn_effect :: "plan_env \<Rightarrow> string \<Rightarrow> string list \<Rightarrow> int \<Rightarrow> effect_outcome io" where
  "pkgx_apt_txn_effect env verb targets timeout =
     (let cid = pkgx_cid_echo (Some (pe_expected_cid env)) in
      prepared_for (txn_open verb targets timeout) cid (txn_plan_and_commit env verb targets cid))"

section \<open>Updates\<close>

record update_ctx =
  uc_entered :: bool
  uc_refresh_ok :: bool

definition update_commit :: "update_ctx committer" where
  "update_commit c cid =
     ibind (apt ListUpdate) (\<lambda>ok. ireturn (if ok then 0 else -1, c\<lparr>uc_entered := True, uc_refresh_ok := ok\<rparr>))"

definition indexes_readable :: "bool io" where
  "indexes_readable =
     ibind (apt_do PushErrors) (\<lambda>_. ibind (apt (OpenCache False)) (\<lambda>opened.
     ibind (if opened then apt GetPkgCache else ireturn False) (\<lambda>ok.
     ibind (apt_do RevertErrors) (\<lambda>_. ireturn ok))))"

definition update_report :: "update_ctx \<Rightarrow> apt_status \<Rightarrow> string" where
  "update_report c st = (case st of
     APT_OK \<Rightarrow> ''ok''
   | APT_COMMIT_FAILED \<Rightarrow> (if uc_refresh_ok c then ''indexes_unreadable'' else ''refresh'')
   | _ \<Rightarrow> ''internal'')"

definition update_finish :: "string \<Rightarrow> effect_outcome io" where
  "update_finish cid =
     ibind (pkgx_effect_gate PLAN_OK (Some cid) (Some update_commit)
         \<lparr>uc_entered = False, uc_refresh_ok = False\<rparr>) (\<lambda>(g, c).
     ibind (if uc_entered c then indexes_readable else ireturn False) (\<lambda>readable.
       let st = pkgx_update_classify (uc_entered c) (uc_refresh_ok c) readable
       in ireturn (st, cid, uc_entered c, pkgx_detail_set (Some (update_report c st)))))"

text \<open>The probe of the lists lock: taken without waiting, then released.\<close>

definition probe_lists :: "early io" where
  "probe_lists =
     ibind (syscall (Apt (ConfigFindDir ''Dir::State::Lists''))) (\<lambda>d.
     ibind (syscall (Apt (LockLists (r_data d @ ''lock'')))) (\<lambda>l.
       if r_ret l < 0 then ireturn (Some (APT_LOCKED, ''apt_locked''))
       else ibind (emit (CloseFd (r_ret l))) (\<lambda>_. ireturn None)))"

definition update_open :: "string option \<Rightarrow> int \<Rightarrow> early io" where
  "update_open resource_token timeout =
     and_then (apt_start timeout)
       (and_then (check (nz resource_token = []) APT_RESOLVE_FAILED ''subset_unsupported'') probe_lists)"

definition update_plan_and_commit :: "plan_env \<Rightarrow> string option \<Rightarrow> string \<Rightarrow> effect_outcome io" where
  "update_plan_and_commit env resource_token cid =
     ibind (syscall (Apt ReadMainList)) (\<lambda>l.
       if r_ret l = 0 then ireturn (APT_INTERNAL, cid, False, pkgx_detail_set (Some ''sources''))
       else ibind (apt_do (ConfigSet ''APT::Update::Error-Mode'' ''any'')) (\<lambda>_.
         ibind (pkgx_plan_and_redeem_update env (pkgx_apt_map_sources (pe_evp env) (r_sources l)) resource_token cid)
           (\<lambda>p. settle p update_finish)))"

definition pkgx_apt_update_effect :: "plan_env \<Rightarrow> string option \<Rightarrow> int \<Rightarrow> effect_outcome io" where
  "pkgx_apt_update_effect env resource_token timeout =
     (let cid = pkgx_cid_echo (Some (pe_expected_cid env)) in
      prepared_for (update_open resource_token timeout) cid (update_plan_and_commit env resource_token cid))"

section \<open>Driving dpkg\<close>

text \<open>What the hold and configure committers share: the inner lock is handed over, dpkg is run with
\<open>DPKG_FRONTEND_LOCKED\<close>, the lock is taken back. \<open>None\<close>: the hand-off failed and nothing was run;
otherwise whether dpkg succeeded (the re-lock included) and whether it was started.\<close>

definition run_dpkg :: "string list \<Rightarrow> string list \<Rightarrow> string option \<Rightarrow> (bool \<times> bool) option io" where
  "run_dpkg environ argv input =
     ibind (apt UnLockInner) (\<lambda>u.
       if \<not> u then ireturn None
       else ibind (pkgx_spawn_wait_env environ argv input (Some [''DPKG_FRONTEND_LOCKED=true''])) (\<lambda>(rc, started).
         ibind (apt LockInner) (\<lambda>relocked. ireturn (Some (rc = 0 \<and> relocked, started)))))"

definition find_dpkg :: "string io" where
  "find_dpkg = ibind (syscall (Apt (ConfigFind ''Dir::Bin::dpkg'' ''/usr/bin/dpkg''))) (\<lambda>r. ireturn (r_data r))"

text \<open>The context of both committers, without its constant part.\<close>

record dpkg_ctx =
  dc_entered :: bool
  dc_issued :: bool
  dc_ok :: bool

definition dpkg_commit :: "string list \<Rightarrow> string list \<Rightarrow> string option \<Rightarrow> dpkg_ctx committer" where
  "dpkg_commit environ argv input c cid =
     (let c = c\<lparr>dc_entered := True\<rparr> in
      ibind (run_dpkg environ argv input) (\<lambda>r. case r of
          None \<Rightarrow> ireturn (-1, c)
        | Some (ok, started) \<Rightarrow> ireturn (if ok then 0 else -1, c\<lparr>dc_issued := started, dc_ok := ok\<rparr>)))"

section \<open>Hold and unhold\<close>

definition hold_commit :: "string list \<Rightarrow> string \<Rightarrow> string \<Rightarrow> dpkg_ctx committer" where
  "hold_commit environ dpkg payload = dpkg_commit environ [dpkg, ''--set-selections''] (Some payload)"

definition payload_line :: "hold_change \<Rightarrow> string" where
  "payload_line h = hc_package h @ '' '' @ hc_to h @ [CHR 0x0A]"

definition hold_payload :: "hold_change list \<Rightarrow> string" where
  "hold_payload changes = concat (map payload_line changes)"

fun selections_of :: "hold_change list \<Rightarrow> bool io" where
  "selections_of [] = ireturn True"
| "selections_of (h # hs) =
     ibind (apt_packages (FindPkg (hc_package h))) (\<lambda>found.
       let is_hold = (case found of [] \<Rightarrow> False | p # _ \<Rightarrow> a_selected p = SelHold)
       in if is_hold \<noteq> hc_want_hold h then ireturn False else selections_of hs)"

definition selections_match :: "hold_change list \<Rightarrow> bool io" where
  "selections_match changes =
     ibind (apt_do PushErrors) (\<lambda>_. ibind (apt (OpenCache False)) (\<lambda>opened.
     ibind (if opened then ibind (apt GetPkgCache) (\<lambda>pc. if pc then selections_of changes else ireturn False)
            else ireturn False) (\<lambda>ok.
     ibind (apt_do RevertErrors) (\<lambda>_. ireturn ok))))"

definition hold_report :: "dpkg_ctx \<Rightarrow> apt_status \<Rightarrow> string" where
  "hold_report c st = (case st of
     APT_OK \<Rightarrow> ''ok''
   | APT_COMMIT_FAILED \<Rightarrow> (if dc_ok c then ''selection_mismatch'' else ''set_selections'')
   | _ \<Rightarrow> ''internal'')"

definition hold_finish :: "string list \<Rightarrow> hold_change list \<Rightarrow> string \<Rightarrow> effect_outcome io" where
  "hold_finish environ changes cid =
     ibind find_dpkg (\<lambda>dpkg.
     ibind (pkgx_effect_gate PLAN_OK (Some cid) (Some (hold_commit environ dpkg (hold_payload changes)))
         \<lparr>dc_entered = False, dc_issued = False, dc_ok = False\<rparr>) (\<lambda>(g, c).
     ibind (if dc_entered c then selections_match changes else ireturn False) (\<lambda>matched.
       let st = pkgx_hold_classify (dc_entered c) (dc_ok c) matched
       in ireturn (st, cid, dc_issued c, pkgx_detail_set (Some (hold_report c st))))))"

definition hold_plan_and_commit :: "plan_env \<Rightarrow> string list \<Rightarrow> string \<Rightarrow> string list \<Rightarrow> string \<Rightarrow> effect_outcome io" where
  "hold_plan_and_commit env environ verb targets cid =
     ibind (pkgx_apt_map_hold targets (verb = ''apt.hold'')) (\<lambda>m. case m of
         HOLD_MAP_OK changes \<Rightarrow>
           ibind (pkgx_plan_and_redeem_hold env verb (map hold_record_of changes) (map Some targets) cid)
             (\<lambda>p. settle p (hold_finish environ changes))
       | HOLD_MAP_UNKNOWN t \<Rightarrow> ireturn (APT_RESOLVE_FAILED, cid, False, pkgx_detail_set (Some t))
       | HOLD_MAP_INVALID t \<Rightarrow> ireturn (APT_RESOLVE_FAILED, cid, False, pkgx_detail_set (Some t)))"

definition pkgx_apt_hold_effect :: "plan_env \<Rightarrow> string list \<Rightarrow> string \<Rightarrow> string list \<Rightarrow> int \<Rightarrow> effect_outcome io" where
  "pkgx_apt_hold_effect env environ verb targets timeout =
     (let cid = pkgx_cid_echo (Some (pe_expected_cid env)) in
      prepared_for (and_then (apt_start timeout) (open_cache False)) cid
        (hold_plan_and_commit env environ verb targets cid))"

section \<open>Configure\<close>

definition configure_commit :: "string list \<Rightarrow> string \<Rightarrow> dpkg_ctx committer" where
  "configure_commit environ dpkg = dpkg_commit environ [dpkg, ''--configure'', ''--pending''] None"

definition configure_report :: "apt_status \<Rightarrow> string" where
  "configure_report st = (case st of
     APT_OK \<Rightarrow> ''ok'' | APT_BROKEN \<Rightarrow> ''broken'' | APT_COMMIT_FAILED \<Rightarrow> ''configure'' | _ \<Rightarrow> ''internal'')"

definition configure_finish :: "string list \<Rightarrow> string \<Rightarrow> effect_outcome io" where
  "configure_finish environ cid =
     ibind find_dpkg (\<lambda>dpkg.
     ibind (pkgx_effect_gate PLAN_OK (Some cid) (Some (configure_commit environ dpkg))
         \<lparr>dc_entered = False, dc_issued = False, dc_ok = False\<rparr>) (\<lambda>(g, c).
     ibind (if dc_entered c then pkgx_apt_ground_truth_broken else ireturn False) (\<lambda>broken.
       let st = pkgx_txn_classify (dc_entered c) (dc_entered c) (dc_ok c) broken
       in ireturn (st, cid, dc_issued c, pkgx_detail_set (Some (configure_report st))))))"

definition configure_plan_and_commit :: "plan_env \<Rightarrow> string list \<Rightarrow> string \<Rightarrow> effect_outcome io" where
  "configure_plan_and_commit env environ cid =
     ibind (apt_packages ReadCache) (\<lambda>ps. case pkgx_apt_map_configure ps of
         Inl name \<Rightarrow> ireturn (APT_BROKEN, cid, False, pkgx_detail_set (Some name))
       | Inr cfgs \<Rightarrow>
           ibind (pkgx_plan_and_redeem_configure env cfgs cid) (\<lambda>p. settle p (configure_finish environ)))"

definition pkgx_apt_configure_effect :: "plan_env \<Rightarrow> string list \<Rightarrow> int \<Rightarrow> effect_outcome io" where
  "pkgx_apt_configure_effect env environ timeout =
     (let cid = pkgx_cid_echo (Some (pe_expected_cid env)) in
      prepared_for (and_then (apt_start timeout) (open_cache False)) cid (configure_plan_and_commit env environ cid))"

section \<open>The four as one\<close>

text \<open>What a helper can be asked to do: its verb and the targets, where the mechanism has them.\<close>

datatype job = TxnJob string "string list" | UpdateJob "string option" | HoldJob string "string list" | ConfigureJob

text \<open>\<open>environ\<close> is the environment the helper has after scrubbing.\<close>

fun run_job :: "plan_env \<Rightarrow> string list \<Rightarrow> int \<Rightarrow> job \<Rightarrow> effect_outcome io" where
  "run_job env environ timeout (TxnJob verb targets) = pkgx_apt_txn_effect env verb targets timeout"
| "run_job env environ timeout (UpdateJob token) = pkgx_apt_update_effect env token timeout"
| "run_job env environ timeout (HoldJob verb targets) = pkgx_apt_hold_effect env environ verb targets timeout"
| "run_job env environ timeout ConfigureJob = pkgx_apt_configure_effect env environ timeout"

end
