(* ===== verification/Entrypoint.thy ===== *)
theory Entrypoint
  imports Effectors Harden Stdin Request Transport
begin

text \<open>
  The helper process: \<open>src/entrypoint.c\<close>, compiled once per verb with the verb and its family
  fixed, and the diagnostic \<open>tools/effect.cc\<close>, which runs the same steps for the verb in its
  \<open>argv\<close>. The environment the process was started with is an argument; the result of \<open>main\<close> is the exit code.
  What goes to standard error is not modelled.
\<close>

text \<open>The third-party libraries: OpenSSL's digest and Jansson.\<close>

record libraries =
  lb_evp :: "string \<Rightarrow> 8 word list option"
  lb_jansson :: jansson

definition fail_result :: "libraries \<Rightarrow> int \<Rightarrow> string \<Rightarrow> string \<Rightarrow> int io" where
  "fail_result lib rfd cid detail =
     ibind (pkgx_result_emit (lb_jansson lib) rfd APT_INTERNAL False cid detail) (\<lambda>_. ireturn 1)"

text \<open>A parser run in the allocator's world.\<close>

definition parsing :: "(allocator \<Rightarrow> nat \<Rightarrow> 'a \<times> nat) \<Rightarrow> 'a io" where
  "parsing f = (\<lambda>w. case f (aorc w) (acnt w) of (x, k) \<Rightarrow> (Some x, w\<lparr>acnt := k\<rparr>))"

text \<open>From the uid to the parsed request; \<open>Inl\<close> is the detail of a failure. The body is wiped whether or not
it parsed.\<close>

definition read_request :: "libraries \<Rightarrow> string \<Rightarrow> string list \<Rightarrow> (string + (int \<times> pkgx_request)) io" where
  "read_request lib verb environ =
     (case pkgx_read_pkexec_uid environ of
        None \<Rightarrow> ireturn (Inl ''pkexec_uid'')
      | Some uid \<Rightarrow>
          ibind (pkgx_read_stdin 0) (\<lambda>b. case b of
              Inl ec \<Rightarrow> ireturn (Inl ec)
            | Inr body \<Rightarrow>
                ibind (parsing (pkgx_parse_request (j_loadb (lb_jansson lib)) verb body)) (\<lambda>(pe, req).
                ibind (emit (Wipe body)) (\<lambda>_. case pe of
                    Some ec \<Rightarrow> ireturn (Inl ec)
                  | None \<Rightarrow> ireturn (Inr (uid, req))))))"

text \<open>The three steps of hygiene, each only when the one before succeeded; the result is the new environment.\<close>

definition hygiene :: "string list option io" where
  "hygiene =
     ibind pkgx_scrub_env (\<lambda>e. case e of
         None \<Rightarrow> ireturn None
       | Some environ \<Rightarrow>
           ibind pkgx_null_stdin (\<lambda>n. if n \<noteq> 0 then ireturn None
             else ibind (pkgx_cloexec_from 3) (\<lambda>c. ireturn (if c \<noteq> 0 then None else Some environ))))"

definition broker_cfg :: transport_cfg where
  "broker_cfg = \<lparr>socket_path = Some ''/run/runix-audit.sock'', required_peer_uid = 0, timeout_ms = 5000\<rparr>"

definition effect_env :: "libraries \<Rightarrow> int \<Rightarrow> pkgx_request \<Rightarrow> plan_env" where
  "effect_env lib uid req =
     \<lparr>pe_evp = lb_evp lib, pe_jansson = lb_jansson lib, pe_receipt = effect_receipt req, pe_uid = uid,
      pe_schema = c_int (plan_schema req), pe_expected_cid = correlation_id req,
      pe_tx = pkgx_transport_tx broker_cfg\<rparr>"

text \<open>\<open>pkgx_request_free\<close> at the exits: what is left to see is the wipe of the receipt.\<close>

definition release :: "pkgx_request \<Rightarrow> unit io" where
  "release req = emit (Wipe (effect_receipt req))"

definition exit_code :: "apt_status \<Rightarrow> int" where
  "exit_code st = (if st = APT_OK \<or> st = APT_NO_OP then 0 else 1)"

text \<open>From hygiene on.\<close>

definition perform :: "libraries \<Rightarrow> int \<Rightarrow> int \<Rightarrow> pkgx_request \<Rightarrow> job \<Rightarrow> int io" where
  "perform lib rfd uid req job =
     ibind hygiene (\<lambda>h. case h of
         None \<Rightarrow> ibind (fail_result lib rfd (correlation_id req) ''hygiene'') (\<lambda>rc.
           ibind (release req) (\<lambda>_. ireturn rc))
       | Some environ \<Rightarrow>
           ibind (run_job (effect_env lib uid req) environ (c_int (lock_timeout req)) job) (\<lambda>(st, cid, issued, detail).
           ibind (pkgx_result_emit (lb_jansson lib) rfd st issued cid detail) (\<lambda>emitted.
           ibind (release req) (\<lambda>_. ireturn (if emitted \<noteq> 0 then 1 else exit_code st)))))"

text \<open>The body of \<open>main\<close>; \<open>select\<close> is the dispatch on the verb's mechanism.\<close>

definition helper_main :: "libraries \<Rightarrow> string \<Rightarrow> (pkgx_request \<Rightarrow> job) \<Rightarrow> string list \<Rightarrow> int io" where
  "helper_main lib verb select environ =
     ibind pkgx_result_channel_open (\<lambda>rfd.
       if rfd < 0 then ireturn 1
       else ibind (read_request lib verb environ) (\<lambda>r. case r of
           Inl detail \<Rightarrow> fail_result lib rfd [] detail
         | Inr (uid, req) \<Rightarrow> perform lib rfd uid req (select req)))"

section \<open>The installed helpers\<close>

datatype family = FAMILY_TXN | FAMILY_UPDATE | FAMILY_HOLD | FAMILY_CONFIGURE

definition requested :: "pkgx_request \<Rightarrow> string list" where
  "requested req = (case packages req of None \<Rightarrow> [] | Some ps \<Rightarrow> ps)"

text \<open>An update refreshes the whole source list: the resource token is the empty string.\<close>

definition family_job :: "family \<Rightarrow> string \<Rightarrow> pkgx_request \<Rightarrow> job" where
  "family_job family verb req = (case family of
     FAMILY_TXN \<Rightarrow> TxnJob verb (requested req)
   | FAMILY_UPDATE \<Rightarrow> UpdateJob (Some [])
   | FAMILY_HOLD \<Rightarrow> HoldJob verb (requested req)
   | FAMILY_CONFIGURE \<Rightarrow> ConfigureJob)"

definition entrypoint_main :: "libraries \<Rightarrow> family \<Rightarrow> string \<Rightarrow> string list \<Rightarrow> int io" where
  "entrypoint_main lib family verb environ = helper_main lib verb (family_job family verb) environ"

section \<open>The diagnostic\<close>

definition verb_job :: "string \<Rightarrow> pkgx_request \<Rightarrow> job" where
  "verb_job verb req =
     (if verb = ''apt.update'' then UpdateJob (Some [])
      else if verb = ''apt.hold'' \<or> verb = ''apt.unhold'' then HoldJob verb (requested req)
      else if verb = ''apt.configure'' then ConfigureJob
      else TxnJob verb (requested req))"

text \<open>\<open>argv\<close> has the program's name first.\<close>

definition effect_tool_main :: "libraries \<Rightarrow> string list \<Rightarrow> string list \<Rightarrow> int io" where
  "effect_tool_main lib argv environ =
     (case argv of
        _ # a # _ \<Rightarrow> (let verb = cstr a in helper_main lib verb (verb_job verb) environ)
      | _ \<Rightarrow> ireturn 2)"

end
