(* ===== verification/Effect_Trace.thy ===== *)
theory Effect_Trace
  imports Effectors Plan_Proofs Transport_Proofs Spawn_Proofs
begin

text \<open>
  The trace of an effector: which events may touch the host, what a plan step leaves in the log
  when it runs over the broker transport, and what each committer does after it.
\<close>

section \<open>Events that matter\<close>

text \<open>Calls that fetch, release the inner lock, run dpkg or refresh the lists.\<close>

fun mutating_call :: "call \<Rightarrow> bool" where
  "mutating_call (Apt c) \<longleftrightarrow> c \<in> {UnLockInner, GetArchives, FetchArchives, DoInstall, ListUpdate}"
| "mutating_call (Proc c) \<longleftrightarrow> (case c of PosixSpawn argv env \<Rightarrow> True | _ \<Rightarrow> False)"
| "mutating_call c \<longleftrightarrow> False"

fun mutates :: "event \<Rightarrow> bool" where
  "mutates (Sys c r) = mutating_call c"
| "mutates (Blocked c) = mutating_call c"
| "mutates e = False"

text \<open>The host may have changed: dpkg ran, or the lists were refreshed.\<close>

fun touches :: "event \<Rightarrow> bool" where
  "touches (Sys (Apt c) r) \<longleftrightarrow> c \<in> {DoInstall, ListUpdate}"
| "touches (Sys (Proc c) r) \<longleftrightarrow> (case c of PosixSpawn argv env \<Rightarrow> r_ret r = 0 | _ \<Rightarrow> False)"
| "touches e \<longleftrightarrow> False"

lemma touches_mutates: "touches e \<Longrightarrow> mutates e"
  by (induction e rule: touches.induct) (auto split: proc_call.splits)

definition calm :: "event list \<Rightarrow> bool" where
  "calm es \<longleftrightarrow> \<not> list_ex mutates es"

lemma calm_simps [simp]: "calm []" "calm (es @ fs) = (calm es \<and> calm fs)" "calm (e # es) = (\<not> mutates e \<and> calm es)"
  by (auto simp: calm_def)

lemma calm_untouched: "calm es \<Longrightarrow> \<not> list_ex touches es"
  unfolding calm_def list_ex_iff using touches_mutates by blast

section \<open>The plan step over the broker\<close>

lemma sess_calm: "sess t req c e \<noteq> None \<Longrightarrow> \<not> mutates e"
  by (cases e rule: mutates.cases) (auto elim: mutating_call.elims split: if_splits)

lemma acc_calm: "acc t req c es \<noteq> None \<Longrightarrow> calm es"
proof (induction es arbitrary: c)
  case (Cons e es)
  then show ?case using sess_calm [of t req c e] by (auto split: option.splits)
qed simp

lemma tx_calm: "tx_events t body es \<Longrightarrow> calm es"
  by (auto simp: tx_events_def accepted_log_def intro: acc_calm [where t = t and req = body and c = Idle])

text \<open>One authenticated exchange: the peer of a socket has the required uid, it took the framed body and
delivered the framed reply.\<close>

definition exchanged :: "transport_cfg \<Rightarrow> string \<Rightarrow> string \<Rightarrow> event list \<Rightarrow> bool" where
  "exchanged t body resp es \<longleftrightarrow> (\<exists>fd peer. Sys (GetPeerCred fd) peer \<in> set es \<and> r_ret peer = 0 \<and>
     r_sec peer = required_peer_uid t \<and> bytes_sent fd es = frame_of body \<and> bytes_read fd es = frame_of resp)"

lemma tx_exchanged:
  assumes "tx_done t body resp es"
  shows "exchanged t body resp es"
proof -
  from assms obtain r rest now where r: "es = Sys ClockGettime r # rest"
    "delivered t body (deadline_of t now) Idle resp rest"
    by (auto simp: tx_done_def transport_log_def split: list.splits event.splits call.splits option.splits)
  then obtain fd us where us: "rest = us @ [CloseFd fd]"
    "acc t body Idle us = Some (Authed fd (frame_of body) (frame_of resp))"
    by (auto simp: delivered_def live_def)
  from acc_inv [OF us(2)] have us': "authenticated t fd us" "bytes_sent fd us = frame_of body" "bytes_read fd us = frame_of resp"
    by simp_all
  then obtain peer where "Sys (GetPeerCred fd) peer \<in> set us" "good_peer t peer"
    unfolding authenticated_def by (metis in_set_conv_decomp)
  with us' show ?thesis unfolding exchanged_def r(1) us(1)
    by (intro exI [of _ fd] exI [of _ peer]) (simp add: good_peer_def)
qed

text \<open>Somewhere in the log the broker redeemed the receipt for this plan: the request that names its
verb, its resource and its digest went out in one authenticated exchange, and the exact success reply for
the expected correlation id came back.\<close>

definition redeemed_for :: "plan_env \<Rightarrow> transport_cfg \<Rightarrow> plan \<Rightarrow> string option list \<Rightarrow> string option \<Rightarrow> event list \<Rightarrow> bool" where
  "redeemed_for env t p targets token es \<longleftrightarrow> (\<exists>hash body resp as ts bs.
     plan_admitted env p hash \<and>
     j_dumps (pe_jansson env) (request_json (binding_req env p targets token hash)) = Some body \<and>
     es = as @ ts @ bs \<and> exchanged t body resp ts \<and>
     redeemed_reply (j_loadb (pe_jansson env) resp) (pe_expected_cid env))"

lemma redeemed_more: "redeemed_for env t p targets token es \<Longrightarrow> redeemed_for env t p targets token (us @ es @ vs)"
  unfolding redeemed_for_def by (metis append.assoc)

definition plan_trace :: "plan_env \<Rightarrow> transport_cfg \<Rightarrow> plan \<Rightarrow> string option list \<Rightarrow> string option \<Rightarrow>
    plan_outcome \<Rightarrow> event list \<Rightarrow> bool" where
  "plan_trace env t p targets token = (\<lambda>(r, cid, det) es. calm es \<and>
     (r = PLAN_OK \<longrightarrow> cid = cstr (pe_expected_cid env) \<and> redeemed_for env t p targets token es))"

lemma redeem_tail_trace:
  assumes tx: "pe_tx env = pkgx_transport_tx t" and adm: "plan_admitted env p hash"
  shows "tr (redeem_tail env (plan_verb p) (plan_resource p targets token) hash oc)
    (plan_trace env t p targets token) calm"
proof -
  define req where "req = binding_req env p targets token hash"
  have trace: "tr (pkgx_redeem (pe_jansson env) req (pe_expected_cid env) (pkgx_transport_tx t) oc)
      (\<lambda>x es. calm es \<and> (fst x = REDEEM_OK \<longrightarrow> fst (snd x) = cstr (pe_expected_cid env) \<and> redeemed_for env t p targets token es))
      calm"
  proof (rule tr_mono [OF broker.redeem_trace])
    fix x :: "redeem_status \<times> string \<times> string" and es
    assume e: "broker.redeem_events t (pe_jansson env) req (pe_expected_cid env) oc x es"
    have "calm es" using e by (auto simp: broker.redeem_events_def tx_calm split: prod.splits)
    moreover have "redeemed_for env t p targets token es" if "fst x = REDEEM_OK"
    proof -
      from e that obtain body ts r where "j_dumps (pe_jansson env) (request_json req) = Some body"
        "es = [] @ ts @ [Wipe body]" "tx_done t body r ts" "redeemed_reply (j_loadb (pe_jansson env) r) (pe_expected_cid env)"
        by (auto simp: broker.redeem_events_def split: prod.splits)
      with adm show ?thesis unfolding redeemed_for_def req_def using tx_exchanged by blast
    qed
    ultimately show "calm es \<and> (fst x = REDEEM_OK \<longrightarrow>
        fst (snd x) = cstr (pe_expected_cid env) \<and> redeemed_for env t p targets token es)"
      using e by (auto simp: broker.redeem_events_def split: prod.splits)
  qed (auto simp: broker.redeem_unfinished_def tx_calm)
  show ?thesis
    unfolding redeem_tail_def tx binding_req_def [symmetric] req_def [symmetric]
    by (rule tr_bind, rule tr_mono [OF trace]) (auto simp: plan_trace_def intro!: tr_rules)
qed

text \<open>Changing the allocator's counter is not an event.\<close>

lemma later_acnt [simp]: "later (w\<lparr>acnt := k\<rparr>) es w' = later w es w'"
  by (simp add: later_def)

lemma plan_step_trace:
  assumes tx: "pe_tx env = pkgx_transport_tx t"
  shows "tr (plan_step env p targets token oc) (plan_trace env t p targets token) calm"
proof (rule tr_I)
  fix w
  show "wp (plan_step env p targets token oc)
      (\<lambda>x w'. \<exists>es. later w es w' \<and> plan_trace env t p targets token x es) (\<lambda>w'. \<exists>es. later w es w' \<and> calm es) w"
    using plan_step_cases [of env p targets token oc w]
  proof
    assume "plan_stopped (plan_step env p targets token oc w) oc w"
    then obtain k r det where s: "plan_step env p targets token oc w = (Some (r, oc, det), w\<lparr>acnt := k\<rparr>)" "r \<noteq> PLAN_OK"
      by (auto simp: plan_stopped_def)
    have "later w [] (w\<lparr>acnt := k\<rparr>)" by (simp add: later_def)
    with s show ?thesis by (auto simp: wp_def plan_trace_def intro!: exI [of _ "[]"])
  next
    assume "plan_redeems (plan_step env p targets token oc w) env p targets token oc w"
    then obtain k hash where r: "plan_admitted env p hash" "plan_step env p targets token oc w =
        redeem_tail env (plan_verb p) (plan_resource p targets token) hash oc (w\<lparr>acnt := k\<rparr>)"
      by (auto simp: plan_redeems_def)
    from tr_D [OF redeem_tail_trace [OF tx r(1)], of targets token oc "w\<lparr>acnt := k\<rparr>"]
    show ?thesis by (simp add: wp_def r(2))
  qed
qed

section \<open>The commits\<close>

lemma tr_apt [tr_rules]:
  "(\<And>r. P (r_ret r \<noteq> 0) [Sys (Apt c) r]) \<Longrightarrow> E [Blocked (Apt c)] \<Longrightarrow> tr (apt c) P E"
  unfolding apt_def by (intro tr_rules) auto

lemma tr_apt_do [tr_rules]:
  "(\<And>r. P () [Sys (Apt c) r]) \<Longrightarrow> E [Blocked (Apt c)] \<Longrightarrow> tr (apt_do c) P E"
  unfolding apt_do_def by (intro tr_rules) auto

lemma tr_apt_packages [tr_rules]:
  "(\<And>r. P (r_pkgs r) [Sys (Apt c) r]) \<Longrightarrow> E [Blocked (Apt c)] \<Longrightarrow> tr (apt_packages c) P E"
  unfolding apt_packages_def by (intro tr_rules) auto

lemma tr_ground_truth:
  "(\<And>b es. \<not> list_ex touches es \<Longrightarrow> P b es) \<Longrightarrow> (\<And>es. E es) \<Longrightarrow> tr pkgx_apt_ground_truth_broken P E"
  unfolding pkgx_apt_ground_truth_broken_def scan_broken_def
  by (intro tr_rules) (auto split: if_splits)

text \<open>What a finished effector says about the host.\<close>

definition honest :: "effect_outcome \<Rightarrow> event list \<Rightarrow> bool" where
  "honest = (\<lambda>(st, cid, issued, det) es.
     (issued \<longleftrightarrow> list_ex touches es) \<and> (st = APT_OK \<longrightarrow> issued) \<and>
     (issued \<longrightarrow> st \<in> {APT_OK, APT_COMMIT_FAILED, APT_BROKEN}))"

definition finished :: "string \<Rightarrow> effect_outcome \<Rightarrow> event list \<Rightarrow> bool" where
  "finished cid x es \<longleftrightarrow> fst (snd x) = cid \<and> honest x es"

lemma txn_finish_trace: "tr (txn_finish cid) (finished cid) (\<lambda>es. True)"
  unfolding txn_finish_def pkgx_effect_gate_def txn_commit_def txn_fetch_def txn_install_def Let_def
    plan_result.case option.case
  by (intro tr_rules tr_ground_truth)
     (auto simp: finished_def honest_def pkgx_txn_classify_def split: if_splits)

lemma update_finish_trace: "tr (update_finish cid) (finished cid) (\<lambda>es. True)"
  unfolding update_finish_def pkgx_effect_gate_def update_commit_def indexes_readable_def Let_def
    plan_result.case option.case
  by (intro tr_rules) (auto simp: finished_def honest_def pkgx_update_classify_def split: if_splits)

section \<open>Running dpkg\<close>

fun apt_event :: "event \<Rightarrow> bool" where
  "apt_event (Sys (Apt c) r) = True"
| "apt_event (Blocked (Apt c)) = True"
| "apt_event e = False"

definition no_apt :: "event list \<Rightarrow> bool" where
  "no_apt es \<longleftrightarrow> \<not> list_ex apt_event es"

lemma no_apt_simps [simp]: "no_apt []" "no_apt (es @ fs) = (no_apt es \<and> no_apt fs)" "no_apt (e # es) = (\<not> apt_event e \<and> no_apt es)"
  by (auto simp: no_apt_def)

lemma tr_push_no_apt: "(\<And>x es. no_apt es \<Longrightarrow> P x es) \<Longrightarrow> (\<And>es. no_apt es \<Longrightarrow> E es) \<Longrightarrow> tr (push fd buf) P E"
  unfolding push_def push_round_def
  by (rule tr_loop [where I = "\<lambda>_. no_apt"]) (auto intro!: tr_rules)

lemma tr_wait_no_apt:
  "(\<And>x es. no_apt es \<Longrightarrow> P x es) \<Longrightarrow> (\<And>es. no_apt es \<Longrightarrow> E es) \<Longrightarrow> tr (io_loop (wait_child_round pid) s) P E"
  unfolding wait_child_round_def
  by (rule tr_loop [where I = "\<lambda>_. no_apt"]) (auto intro!: tr_rules)

lemma spawn_no_apt: "tr (pkgx_spawn_wait_env environ argv input extra) (\<lambda>x. no_apt) no_apt"
  unfolding pkgx_spawn_wait_env_def open_pipe_def file_actions_def add_actions_def close_pipe_def
    run_child_def deliver_def wait_child_def
  by (intro tr_rules tr_child_environment tr_push_no_apt tr_wait_no_apt) auto

lemma touched_by_spawn: "no_apt es \<Longrightarrow> list_ex touches es \<longleftrightarrow> list_ex (\<lambda>s. snd (snd s)) (spawns es)"
proof (induction es)
  case (Cons e es)
  have "touches e \<longleftrightarrow> list_ex (\<lambda>s. snd (snd s)) (spawn_event e)" if "\<not> apt_event e"
    using that by (cases e rule: touches.cases) (auto split: proc_call.splits)
  with Cons show ?case by simp
qed simp

lemma tr_spawn:
  assumes "\<And>rc started es. spawn_log argv (child_env environ extra) input (rc, started) es \<Longrightarrow>
      (started \<longleftrightarrow> list_ex touches es) \<Longrightarrow> P (rc, started) es"
    and "\<And>es. E es"
  shows "tr (pkgx_spawn_wait_env environ argv input extra) P E"
proof (rule tr_mono [OF tr_both [OF spawn_trace spawn_no_apt]])
  fix x :: "int \<times> bool" and es
  assume a: "spawn_log argv (child_env environ extra) input x es \<and> no_apt es"
  obtain rc started where x: "x = (rc, started)" by (cases x)
  have "started \<longleftrightarrow> list_ex touches es"
    using a touched_by_spawn [of es] by (auto simp: x spawn_log_def)
  with a show "P x es" unfolding x by (blast intro: assms(1))
qed (rule assms(2))

lemma tr_selections:
  "(\<And>b es. \<not> list_ex touches es \<Longrightarrow> P b es) \<Longrightarrow> (\<And>es. E es) \<Longrightarrow> tr (selections_of hs) P E"
proof (induction hs arbitrary: P E)
  case (Cons h hs)
  show ?case
    unfolding selections_of.simps Let_def
    by (intro tr_rules Cons.IH) (auto intro: Cons.prems)
qed (auto intro: tr_return)

lemma hold_finish_trace: "tr (hold_finish environ changes cid) (finished cid) (\<lambda>es. True)"
  unfolding hold_finish_def find_dpkg_def pkgx_effect_gate_def hold_commit_def dpkg_commit_def run_dpkg_def
    selections_match_def Let_def plan_result.case option.case
  by (intro tr_rules tr_spawn tr_selections)
     (auto simp: finished_def honest_def pkgx_hold_classify_def spawn_log_def split: if_splits)

lemma configure_finish_trace: "tr (configure_finish environ cid) (finished cid) (\<lambda>es. True)"
  unfolding configure_finish_def find_dpkg_def pkgx_effect_gate_def configure_commit_def dpkg_commit_def run_dpkg_def
    Let_def plan_result.case option.case
  by (intro tr_rules tr_spawn tr_ground_truth)
     (auto simp: finished_def honest_def pkgx_txn_classify_def spawn_log_def split: if_splits)

end
