(* ===== verification/Effect_Proofs.thy ===== *)
theory Effect_Proofs
  imports Effect_Trace
begin

text \<open>
  The four effectors together: nothing is fetched, installed, refreshed or run before the broker
  redeemed the receipt for the digest of exactly the plan that libapt's answers give, and
  \<open>effect_issued\<close> says whether the host was touched.
\<close>

section \<open>The four as one\<close>

text \<open>The verb of a binary is a C string constant.\<close>

fun job_verb :: "job \<Rightarrow> string" where
  "job_verb (TxnJob verb targets) = verb"
| "job_verb (HoldJob verb targets) = verb"
| "job_verb j = []"

fun job_targets :: "job \<Rightarrow> string option list" where
  "job_targets (TxnJob verb targets) = map Some targets"
| "job_targets (HoldJob verb targets) = map Some targets"
| "job_targets j = []"

fun job_token :: "job \<Rightarrow> string option" where
  "job_token (UpdateJob token) = token"
| "job_token j = None"

text \<open>The answers to the lookups of hold targets, in order.\<close>

fun lookup_event :: "event \<Rightarrow> (string \<times> apt_pkg list) list" where
  "lookup_event (Sys (Apt (FindPkg t)) r) = [(t, r_pkgs r)]"
| "lookup_event e = []"

definition lookups :: "event list \<Rightarrow> (string \<times> apt_pkg list) list" where
  "lookups es = concat (map lookup_event es)"

fun changes_of :: "bool \<Rightarrow> (string \<times> apt_pkg list) list \<Rightarrow> hold_change list" where
  "changes_of hold [] = []"
| "changes_of hold ((t, []) # fs) = changes_of hold fs"
| "changes_of hold ((t, p # ps) # fs) =
     (let to_state = (if hold then ''hold'' else ''install'') in
      if selection_word (a_selected p) = to_state then changes_of hold fs
      else \<lparr>hc_package = t, hc_from = selection_word (a_selected p), hc_to = to_state, hc_want_hold = hold\<rparr>
        # changes_of hold fs)"

text \<open>The plan a job makes of what libapt answered.\<close>

fun job_plan :: "plan_env \<Rightarrow> job \<Rightarrow> event list \<Rightarrow> plan \<Rightarrow> bool" where
  "job_plan env (TxnJob verb targets) es p \<longleftrightarrow>
     (\<exists>r. Sys (Apt ReadCache) r \<in> set es \<and> p = Txn (Some verb) (pkgx_apt_map_txn (r_pkgs r)))"
| "job_plan env (UpdateJob token) es p \<longleftrightarrow>
     (\<exists>r. Sys (Apt ReadMainList) r \<in> set es \<and> p = Upd (pkgx_apt_map_sources (pe_evp env) (r_sources r)))"
| "job_plan env (HoldJob verb targets) es p \<longleftrightarrow>
     (\<exists>es1 es2. es = es1 @ es2 \<and> map fst (lookups es2) = targets \<and>
        p = Hold (Some verb) (map hold_record_of (changes_of (verb = ''apt.hold'') (lookups es2))))"
| "job_plan env ConfigureJob es p \<longleftrightarrow>
     (\<exists>r cfgs. Sys (Apt ReadCache) r \<in> set es \<and> pkgx_apt_map_configure (r_pkgs r) = Inr cfgs \<and> p = Cfg cfgs)"

section \<open>Preparations\<close>

text \<open>Nothing has happened yet, and an early return does not claim success.\<close>

definition prep :: "early \<Rightarrow> event list \<Rightarrow> bool" where
  "prep f es \<longleftrightarrow> calm es \<and> (case f of None \<Rightarrow> True | Some (st, d) \<Rightarrow> st \<noteq> APT_OK)"

lemma prep_and_then:
  assumes "tr m prep calm" "tr n prep calm"
  shows "tr (and_then m n) prep calm"
  unfolding and_then_def
  by (rule tr_bind, rule tr_mono [OF assms(1)])
     (auto simp: prep_def intro!: tr_rules tr_mono [OF assms(2)])

lemma prep_start: "tr (apt_start timeout) prep calm"
  unfolding apt_start_def pkgx_apt_init_def pkgx_apt_set_lock_timeout_def Let_def
  by (intro tr_rules) (auto simp: prep_def)

lemma prep_check: "st \<noteq> APT_OK \<Longrightarrow> tr (check ok st d) prep calm"
  unfolding check_def by (intro tr_rules) (simp add: prep_def)

lemma prep_cache: "tr (open_cache dep) prep calm"
  unfolding open_cache_def check_def by (intro tr_rules) (auto simp: prep_def)

lemma mark_calm: "tr (mark_targets removal purge ts) (\<lambda>x. calm) calm"
proof (induction ts)
  case (Cons t ts)
  show ?case
    unfolding mark_targets.simps
    by (intro tr_rules tr_mono [OF Cons.IH]) auto
qed (auto intro: tr_return)

lemma prep_resolve: "tr (txn_resolve verb ts) prep calm"
  unfolding txn_resolve_def check_def Let_def
  by (intro tr_rules tr_mono [OF mark_calm]) (auto simp: prep_def)

lemma prep_probe: "tr probe_lists prep calm"
  unfolding probe_lists_def by (intro tr_rules) (auto simp: prep_def)

lemmas prep_rules = prep_and_then prep_start prep_check prep_cache prep_resolve prep_probe

section \<open>From the plan on\<close>

text \<open>The events of the plan step and of what follows: nothing but the plan step, or a redemption
first.\<close>

definition after_plan :: "plan_env \<Rightarrow> transport_cfg \<Rightarrow> plan \<Rightarrow> string option list \<Rightarrow> string option \<Rightarrow> event list \<Rightarrow> bool" where
  "after_plan env t p targets token es \<longleftrightarrow> calm es \<or>
     (\<exists>bs cs. es = bs @ cs \<and> calm bs \<and> redeemed_for env t p targets token bs)"

definition under_cid :: "plan_env \<Rightarrow> effect_outcome \<Rightarrow> bool" where
  "under_cid env = (\<lambda>(st, cid, issued, det). issued \<longrightarrow> cid = cstr (pe_expected_cid env))"

lemma calm_honest: "calm es \<Longrightarrow> st \<noteq> APT_OK \<Longrightarrow> honest (st, cid, False, det) es"
  using calm_untouched by (simp add: honest_def)

lemma honest_after: "calm es \<Longrightarrow> honest x fs \<Longrightarrow> honest x (es @ fs)"
  using calm_untouched by (auto simp: honest_def)

lemma settle_trace:
  assumes tx: "pe_tx env = pkgx_transport_tx t"
    and fin: "\<And>cid. tr (finish cid) (finished cid) (\<lambda>es. True)"
  shows "tr (ibind (plan_step env p targets token oc) (\<lambda>q. settle q finish))
    (\<lambda>x es. honest x es \<and> under_cid env x \<and> after_plan env t p targets token es)
    (after_plan env t p targets token)"
proof (rule tr_bind_seq [OF tr_mono [OF plan_step_trace [OF tx]]])
  fix q and bs assume q: "plan_trace env t p targets token q bs"
  obtain r cid det where r: "q = (r, cid, det)" by (cases q)
  with q have calm: "calm bs" by (simp add: plan_trace_def)
  show "tr (settle q finish)
      (\<lambda>x cs. honest x (bs @ cs) \<and> under_cid env x \<and> after_plan env t p targets token (bs @ cs))
      (\<lambda>cs. after_plan env t p targets token (bs @ cs))"
  proof (cases "r = PLAN_OK")
    case True
    with q r have ok: "cid = cstr (pe_expected_cid env)" "redeemed_for env t p targets token bs"
      by (simp_all add: plan_trace_def)
    have "after_plan env t p targets token (bs @ cs)" for cs
      using ok calm unfolding after_plan_def by blast
    then show ?thesis
      by (simp add: r True settle_def refusal_status_def, intro tr_mono [OF fin])
         (auto simp: finished_def under_cid_def ok(1) intro: honest_after [OF calm])
  next
    case False
    have after: "after_plan env t p targets token bs" using calm by (simp add: after_plan_def)
    have "\<exists>st. settle q finish = ireturn (st, cid, False, pkgx_detail_set det) \<and> st \<noteq> APT_OK"
      using False by (cases r) (simp_all add: r settle_def refusal_status_def, (rule exI, rule conjI, rule refl, simp)+)
    then show ?thesis
      using after calm by (auto simp: under_cid_def intro!: tr_return calm_honest)
  qed
qed (auto simp: after_plan_def)

section \<open>Whole effectors\<close>

text \<open>\<open>as\<close>: the preparations, with the answers the plan is made of; \<open>bs\<close>: the plan step.\<close>

definition effect_events :: "plan_env \<Rightarrow> transport_cfg \<Rightarrow> job \<Rightarrow> event list \<Rightarrow> bool" where
  "effect_events env t job es \<longleftrightarrow> calm es \<or>
     (\<exists>as bs cs p. es = as @ bs @ cs \<and> calm as \<and> calm bs \<and> job_plan env job as p \<and>
        redeemed_for env t p (job_targets job) (job_token job) bs)"

definition effect_log :: "plan_env \<Rightarrow> transport_cfg \<Rightarrow> job \<Rightarrow> effect_outcome \<Rightarrow> event list \<Rightarrow> bool" where
  "effect_log env t job x es \<longleftrightarrow> honest x es \<and> under_cid env x \<and> effect_events env t job es"

lemma effect_events_plan:
  assumes "calm as" "job_plan env job as p" "after_plan env t p (job_targets job) (job_token job) es"
  shows "effect_events env t job (as @ es)"
  using assms unfolding effect_events_def after_plan_def by (metis calm_simps(2))

lemma effect_plan_trace:
  assumes "pe_tx env = pkgx_transport_tx t" "\<And>cid. tr (finish cid) (finished cid) (\<lambda>es. True)"
    and "calm as" "job_plan env job as p" "targets = job_targets job" "token = job_token job"
  shows "tr (ibind (plan_step env p targets token oc) (\<lambda>q. settle q finish))
    (\<lambda>x es. effect_log env t job x (as @ es)) (\<lambda>es. effect_events env t job (as @ es))"
  unfolding assms(5,6)
  by (rule tr_mono [OF settle_trace [OF assms(1,2)]])
     (use assms(3,4) in \<open>auto simp: effect_log_def intro: honest_after effect_events_plan\<close>)

lemma effect_calm: "calm es \<Longrightarrow> effect_events env t job es"
  by (simp add: effect_events_def)

lemma effect_early: "calm es \<Longrightarrow> st \<noteq> APT_OK \<Longrightarrow> effect_log env t job (st, cid, False, det) es"
  by (simp add: effect_log_def under_cid_def effect_calm calm_honest)

lemma prepared_trace:
  assumes "tr m prep calm"
    and body: "\<And>as. calm as \<Longrightarrow> tr body (\<lambda>x es. effect_log env t job x (as @ es)) (\<lambda>es. effect_events env t job (as @ es))"
  shows "tr (prepared_for m cid body) (effect_log env t job) (effect_events env t job)"
  unfolding prepared_for_def
proof (rule tr_bind_seq [OF tr_mono [OF assms(1)]])
  fix f as assume f: "prep f as"
  show "tr (case f of Some (st, d) \<Rightarrow> ireturn (st, cid, False, pkgx_detail_set (Some d)) | None \<Rightarrow> body)
      (\<lambda>x es. effect_log env t job x (as @ es)) (\<lambda>es. effect_events env t job (as @ es))"
    by (intro tr_rules body) (use f in \<open>auto simp: prep_def intro: effect_early\<close>)
qed (auto simp: effect_calm)

lemma txn_trace:
  assumes tx: "pe_tx env = pkgx_transport_tx t" and verb: "cstr verb = verb"
  shows "tr (pkgx_apt_txn_effect env verb targets timeout) (effect_log env t (TxnJob verb targets)) (effect_events env t (TxnJob verb targets))"
  unfolding pkgx_apt_txn_effect_def Let_def txn_open_def
proof (rule prepared_trace)
  fix as assume as: "calm as"
  show "tr (txn_plan_and_commit env verb targets cid)
      (\<lambda>x es. effect_log env t (TxnJob verb targets) x (as @ es)) (\<lambda>es. effect_events env t (TxnJob verb targets) (as @ es))"
    for cid
    unfolding txn_plan_and_commit_def
  proof (rule tr_bind, rule tr_apt_packages)
    fix r
    have "tr (ibind (plan_step env (Txn (Some verb) (pkgx_apt_map_txn (r_pkgs r))) (map Some targets) None cid)
          (\<lambda>q. settle q txn_finish))
        (\<lambda>x es. effect_log env t (TxnJob verb targets) x ((as @ [Sys (Apt ReadCache) r]) @ es))
        (\<lambda>es. effect_events env t (TxnJob verb targets) ((as @ [Sys (Apt ReadCache) r]) @ es))"
      by (rule effect_plan_trace [OF tx txn_finish_trace]) (use as in auto)
    then show "tr (ibind (pkgx_plan_and_redeem env verb (pkgx_apt_map_txn (r_pkgs r)) (map Some targets) cid)
          (\<lambda>q. settle q txn_finish))
        (\<lambda>x es. effect_log env t (TxnJob verb targets) x (as @ [Sys (Apt ReadCache) r] @ es))
        (\<lambda>es. effect_events env t (TxnJob verb targets) (as @ [Sys (Apt ReadCache) r] @ es))"
      by (simp add: verb)
  qed (use as in \<open>simp add: effect_calm\<close>)
qed (intro prep_rules; simp)

lemma update_trace:
  assumes tx: "pe_tx env = pkgx_transport_tx t"
  shows "tr (pkgx_apt_update_effect env token timeout) (effect_log env t (UpdateJob token)) (effect_events env t (UpdateJob token))"
  unfolding pkgx_apt_update_effect_def Let_def update_open_def
proof (rule prepared_trace)
  fix as assume as: "calm as"
  show "tr (update_plan_and_commit env token cid)
      (\<lambda>x es. effect_log env t (UpdateJob token) x (as @ es)) (\<lambda>es. effect_events env t (UpdateJob token) (as @ es))"
    for cid
    unfolding update_plan_and_commit_def
  proof (rule tr_bind, rule tr_syscall, rule tr_if)
    fix r
    show "tr (ibind (apt_do (ConfigSet ''APT::Update::Error-Mode'' ''any'')) (\<lambda>u.
          ibind (pkgx_plan_and_redeem_update env (pkgx_apt_map_sources (pe_evp env) (r_sources r)) token cid)
            (\<lambda>q. settle q update_finish)))
        (\<lambda>x es. effect_log env t (UpdateJob token) x (as @ [Sys (Apt ReadMainList) r] @ es))
        (\<lambda>es. effect_events env t (UpdateJob token) (as @ [Sys (Apt ReadMainList) r] @ es))"
    proof (rule tr_bind, rule tr_apt_do)
      fix r'
      let ?es = "[Sys (Apt ReadMainList) r, Sys (Apt (ConfigSet ''APT::Update::Error-Mode'' ''any'')) r']"
      have "tr (ibind (plan_step env (Upd (pkgx_apt_map_sources (pe_evp env) (r_sources r))) [] token cid)
            (\<lambda>q. settle q update_finish))
          (\<lambda>x es. effect_log env t (UpdateJob token) x ((as @ ?es) @ es))
          (\<lambda>es. effect_events env t (UpdateJob token) ((as @ ?es) @ es))"
        by (rule effect_plan_trace [OF tx update_finish_trace]) (use as in auto)
      then show "tr (ibind (pkgx_plan_and_redeem_update env (pkgx_apt_map_sources (pe_evp env) (r_sources r)) token cid)
            (\<lambda>q. settle q update_finish))
          (\<lambda>x es. effect_log env t (UpdateJob token) x (as @ [Sys (Apt ReadMainList) r] @
             [Sys (Apt (ConfigSet ''APT::Update::Error-Mode'' ''any'')) r'] @ es))
          (\<lambda>es. effect_events env t (UpdateJob token) (as @ [Sys (Apt ReadMainList) r] @
             [Sys (Apt (ConfigSet ''APT::Update::Error-Mode'' ''any'')) r'] @ es))"
        by simp
    qed (use as in \<open>simp add: effect_calm\<close>)
  qed (use as in \<open>auto simp: effect_calm intro!: tr_return effect_early\<close>)
qed (intro prep_rules; simp)

text \<open>The change filter: an accepted target list gives the changes that the lookups determine.\<close>

lemma lookups_simps [simp]:
  "lookups [] = []" "lookups (es @ fs) = lookups es @ lookups fs" "lookups (e # fs) = lookup_event e @ lookups fs"
  by (simp_all add: lookups_def)

lemma changes_append: "changes_of hold (xs @ ys) = changes_of hold xs @ changes_of hold ys"
  by (induction hold xs rule: changes_of.induct) (simp_all add: Let_def)

lemma map_hold_trace:
  "tr (map_hold_targets hold ts changes)
    (\<lambda>m es. calm es \<and> (\<forall>cs. m = HOLD_MAP_OK cs \<longrightarrow>
       map fst (lookups es) = ts \<and> cs = changes @ changes_of hold (lookups es))) calm"
proof (induction ts arbitrary: hold changes)
  case (Cons t ts)
  show ?case
    unfolding map_hold_targets.simps Let_def
    by (intro tr_rules) (auto intro!: tr_rules tr_mono [OF Cons.IH] split: list.splits)
qed (auto intro: tr_return)

lemma hold_trace:
  assumes tx: "pe_tx env = pkgx_transport_tx t" and verb: "cstr verb = verb"
  shows "tr (pkgx_apt_hold_effect env environ verb targets timeout) (effect_log env t (HoldJob verb targets))
    (effect_events env t (HoldJob verb targets))"
  unfolding pkgx_apt_hold_effect_def Let_def
proof (rule prepared_trace)
  fix as assume as: "calm as"
  show "tr (hold_plan_and_commit env environ verb targets cid)
      (\<lambda>x es. effect_log env t (HoldJob verb targets) x (as @ es)) (\<lambda>es. effect_events env t (HoldJob verb targets) (as @ es))"
    for cid
    unfolding hold_plan_and_commit_def pkgx_apt_map_hold_def
  proof (rule tr_bind_seq [OF tr_mono [OF map_hold_trace]])
    fix m es
    assume m: "calm es \<and> (\<forall>cs. m = HOLD_MAP_OK cs \<longrightarrow>
      map fst (lookups es) = targets \<and> cs = [] @ changes_of (verb = ''apt.hold'') (lookups es))"
    show "tr (case m of
          HOLD_MAP_OK changes \<Rightarrow> ibind (pkgx_plan_and_redeem_hold env verb (map hold_record_of changes) (map Some targets) cid)
            (\<lambda>p. settle p (hold_finish environ changes))
        | HOLD_MAP_UNKNOWN t \<Rightarrow> ireturn (APT_RESOLVE_FAILED, cid, False, pkgx_detail_set (Some t))
        | HOLD_MAP_INVALID t \<Rightarrow> ireturn (APT_RESOLVE_FAILED, cid, False, pkgx_detail_set (Some t)))
        (\<lambda>x fs. effect_log env t (HoldJob verb targets) x (as @ es @ fs))
        (\<lambda>fs. effect_events env t (HoldJob verb targets) (as @ es @ fs))"
    proof (cases m)
      case (HOLD_MAP_OK changes)
      have "job_plan env (HoldJob verb targets) (as @ es) (Hold (Some verb) (map hold_record_of changes))"
        using m HOLD_MAP_OK by auto
      then have "tr (ibind (plan_step env (Hold (Some verb) (map hold_record_of changes)) (map Some targets) None cid)
            (\<lambda>q. settle q (hold_finish environ changes)))
          (\<lambda>x fs. effect_log env t (HoldJob verb targets) x ((as @ es) @ fs))
          (\<lambda>fs. effect_events env t (HoldJob verb targets) ((as @ es) @ fs))"
        by (intro effect_plan_trace [OF tx hold_finish_trace]) (use as m in auto)
      then show ?thesis by (simp add: HOLD_MAP_OK verb)
    qed (use as m in \<open>auto intro!: tr_return effect_early\<close>)
  qed (use as in \<open>auto simp: effect_calm\<close>)
qed (intro prep_rules; simp)

lemma configure_trace:
  assumes tx: "pe_tx env = pkgx_transport_tx t"
  shows "tr (pkgx_apt_configure_effect env environ timeout) (effect_log env t ConfigureJob) (effect_events env t ConfigureJob)"
  unfolding pkgx_apt_configure_effect_def Let_def
proof (rule prepared_trace)
  fix as assume as: "calm as"
  show "tr (configure_plan_and_commit env environ cid)
      (\<lambda>x es. effect_log env t ConfigureJob x (as @ es)) (\<lambda>es. effect_events env t ConfigureJob (as @ es))"
    for cid
    unfolding configure_plan_and_commit_def
  proof (rule tr_bind, rule tr_apt_packages, rule tr_sum)
    fix r :: reply and cfgs assume cfgs: "pkgx_apt_map_configure (r_pkgs r) = Inr cfgs"
    have "tr (ibind (plan_step env (Cfg cfgs) [] None cid) (\<lambda>q. settle q (configure_finish environ)))
        (\<lambda>x es. effect_log env t ConfigureJob x ((as @ [Sys (Apt ReadCache) r]) @ es))
        (\<lambda>es. effect_events env t ConfigureJob ((as @ [Sys (Apt ReadCache) r]) @ es))"
      by (rule effect_plan_trace [OF tx configure_finish_trace]) (use as cfgs in auto)
    then show "tr (ibind (pkgx_plan_and_redeem_configure env cfgs cid) (\<lambda>q. settle q (configure_finish environ)))
        (\<lambda>x es. effect_log env t ConfigureJob x (as @ [Sys (Apt ReadCache) r] @ es))
        (\<lambda>es. effect_events env t ConfigureJob (as @ [Sys (Apt ReadCache) r] @ es))"
      by simp
  qed (use as in \<open>auto simp: effect_calm intro!: tr_return effect_early\<close>)
qed (intro prep_rules; simp)

lemma job_trace:
  assumes "pe_tx env = pkgx_transport_tx t" "cstr (job_verb job) = job_verb job"
  shows "tr (run_job env environ timeout job) (effect_log env t job) (effect_events env t job)"
  using assms txn_trace update_trace hold_trace configure_trace by (cases job) simp_all

text \<open>A mutation can only come after a calm stretch.\<close>

lemma mutation_after: "us @ e # vs = ps @ cs \<Longrightarrow> calm ps \<Longrightarrow> mutates e \<Longrightarrow> \<exists>cs'. us = ps @ cs'"
  by (auto simp: append_eq_append_conv2 Cons_eq_append_conv)

section \<open>Properties\<close>

text \<open>C3. Nothing happens to the host without a redeemed receipt: in every run of every effector, finished or
cut off, a call that fetches, hands over the inner lock, runs dpkg or refreshes the lists comes after an
exchange with an authenticated broker in which the request named the receipt, uid, verb, resource and
the digest of the plan that libapt's own answers in this run give, and the broker answered with the exact
success reply for this correlation id; the preparations before it contain no such call.\<close>

theorem effect_needs_redemption:
  assumes "pe_tx env = pkgx_transport_tx t" and "cstr (job_verb job) = job_verb job"
    and "run_job env environ timeout job w = (res, w')"
    and "log w' = log w @ us @ e # vs" and "mutates e"
  shows "\<exists>as bs cs p. us = as @ bs @ cs \<and> calm as \<and> calm bs \<and> job_plan env job as p \<and>
    redeemed_for env t p (job_targets job) (job_token job) bs"
proof -
  have "tr (run_job env environ timeout job) (\<lambda>x. effect_events env t job) (effect_events env t job)"
    by (rule tr_mono [OF job_trace [OF assms(1,2)]]) (auto simp: effect_log_def)
  from tr_run [OF this assms(3)] assms(4) have "effect_events env t job (us @ e # vs)" by auto
  with assms(5) obtain as bs cs p where split: "us @ e # vs = as @ bs @ cs" "calm (as @ bs)" "job_plan env job as p"
    "redeemed_for env t p (job_targets job) (job_token job) bs"
    by (auto simp: effect_events_def)
  then obtain cs' where "us = (as @ bs) @ cs'"
    using mutation_after [OF _ _ assms(5), of us vs "as @ bs" cs] by auto
  with split show ?thesis by (metis append_assoc calm_simps(2))
qed

text \<open>C36. The audit bit is honest: an effector reports \<open>effect_issued\<close> exactly when dpkg was started or the list
refresh was called; OK implies it, and with it the status is OK, operation_failed or dpkg_broken and the
correlation id is the redeemed one, so no refusal, lock miss or failed preparation ever claims or hides an
effect.\<close>

theorem effect_issued_honest:
  assumes "pe_tx env = pkgx_transport_tx t" and "cstr (job_verb job) = job_verb job"
    and "run_job env environ timeout job w = (Some (st, cid, issued, det), w')"
  shows "\<exists>es. log w' = log w @ es \<and> (issued \<longleftrightarrow> list_ex touches es) \<and> (st = APT_OK \<longrightarrow> issued) \<and>
    (issued \<longrightarrow> st \<in> {APT_OK, APT_COMMIT_FAILED, APT_BROKEN} \<and> cid = cstr (pe_expected_cid env))"
  using tr_returns [OF job_trace [OF assms(1,2)] assms(3)]
  by (auto simp: effect_log_def honest_def under_cid_def)

end
