(* ===== verification/Effect_Runs.thy ===== *)
theory Effect_Runs
  imports Entrypoint Effect_Proofs Request_Proofs Harden_Proofs
begin

text \<open>A whole run of the hold effector against a broker that redeems and a dpkg that obeys, and the
witnesses of the properties of \<open>Effect_Proofs\<close>.\<close>

text \<open>The request \<open>{}\<close> stands for asks to hold vim; every other text parses to the broker's success reply.\<close>

definition hold_json :: json where
  "hold_json = JObject [(''effect_receipt'', JString ex_receipt), (''correlation_id'', JString a_cid),
     (''plan_schema'', JInteger 1), (''packages'', JArray [JString ''vim'']), (''lock_timeout'', JInteger 30)]"

definition hold_request :: pkgx_request where
  "hold_request = \<lparr>effect_receipt = ex_receipt, correlation_id = a_cid, plan_schema = 1,
     packages = Some [''vim''], lock_timeout = 30\<rparr>"

definition ex_lib :: libraries where
  "ex_lib = \<lparr>lb_evp = ex_evp,
     lb_jansson = (ex_jn ok_json)\<lparr>j_loadb := (\<lambda>b. Some (if b = ''{}'' then hold_json else ok_json))\<rparr>\<rparr>"

definition ex_benv :: plan_env where
  "ex_benv = effect_env ex_lib 1000 hold_request"

lemma ex_benv_simps [simp]:
  "pe_evp ex_benv = ex_evp" "pe_expected_cid ex_benv = a_cid" "pe_tx ex_benv = pkgx_transport_tx broker_cfg"
  "j_dumps (pe_jansson ex_benv) = (\<lambda>_. Some ''body'')" "j_utf8 (pe_jansson ex_benv) = (\<lambda>_. True)"
  "j_loadb (pe_jansson ex_benv) = (\<lambda>b. Some (if b = ''{}'' then hold_json else ok_json))"
  by (simp_all add: ex_benv_def effect_env_def ex_lib_def ex_jn_def hold_request_def)

text \<open>The broker takes the four bytes \<open>body\<close> and answers \<open>reply\<close>.\<close>

definition broker_answers :: "reply list" where
  "broker_answers = [at_ms 0, ok_reply 3 [] 0, ok_reply 0 [] 0, root_peer, at_ms 1, ok_reply 5 [] 0, at_ms 2,
     ok_reply 4 [] 0, at_ms 3, ok_reply 5 (frame_header 5) 0, at_ms 4, ok_reply 5 ''reply'' 0]"

lemma five_bytes: "unat (reply_length (frame_header 5)) = 5"
  by (rule reply_length_header) simp

lemma ex_broker:
  assumes "answers v = broker_answers @ rs" "\<forall>i. aorc v i"
  shows "\<exists>v'. pkgx_transport_tx broker_cfg ''body'' v = (Some (0, Some ''reply''), v') \<and> answers v' = rs \<and> (\<forall>i. aorc v' i)"
  using assms
  by (simp add: io_run pkgx_transport_tx_def pkgx_transport_run_def deadline_at_def connect_and_exchange_def connect_deadline_def
    connect_round_def exchange_def send_request_def write_full_def write_round_def read_reply_def read_full_def
    read_round_def read_body_def ms_left_def time_left_def five_bytes broker_cfg_def broker_answers_def at_ms_def
    root_peer_def flip: numeral_2_eq_2)

section \<open>Holding vim\<close>

definition ex_pkg :: "selection \<Rightarrow> apt_pkg" where
  "ex_pkg sel = \<lparr>a_name = ''vim'', a_arch = ''amd64'', a_current_ver = None, a_inst_ver = None, a_selected = sel,
     a_current_state = Installed, a_essential = False, a_important = False, a_auto = False, a_delete = False,
     a_purge = False, a_new_install = False, a_upgrade = False, a_downgrade = False, a_needs_nothing = True\<rparr>"

definition yes :: reply where "yes = ok_reply 1 [] 0"

definition ex_found :: "selection \<Rightarrow> reply" where
  "ex_found sel = yes\<lparr>r_pkgs := [ex_pkg sel]\<rparr>"

text \<open>libapt up to the plan, and from the gate on: the dpkg path, the lock, the child, the lock, the
selection read back.\<close>

definition ex_before :: "reply list" where
  "ex_before = [yes, yes, yes, yes, yes, yes, ex_found SelInstall]"

definition ex_after :: "reply list" where
  "ex_after = [ok_reply 0 ''/usr/bin/dpkg'' 0, yes,
     \<lparr>r_ret = 0, r_errno = EOther, r_data = [], r_sec = 5, r_nsec = 6, r_pkgs = [], r_sources = []\<rparr>,
     ok_reply 0 [] 0, ok_reply 0 [] 0, ok_reply 0 [] 0, ok_reply 0 [] 0, ok_reply 0 [] 77, ok_reply 0 [] 0,
     ok_reply 9 [] 0, ok_reply 0 [] 0, ok_reply 77 [] 0, yes, yes, yes, yes, ex_found SelHold, yes]"

definition ex_changes :: "hold_change list" where
  "ex_changes = [\<lparr>hc_package = ''vim'', hc_from = ''install'', hc_to = ''hold'', hc_want_hold = True\<rparr>]"

lemma ex_records: "Hold (Some ''apt.hold'') (map hold_record_of ex_changes) = ex_hold [''vim'']"
  by (simp add: ex_changes_def ex_hold_def hold_record_of_def hold_of_def)

lemma a_cid_valid: "pkgx_cid_valid (Some a_cid)"
  by code_simp

lemma ex_commit:
  assumes "answers v = ex_after @ rs" "\<forall>i. aorc v i"
  shows "\<exists>v'. hold_finish environ ex_changes a_cid v = (Some (APT_OK, a_cid, True, ''ok''), v') \<and>
    list_ex mutates (log v') \<and> answers v' = rs \<and> (\<forall>i. aorc v' i)"
  using assms
  by (simp add: io_run hold_finish_def find_dpkg_def pkgx_effect_gate_def a_cid_valid hold_commit_def dpkg_commit_def
    run_dpkg_def apt_def apt_do_def apt_packages_def pkgx_spawn_wait_env_def child_environment_def build_child_env_def
    open_pipe_def file_actions_def add_actions_def run_child_def deliver_def push_def push_round_def wait_child_def
    wait_child_round_def exited_zero_def Let_def strlen_def cstr_def selections_match_def pkgx_hold_classify_def hold_report_def
    pkgx_detail_set_def hold_payload_def payload_line_def ex_changes_def ex_after_def ex_found_def yes_def ex_pkg_def)

text \<open>The run up to the plan step, the plan step, and the commit.\<close>

abbreviation ex_hold_run :: "string list \<Rightarrow> os \<Rightarrow> effect_outcome option \<times> os" where
  "ex_hold_run environ \<equiv> run_job ex_benv environ 30 (HoldJob ''apt.hold'' [''vim''])"

lemma ex_before_run:
  assumes "answers w = ex_before @ rs" "\<forall>i. aorc w i"
  shows "\<exists>v. ex_hold_run environ w =
      ibind (plan_step ex_benv (ex_hold [''vim'']) [Some ''vim''] None a_cid) (\<lambda>p. settle p (hold_finish environ ex_changes)) v \<and>
    answers v = rs \<and> (\<forall>i. aorc v i)"
proof -
  have cid: "pkgx_cid_echo (Some (pe_expected_cid ex_benv)) = a_cid"
    by (simp add: pkgx_cid_echo_def)
  show ?thesis
    unfolding run_job.simps pkgx_apt_hold_effect_def cid Let_def
    by (simp add: assms prepared_for_def and_then_def apt_start_def pkgx_apt_init_def pkgx_apt_set_lock_timeout_def open_cache_def
      check_def hold_plan_and_commit_def pkgx_apt_map_hold_def apt_def apt_do_def apt_packages_def
      ex_before_def ex_found_def yes_def ex_pkg_def selection_word_def ex_records [symmetric] ex_changes_def Let_def
      io_run del: decimal_digits.simps, intro exI conjI, rule refl, simp_all add: assms(2))
qed

lemma ex_ready_broker:
  "plan_admitted ex_benv (ex_hold [''vim'']) (hex_of (replicate 32 27))"
  "encodable (pe_jansson ex_benv) r"
  "j_dumps (pe_jansson ex_benv) j = Some ''body''"
  "redeemed_reply (j_loadb (pe_jansson ex_benv) ''reply'') (pe_expected_cid ex_benv)"
proof -
  show "plan_admitted ex_benv (ex_hold [''vim'']) (hex_of (replicate 32 27))"
    using ex_admitted by (simp add: plan_admitted_def ex_env_def)
qed (simp_all add: encodable_def redeemed_reply_def ok_json_def)

lemma ex_run:
  assumes "answers w = ex_before @ broker_answers @ ex_after @ rs" "\<forall>i. aorc w i"
  shows "\<exists>w'. ex_hold_run environ w = (Some (APT_OK, a_cid, True, ''ok''), w') \<and> list_ex mutates (log w') \<and>
    answers w' = rs \<and> (\<forall>i. aorc w' i)"
proof -
  obtain v where v: "ex_hold_run environ w = ibind (plan_step ex_benv (ex_hold [''vim'']) [Some ''vim''] None a_cid)
      (\<lambda>p. settle p (hold_finish environ ex_changes)) v" "answers v = broker_answers @ ex_after @ rs" "\<forall>i. aorc v i"
    using ex_before_run [OF assms] by blast
  have "\<exists>w'. plan_step ex_benv (ex_hold [''vim'']) [Some ''vim''] None a_cid v =
      (Some (PLAN_OK, cstr (pe_expected_cid ex_benv), Some ''ok''), w') \<and> answers w' = ex_after @ rs \<and> (\<forall>i. aorc w' i)"
    by (rule plan_live_with [OF v(3) ex_ready_broker(1) ex_ready(1) ex_ready_broker(2,3) _ ex_ready_broker(4)])
       (use ex_broker v in auto)
  then obtain w' where w': "plan_step ex_benv (ex_hold [''vim'']) [Some ''vim''] None a_cid v =
      (Some (PLAN_OK, a_cid, Some ''ok''), w')" "answers w' = ex_after @ rs" "\<forall>i. aorc w' i"
    by auto
  from ex_commit [OF w'(2,3)] show ?thesis
    unfolding v(1) by (simp add: ibind_def w'(1) settle_def refusal_status_def)
qed

section \<open>Witnesses\<close>

definition ex_world :: os where
  "ex_world = script (ex_before @ broker_answers @ ex_after)"

lemma ex_world_run:
  obtains w' where "ex_hold_run [] ex_world = (Some (APT_OK, a_cid, True, ''ok''), w')" "list_ex mutates (log w')"
  using ex_run [of ex_world "[]" "[]"] by (auto simp: ex_world_def script_def)

lemma ex_job: "pe_tx ex_benv = pkgx_transport_tx broker_cfg"
  "cstr (job_verb (HoldJob ''apt.hold'' [''vim''])) = job_verb (HoldJob ''apt.hold'' [''vim''])"
  "log ex_world = []"
  by (simp_all add: ex_world_def script_def cstr_def)

theorem effect_issued_honest_witness:
  "\<exists>w'. ex_hold_run [] ex_world = (Some (APT_OK, a_cid, True, ''ok''), w') \<and> list_ex touches (log w')"
proof -
  obtain w' where run: "ex_hold_run [] ex_world = (Some (APT_OK, a_cid, True, ''ok''), w')" by (rule ex_world_run)
  show ?thesis using effect_issued_honest [OF ex_job(1,2) run] run ex_job(3) by auto
qed

theorem effect_needs_redemption_witness:
  "\<exists>bs p. redeemed_for ex_benv broker_cfg p [Some ''vim''] None bs"
proof -
  obtain w' where run: "ex_hold_run [] ex_world = (Some (APT_OK, a_cid, True, ''ok''), w')" "list_ex mutates (log w')"
    by (rule ex_world_run)
  then obtain us e vs where "log w' = log ex_world @ us @ e # vs" "mutates e"
    by (auto simp: list_ex_iff ex_job(3) dest!: split_list)
  from effect_needs_redemption [OF ex_job(1,2) run(1) this] show ?thesis by auto
qed

end
