(* ===== verification/Entry_Proofs.thy ===== *)
theory Entry_Proofs
  imports Entrypoint Effect_Proofs Stdin_Proofs Request_Proofs Harden_Proofs Result_Proofs
begin

text \<open>
  The whole helper: what has to have happened before the host is touched, in which order, and what
  the exit code and the result channel say afterwards. The log of a run is cut into the stretches
  of the steps of \<open>main\<close>.
\<close>

section \<open>Steps that leave the host alone\<close>

lemma tr_parsing [tr_rules]: "(\<And>A k x k'. f A k = (x, k') \<Longrightarrow> P x []) \<Longrightarrow> tr (parsing f) P E"
  by (simp add: tr_def wp_def parsing_def later_def split: prod.split)

lemma channel_calm:
  "tr pkgx_result_channel_open (\<lambda>rfd es. calm es \<and> (\<forall>fd. bytes_written fd es = [])) calm"
  unfolding pkgx_result_channel_open_def Let_def by (intro tr_rules) auto

lemma stdin_calm: "tr (pkgx_read_stdin fd) (\<lambda>x. calm) calm"
proof -
  have loop: "tr (io_loop (stdin_round fd dl start) s) (\<lambda>x. calm) calm" for dl start s
    unfolding stdin_round_def grow_stdin_def
    by (rule tr_loop [where I = "\<lambda>_. calm"]) (auto intro!: tr_rules split: prod.split)
  show ?thesis
    unfolding pkgx_read_stdin_def pkgx_read_stdin_deadline_def stdin_finish_def
    by (intro tr_rules tr_mono [OF loop]) (auto intro!: tr_rules)
qed

lemma emit_calm: "tr (pkgx_result_emit jn fd st issued cid det) (\<lambda>x. calm) calm"
proof -
  have push: "tr (push fd buf) (\<lambda>x. calm) calm" for buf
    unfolding push_def push_round_def
    by (rule tr_loop [where I = "\<lambda>_. calm"]) (auto intro!: tr_rules)
  show ?thesis
    unfolding pkgx_result_emit_def emit_line_def
    by (intro tr_rules tr_allocating tr_mono [OF push]) (auto intro!: tr_rules)
qed

section \<open>The request\<close>

text \<open>The uid was the one in the environment, the body was exactly what came in on fd 0, it was a
well-shaped request for this verb, and it was wiped last.\<close>

definition request_read :: "libraries \<Rightarrow> string \<Rightarrow> string list \<Rightarrow> int \<Rightarrow> pkgx_request \<Rightarrow> event list \<Rightarrow> bool" where
  "request_read lib verb environ uid req es \<longleftrightarrow> pkgx_read_pkexec_uid environ = Some uid \<and>
     (\<exists>rs root. es = rs @ [Wipe (bytes_read 0 rs)] \<and> length (bytes_read 0 rs) \<le> 65536 \<and>
        j_loadb (lb_jansson lib) (bytes_read 0 rs) = Some root \<and> request_shape verb root req)"

lemma read_request_trace:
  "tr (read_request lib verb environ)
    (\<lambda>r es. calm es \<and> (\<forall>uid req. r = Inr (uid, req) \<longrightarrow> request_read lib verb environ uid req es)) calm"
proof -
  have stdin: "tr (pkgx_read_stdin 0)
      (\<lambda>b es. calm es \<and> (\<forall>body. b = Inr body \<longrightarrow> body = bytes_read 0 es \<and> length body \<le> 65536)) calm"
    by (rule tr_mono [OF tr_both [OF stdin_calm stdin_tr [of 0 "5 * 1000", folded pkgx_read_stdin_def]]])
       (auto simp: stdin_result_def)
  show ?thesis
    unfolding read_request_def
    by (intro tr_rules tr_mono [OF stdin])
       (auto simp: request_read_def intro!: tr_rules dest: parse_sound)
qed

section \<open>Hygiene\<close>

definition succeeded :: "event \<Rightarrow> call option" where
  "succeeded e = (case e of Sys c r \<Rightarrow> if r_ret r = 0 then Some c else None | _ \<Rightarrow> None)"

definition scrubbed :: "event list \<Rightarrow> bool" where
  "scrubbed es \<longleftrightarrow>
     map succeeded es = Some (Proc ClearEnv) # map (\<lambda>(k, v). Some (Proc (SetEnv k v))) SAFE_ENV"

definition clean_from :: "int \<Rightarrow> event list \<Rightarrow> bool" where
  "clean_from lowest es \<longleftrightarrow> (\<exists>d. Sys (Fd OpenProcFd) d \<in> set es \<and> 0 \<le> r_ret d \<and>
     list_all (\<lambda>e. list_all (\<lambda>fd. swept fd es) (listed lowest (r_ret d) e)) es)"

text \<open>The environment was cleared and the three safe variables set; then standard input became the null
device and may be inherited; then every listed descriptor from 3 on was dealt with.\<close>

definition hygienic :: "event list \<Rightarrow> bool" where
  "hygienic es \<longleftrightarrow> (\<exists>as bs cs. es = as @ bs @ cs \<and> scrubbed as \<and>
     stdin_null bs \<and> inheritable (last bs) \<and> clean_from 3 cs)"

lemma scrub_events:
  "tr pkgx_scrub_env (\<lambda>r es. calm es \<and> (r \<noteq> None \<longrightarrow> r = Some safe_environ \<and> scrubbed es)) calm"
  unfolding pkgx_scrub_env_def SAFE_ENV_def set_all.simps
  by (intro tr_rules) (simp_all add: safe_environ_def succeeded_def scrubbed_def SAFE_ENV_def)

lemma null_stdin_events:
  "tr pkgx_null_stdin (\<lambda>n es. calm es \<and> (n = 0 \<longrightarrow> stdin_null es \<and> inheritable (last es))) calm"
proof -
  have "tr pkgx_null_stdin (\<lambda>x. calm) calm"
    unfolding pkgx_null_stdin_def keep_stdin_def Let_def by (intro tr_rules) auto
  from tr_both [OF this null_stdin_trace] show ?thesis by (rule tr_mono) auto
qed

lemma cloexec_events:
  "tr (pkgx_cloexec_from lowest) (\<lambda>c es. calm es \<and> (c = 0 \<longrightarrow> clean_from lowest es)) calm"
proof -
  have loop: "tr (io_loop (cloexec_round lowest dirfd) s) (\<lambda>x. calm) calm" for dirfd s
    unfolding cloexec_round_def set_cloexec_def Let_def
    by (rule tr_loop [where I = "\<lambda>_. calm"]) (auto intro!: tr_rules)
  have "tr (pkgx_cloexec_from lowest) (\<lambda>x. calm) calm"
    unfolding pkgx_cloexec_from_def by (intro tr_rules tr_mono [OF loop]) auto
  from tr_both [OF this cloexec_trace] show ?thesis by (rule tr_mono) (auto simp: clean_from_def)
qed

lemma hygiene_trace:
  "tr hygiene (\<lambda>r es. calm es \<and> (r \<noteq> None \<longrightarrow> r = Some safe_environ \<and> hygienic es)) calm"
  unfolding hygiene_def
proof (rule tr_bind_seq [OF scrub_events], rule tr_option)
  fix e as env
  assume e: "calm as \<and> (e \<noteq> None \<longrightarrow> e = Some safe_environ \<and> scrubbed as)" "e = Some env"
  show "tr (ibind pkgx_null_stdin (\<lambda>n. if n \<noteq> 0 then ireturn None
        else ibind (pkgx_cloexec_from 3) (\<lambda>c. ireturn (if c \<noteq> 0 then None else Some env))))
      (\<lambda>r es. calm (as @ es) \<and> (r \<noteq> None \<longrightarrow> r = Some safe_environ \<and> hygienic (as @ es)))
      (\<lambda>es. calm (as @ es))"
  proof (rule tr_bind_seq [OF tr_mono [OF null_stdin_events]], assumption)
    fix n bs assume n: "calm bs \<and> (n = (0 :: int) \<longrightarrow> stdin_null bs \<and> inheritable (last bs))"
    have fine: "hygienic (as @ bs @ cs)" if "n = 0" "clean_from 3 cs" for cs
      unfolding hygienic_def using e n that by blast
    show "tr (if n \<noteq> 0 then ireturn None else ibind (pkgx_cloexec_from 3) (\<lambda>c. ireturn (if c \<noteq> 0 then None else Some env)))
        (\<lambda>r fs. calm (as @ bs @ fs) \<and> (r \<noteq> None \<longrightarrow> r = Some safe_environ \<and> hygienic (as @ bs @ fs)))
        (\<lambda>fs. calm (as @ bs @ fs))"
      by (rule tr_if, rule tr_return, use e n in simp, rule tr_bind, rule tr_mono [OF cloexec_events], rule tr_return)
         (use e n fine in \<open>auto split: if_splits\<close>)
  qed (use e in auto)
qed (auto intro!: tr_rules)

section \<open>The record\<close>

lemma emission:
  "tr (pkgx_result_emit jn rfd st issued cid det)
     (\<lambda>ec es. emitted jn rfd (result_record st issued cid det) ec es \<and> calm es) calm"
  by (rule tr_mono [OF tr_both [OF emit_trace emit_calm]]) auto

lemma fail_trace: "tr (fail_result lib rfd cid det) (\<lambda>rc es. rc = 1 \<and> calm es) calm"
  unfolding fail_result_def by (intro tr_rules tr_mono [OF emit_calm]) auto

lemma release_trace: "tr (ibind (release req) (\<lambda>_. ireturn rc)) (\<lambda>x. calm) calm"
  unfolding release_def by (intro tr_rules) auto

section \<open>From hygiene on\<close>

definition perform_events :: "libraries \<Rightarrow> int \<Rightarrow> pkgx_request \<Rightarrow> job \<Rightarrow> event list \<Rightarrow> bool" where
  "perform_events lib uid req job es \<longleftrightarrow> calm es \<or>
     (\<exists>hs js ks. es = hs @ js @ ks \<and> calm hs \<and> hygienic hs \<and>
        effect_events (effect_env lib uid req) broker_cfg job js \<and> calm ks)"

lemma perform_eventsI:
  "calm hs \<Longrightarrow> hygienic hs \<Longrightarrow> effect_events (effect_env lib uid req) broker_cfg job js \<Longrightarrow> calm ks \<Longrightarrow>
   perform_events lib uid req job (hs @ js @ ks)"
  unfolding perform_events_def by blast

lemma perform_calm: "calm es \<Longrightarrow> perform_events lib uid req job es"
  by (simp add: perform_events_def)

lemma perform_trace:
  assumes verb: "cstr (job_verb job) = job_verb job"
  shows "tr (perform lib rfd uid req job) (\<lambda>rc. perform_events lib uid req job) (perform_events lib uid req job)"
  unfolding perform_def
proof (rule tr_bind_seq [OF tr_mono [OF hygiene_trace _ perform_calm]], assumption, assumption, rule tr_option)
  fix h hs assume h: "calm hs \<and> (h \<noteq> None \<longrightarrow> h = Some safe_environ \<and> hygienic hs)"
  have "tr (ibind (fail_result lib rfd (correlation_id req) ''hygiene'') (\<lambda>rc. ibind (release req) (\<lambda>_. ireturn rc)))
      (\<lambda>rc. calm) calm"
    by (intro tr_bind_seq [OF fail_trace]) (auto intro!: tr_mono [OF release_trace])
  then show "tr (ibind (fail_result lib rfd (correlation_id req) ''hygiene'') (\<lambda>rc. ibind (release req) (\<lambda>_. ireturn rc)))
      (\<lambda>rc es. perform_events lib uid req job (hs @ es)) (\<lambda>es. perform_events lib uid req job (hs @ es))"
    by (rule tr_mono) (use h in \<open>auto intro: perform_calm\<close>)
next
  fix h hs environ assume h: "calm hs \<and> (h \<noteq> None \<longrightarrow> h = Some safe_environ \<and> hygienic hs)" "h = Some environ"
  have tx: "pe_tx (effect_env lib uid req) = pkgx_transport_tx broker_cfg" by (simp add: effect_env_def)
  show "tr (ibind (run_job (effect_env lib uid req) environ (c_int (lock_timeout req)) job) (\<lambda>(st, cid, issued, detail).
        ibind (pkgx_result_emit (lb_jansson lib) rfd st issued cid detail) (\<lambda>emitted.
        ibind (release req) (\<lambda>_. ireturn (if emitted \<noteq> 0 then 1 else exit_code st)))))
      (\<lambda>rc es. perform_events lib uid req job (hs @ es)) (\<lambda>es. perform_events lib uid req job (hs @ es))"
  proof (rule tr_bind_seq [OF tr_mono [OF job_trace [OF tx verb]]], assumption)
    fix x js assume x: "effect_log (effect_env lib uid req) broker_cfg job x js"
    have "tr (ibind (pkgx_result_emit (lb_jansson lib) rfd st issued cid det) (\<lambda>emitted.
        ibind (release req) (\<lambda>_. ireturn (f emitted)))) (\<lambda>x :: int. calm) calm" for st cid issued det f
      by (rule tr_bind_seq [OF emit_calm]) (auto intro!: tr_mono [OF release_trace])
    then show "tr (case x of (st, cid, issued, detail) \<Rightarrow>
          ibind (pkgx_result_emit (lb_jansson lib) rfd st issued cid detail) (\<lambda>emitted.
          ibind (release req) (\<lambda>_. ireturn (if emitted \<noteq> 0 then 1 else exit_code st))))
        (\<lambda>rc es. perform_events lib uid req job (hs @ js @ es)) (\<lambda>es. perform_events lib uid req job (hs @ js @ es))"
      by (intro tr_prod, rule tr_mono) (use h x in \<open>auto intro!: perform_eventsI simp: effect_log_def\<close>)
  next
    show "perform_events lib uid req job (hs @ es)"
      if "effect_events (effect_env lib uid req) broker_cfg job es" for es
      using perform_eventsI [of hs lib uid req job es "[]"] h that by simp
  qed
qed

section \<open>The whole helper\<close>

definition main_events :: "libraries \<Rightarrow> string \<Rightarrow> (pkgx_request \<Rightarrow> job) \<Rightarrow> string list \<Rightarrow> event list \<Rightarrow> bool" where
  "main_events lib verb select environ es \<longleftrightarrow> calm es \<or>
     (\<exists>ch rs ps uid req. es = ch @ rs @ ps \<and> calm ch \<and> calm rs \<and> request_read lib verb environ uid req rs \<and>
        perform_events lib uid req (select req) ps)"

lemma main_calm: "calm es \<Longrightarrow> main_events lib verb select environ es"
  by (simp add: main_events_def)

lemma main_trace:
  assumes verb: "\<And>req. cstr (job_verb (select req)) = job_verb (select req)"
  shows "tr (helper_main lib verb select environ)
    (\<lambda>rc. main_events lib verb select environ) (main_events lib verb select environ)"
  unfolding helper_main_def
proof (rule tr_bind_seq [OF tr_mono [OF channel_calm _ main_calm]], assumption, assumption, rule tr_if)
  fix rfd ch assume ch: "calm ch \<and> (\<forall>fd. bytes_written fd ch = [])"
  show "tr (ireturn 1) (\<lambda>rc es. main_events lib verb select environ (ch @ es))
      (\<lambda>es. main_events lib verb select environ (ch @ es))"
    by (rule tr_return) (use ch in \<open>simp add: main_calm\<close>)
  have E: "main_events lib verb select environ (ch @ es)" if "calm es" for es
    using ch that by (simp add: main_calm)
  show "tr (ibind (read_request lib verb environ) (\<lambda>r. case r of
        Inl detail \<Rightarrow> fail_result lib rfd [] detail
      | Inr (uid, req) \<Rightarrow> perform lib rfd uid req (select req)))
      (\<lambda>rc es. main_events lib verb select environ (ch @ es))
      (\<lambda>es. main_events lib verb select environ (ch @ es))"
  proof (rule tr_bind_seq [OF tr_mono [OF read_request_trace _ E]], assumption, assumption, rule tr_sum)
    fix r rs detail
    assume "calm rs \<and> (\<forall>uid req. r = Inr (uid, req) \<longrightarrow> request_read lib verb environ uid req rs)"
    then show "tr (fail_result lib rfd [] detail) (\<lambda>rc es. main_events lib verb select environ (ch @ rs @ es))
        (\<lambda>es. main_events lib verb select environ (ch @ rs @ es))"
      by (intro tr_mono [OF fail_trace]) (use ch in \<open>auto intro: main_calm\<close>)
  next
    fix r rs q
    assume r: "calm rs \<and> (\<forall>uid req. r = Inr (uid, req) \<longrightarrow> request_read lib verb environ uid req rs)" "r = Inr q"
    obtain uid req where q: "q = (uid, req)" by (cases q)
    have "main_events lib verb select environ (ch @ rs @ es)" if "perform_events lib uid req (select req) es" for es
      unfolding main_events_def using ch r q that by blast
    then show "tr (case q of (uid, req) \<Rightarrow> perform lib rfd uid req (select req))
        (\<lambda>rc es. main_events lib verb select environ (ch @ rs @ es))
        (\<lambda>es. main_events lib verb select environ (ch @ rs @ es))"
      unfolding q prod.case by (intro tr_mono [OF perform_trace [OF verb]])
  qed
qed

lemma family_verb: "cstr verb = verb \<Longrightarrow> cstr (job_verb (family_job family verb req)) = job_verb (family_job family verb req)"
  by (cases family) (simp_all add: family_job_def)

lemma tool_verb: "cstr (job_verb (verb_job (cstr a) req)) = job_verb (verb_job (cstr a) req)"
  by (auto simp: verb_job_def cstr_def takeWhile_eq_all_conv dest: set_takeWhileD)

lemma main_mutation:
  assumes "main_events lib verb select environ (us @ e # vs)" "mutates e"
  obtains ch rs hs as bs cs uid req p where "us = ch @ rs @ hs @ as @ bs @ cs" "calm (ch @ rs @ hs @ as @ bs)"
    "request_read lib verb environ uid req rs" "hygienic hs"
    "job_plan (effect_env lib uid req) (select req) as p"
    "redeemed_for (effect_env lib uid req) broker_cfg p (job_targets (select req)) (job_token (select req)) bs"
proof -
  have busy: "\<not> calm (us @ e # vs)" using assms(2) by simp
  with assms obtain ch rs ps uid req where m: "us @ e # vs = ch @ rs @ ps" "calm ch" "calm rs"
    "request_read lib verb environ uid req rs" "perform_events lib uid req (select req) ps"
    unfolding main_events_def by blast
  with busy have "\<not> calm ps" by simp
  with m(5) obtain hs js ks where p: "ps = hs @ js @ ks" "calm hs" "hygienic hs" "calm ks"
    "effect_events (effect_env lib uid req) broker_cfg (select req) js"
    unfolding perform_events_def by blast
  with \<open>\<not> calm ps\<close> have "\<not> calm js" by simp
  with p(5) obtain as bs cs pl where f: "js = as @ bs @ cs" "calm as" "calm bs"
    "job_plan (effect_env lib uid req) (select req) as pl"
    "redeemed_for (effect_env lib uid req) broker_cfg pl (job_targets (select req)) (job_token (select req)) bs"
    unfolding effect_events_def by blast
  have "us @ e # vs = (ch @ rs @ hs @ as @ bs) @ cs @ ks" "calm (ch @ rs @ hs @ as @ bs)"
    using m p f by simp_all
  with mutation_after [OF this assms(2)] obtain cs' where "us = ch @ rs @ hs @ as @ bs @ cs'" by auto
  with that m p f show thesis by simp
qed

section \<open>What is reported\<close>

text \<open>What the helper has to report after its channel was opened: the outcome of the effector that ran, or the step that
failed before it.\<close>

definition helper_outcome :: "libraries \<Rightarrow> string \<Rightarrow> (pkgx_request \<Rightarrow> job) \<Rightarrow> string list \<Rightarrow> os \<Rightarrow> effect_outcome \<Rightarrow> os \<Rightarrow> bool" where
  "helper_outcome lib verb select environ v x u \<longleftrightarrow>
     (\<exists>det. read_request lib verb environ v = (Some (Inl det), u) \<and> x = (APT_INTERNAL, [], False, det)) \<or>
     (\<exists>uid req s. read_request lib verb environ v = (Some (Inr (uid, req)), s) \<and>
        (hygiene s = (Some None, u) \<and> x = (APT_INTERNAL, correlation_id req, False, ''hygiene'') \<or>
         (\<exists>env t. hygiene s = (Some (Some env), t) \<and>
            run_job (effect_env lib uid req) env (c_int (lock_timeout req)) (select req) t = (Some x, u))))"

lemma ibind_Some: "ibind m f w = (Some y, w') \<longleftrightarrow> (\<exists>x v. m w = (Some x, v) \<and> f x v = (Some y, w'))"
  by (auto simp: ibind_def split: prod.splits option.splits)

lemma ireturn_Some: "ireturn x w = (Some y, w') \<longleftrightarrow> y = x \<and> w' = w"
  by (auto simp: ireturn_def)

definition tells :: "jansson \<Rightarrow> int \<Rightarrow> effect_outcome \<Rightarrow> os \<Rightarrow> int \<Rightarrow> os \<Rightarrow> bool" where
  "tells jn rfd x u rc w' = (case x of (st, cid, issued, det) \<Rightarrow> \<exists>ec bs cs. log w' = log u @ bs @ cs \<and>
     emitted jn rfd (result_record st issued cid det) ec bs \<and> set cs \<subseteq> range Wipe \<and>
     rc = (if ec \<noteq> 0 then 1 else exit_code st))"

lemma emit_tells:
  assumes "pkgx_result_emit jn rfd st issued cid det u = (Some ec, v)" "log w' = log v @ cs" "set cs \<subseteq> range Wipe"
    and "rc = (if ec \<noteq> 0 then 1 else exit_code st)"
  shows "tells jn rfd (st, cid, issued, det) u rc w'"
proof -
  obtain bs where "log v = log u @ bs" "emitted jn rfd (result_record st issued cid det) ec bs"
    using tr_returns [OF emission assms(1)] by blast
  then show ?thesis
    unfolding tells_def prod.case using assms(2-4) by (intro exI [of _ ec] exI [of _ bs] exI [of _ cs]) simp
qed

lemma fail_tells:
  assumes "fail_result lib rfd cid det u = (Some rc, v)" "log w' = log v @ cs" "set cs \<subseteq> range Wipe"
  shows "tells (lb_jansson lib) rfd (APT_INTERNAL, cid, False, det) u rc w'"
proof -
  from assms(1) obtain ec where "pkgx_result_emit (lb_jansson lib) rfd APT_INTERNAL False cid det u = (Some ec, v)" "rc = 1"
    by (auto simp: fail_result_def ibind_Some ireturn_Some)
  with assms(2,3) show ?thesis by (intro emit_tells) (auto simp: exit_code_def)
qed

lemma release_log: "release req v = (Some x, w') \<Longrightarrow> log w' = log v @ [Wipe (effect_receipt req)]"
  by (auto simp: release_def emit_def)

lemma main_tells:
  assumes "helper_main lib verb select environ w = (Some rc, w')"
  shows "\<exists>rfd v. pkgx_result_channel_open w = (Some rfd, v) \<and> (rfd < 0 \<and> rc = 1 \<and> w' = v \<or>
    0 \<le> rfd \<and> (\<exists>x u. helper_outcome lib verb select environ v x u \<and> tells (lb_jansson lib) rfd x u rc w'))"
proof -
  from assms obtain rfd v where c: "pkgx_result_channel_open w = (Some rfd, v)"
    and m: "(if rfd < 0 then ireturn 1 else ibind (read_request lib verb environ) (\<lambda>r. case r of
        Inl detail \<Rightarrow> fail_result lib rfd [] detail
      | Inr (uid, req) \<Rightarrow> perform lib rfd uid req (select req))) v = (Some rc, w')"
    unfolding helper_main_def ibind_Some by blast
  show ?thesis
  proof (cases "rfd < 0")
    case True
    with c m show ?thesis by (auto simp: ireturn_Some)
  next
    case False
    with m obtain r s where r: "read_request lib verb environ v = (Some r, s)"
      and n: "(case r of Inl detail \<Rightarrow> fail_result lib rfd [] detail
        | Inr (uid, req) \<Rightarrow> perform lib rfd uid req (select req)) s = (Some rc, w')"
      by (auto simp: ibind_Some)
    have "\<exists>x u. helper_outcome lib verb select environ v x u \<and> tells (lb_jansson lib) rfd x u rc w'"
    proof (cases r)
      case (Inl det)
      with n have "tells (lb_jansson lib) rfd (APT_INTERNAL, [], False, det) s rc w'"
        by (intro fail_tells [where cs = "[]"]) auto
      with r show ?thesis unfolding Inl helper_outcome_def by blast
    next
      case (Inr q)
      obtain uid req where q: "q = (uid, req)" by (cases q)
      from n obtain h t where h: "hygiene s = (Some h, t)"
        and p: "(case h of None \<Rightarrow> ibind (fail_result lib rfd (correlation_id req) ''hygiene'') (\<lambda>rc.
              ibind (release req) (\<lambda>_. ireturn rc))
          | Some environ \<Rightarrow>
              ibind (run_job (effect_env lib uid req) environ (c_int (lock_timeout req)) (select req)) (\<lambda>(st, cid, issued, detail).
              ibind (pkgx_result_emit (lb_jansson lib) rfd st issued cid detail) (\<lambda>emitted.
              ibind (release req) (\<lambda>_. ireturn (if emitted \<noteq> 0 then 1 else exit_code st))))) t = (Some rc, w')"
        by (auto simp: Inr q perform_def ibind_Some)
      show ?thesis
      proof (cases h)
        case None
        with p have "tells (lb_jansson lib) rfd (APT_INTERNAL, correlation_id req, False, ''hygiene'') t rc w'"
          by (auto simp: ibind_Some ireturn_Some dest!: release_log intro!: fail_tells)
        with r h show ?thesis unfolding Inr q None helper_outcome_def by blast
      next
        case (Some env)
        with p obtain st cid issued det u where j: "run_job (effect_env lib uid req) env (c_int (lock_timeout req)) (select req) t =
            (Some (st, cid, issued, det), u)"
          and e: "ibind (pkgx_result_emit (lb_jansson lib) rfd st issued cid det) (\<lambda>emitted.
              ibind (release req) (\<lambda>_. ireturn (if emitted \<noteq> 0 then 1 else exit_code st))) u = (Some rc, w')"
          by (auto simp: ibind_Some)
        from e have "tells (lb_jansson lib) rfd (st, cid, issued, det) u rc w'"
          by (auto simp: ibind_Some ireturn_Some dest!: release_log intro!: emit_tells)
        with r h j show ?thesis unfolding Inr q Some helper_outcome_def by blast
      qed
    qed
    with c False show ?thesis by auto
  qed
qed

lemma outcome_honest:
  assumes verb: "\<And>req. cstr (job_verb (select req)) = job_verb (select req)"
    and out: "helper_outcome lib verb select environ v x u"
  shows "\<exists>es. log u = log v @ es \<and> honest x es"
proof -
  have tx: "pe_tx (effect_env lib uid req) = pkgx_transport_tx broker_cfg" for uid req by (simp add: effect_env_def)
  from out show ?thesis
    unfolding helper_outcome_def
  proof (elim disjE exE conjE)
    fix det assume "read_request lib verb environ v = (Some (Inl det), u)" "x = (APT_INTERNAL, [], False, det)"
    then show ?thesis using tr_returns [OF read_request_trace] by (fastforce intro: calm_honest)
  next
    fix uid req s
    assume r: "read_request lib verb environ v = (Some (Inr (uid, req)), s)"
      and h: "hygiene s = (Some None, u)" "x = (APT_INTERNAL, correlation_id req, False, ''hygiene'')"
    obtain rs hs where "log s = log v @ rs" "calm rs" "log u = log s @ hs" "calm hs"
      using tr_returns [OF read_request_trace r] tr_returns [OF hygiene_trace h(1)] by blast
    then show ?thesis unfolding h(2) by (intro exI [of _ "rs @ hs"]) (simp add: calm_honest)
  next
    fix uid req s env t
    assume r: "read_request lib verb environ v = (Some (Inr (uid, req)), s)" and h: "hygiene s = (Some (Some env), t)"
      and j: "run_job (effect_env lib uid req) env (c_int (lock_timeout req)) (select req) t = (Some x, u)"
    obtain rs hs where "log s = log v @ rs" "calm rs" "log t = log s @ hs" "calm hs"
      using tr_returns [OF read_request_trace r] tr_returns [OF hygiene_trace h] by blast
    moreover obtain js where "log u = log t @ js" "honest x js"
      using tr_returns [OF job_trace [OF tx verb] j] by (auto simp: effect_log_def)
    ultimately show ?thesis by (intro exI [of _ "rs @ hs @ js"]) (simp add: honest_after)
  qed
qed

section \<open>Properties\<close>

text \<open>C1. The whole chain, for an installed helper started with any environment: whatever the kernel, libapt, the
broker and the libraries answer and whenever the run is cut off, before the first call that can change
the host the helper has taken the uid from \<open>PKEXEC_UID\<close>, read a well-shaped request for its own verb from
standard input and wiped it, replaced its environment, standard input and inherited descriptors, and had
the broker redeem the request's receipt, for that uid, for the digest of the plan libapt gave in this run;
the steps came in this order and none of them contains such a call.\<close>

theorem entrypoint_chain:
  assumes "cstr verb = verb" and "entrypoint_main lib family verb environ w = (res, w')"
    and "log w' = log w @ us @ e # vs" and "mutates e"
  shows "\<exists>uid req ch rs hs as bs cs p. us = ch @ rs @ hs @ as @ bs @ cs \<and> calm (ch @ rs @ hs @ as @ bs) \<and>
    request_read lib verb environ uid req rs \<and> hygienic hs \<and>
    job_plan (effect_env lib uid req) (family_job family verb req) as p \<and>
    redeemed_for (effect_env lib uid req) broker_cfg p (job_targets (family_job family verb req))
      (job_token (family_job family verb req)) bs"
proof -
  have "tr (entrypoint_main lib family verb environ) (\<lambda>rc. main_events lib verb (family_job family verb) environ)
      (main_events lib verb (family_job family verb) environ)"
    unfolding entrypoint_main_def by (rule main_trace [OF family_verb [OF assms(1)]])
  from tr_run [OF this assms(2)] assms(3) have "main_events lib verb (family_job family verb) environ (us @ e # vs)" by auto
  from main_mutation [OF this assms(4)] show ?thesis by metis
qed

text \<open>C37. The report is honest: a helper that exits either got no channel, did nothing more and exits 1; or it emitted one record
on the channel it had opened, and the record has the status, the correlation id, the audit bit and the detail
of the effector that ran, or of the step that failed before it (uid, request or hygiene). Its \<open>effect_issued\<close>
is true exactly when dpkg had been started or the lists refreshed since, it is never ok without an effect,
after the record nothing is done but to wipe the receipt, and exit 0 means that the whole record of an ok or a no-op reached the channel.\<close>

theorem entrypoint_reports:
  assumes "cstr verb = verb" and "entrypoint_main lib family verb environ w = (Some rc, w')"
  shows "\<exists>rfd v. pkgx_result_channel_open w = (Some rfd, v) \<and> (rfd < 0 \<and> rc = 1 \<and> w' = v \<or>
    0 \<le> rfd \<and> (\<exists>st cid issued det u es ec bs cs.
       helper_outcome lib verb (family_job family verb) environ v (st, cid, issued, det) u \<and>
       log u = log v @ es \<and> (issued \<longleftrightarrow> list_ex touches es) \<and> (st = APT_OK \<longrightarrow> issued) \<and>
       log w' = log u @ bs @ cs \<and> emitted (lb_jansson lib) rfd (result_record st issued cid det) ec bs \<and>
       set cs \<subseteq> range Wipe \<and> rc = (if ec \<noteq> 0 then 1 else exit_code st)))"
proof -
  obtain rfd v where c: "pkgx_result_channel_open w = (Some rfd, v)" "rfd < 0 \<and> rc = 1 \<and> w' = v \<or>
    0 \<le> rfd \<and> (\<exists>x u. helper_outcome lib verb (family_job family verb) environ v x u \<and> tells (lb_jansson lib) rfd x u rc w')"
    using main_tells [OF assms(2) [unfolded entrypoint_main_def]] by blast
  have "\<exists>st cid issued det u es ec bs cs.
       helper_outcome lib verb (family_job family verb) environ v (st, cid, issued, det) u \<and>
       log u = log v @ es \<and> (issued \<longleftrightarrow> list_ex touches es) \<and> (st = APT_OK \<longrightarrow> issued) \<and>
       log w' = log u @ bs @ cs \<and> emitted (lb_jansson lib) rfd (result_record st issued cid det) ec bs \<and>
       set cs \<subseteq> range Wipe \<and> rc = (if ec \<noteq> 0 then 1 else exit_code st)"
    if x: "helper_outcome lib verb (family_job family verb) environ v x u" "tells (lb_jansson lib) rfd x u rc w'" for x u
  proof -
    obtain st cid issued det where q: "x = (st, cid, issued, det)" by (cases x)
    obtain es where "log u = log v @ es" "honest x es" using outcome_honest [OF family_verb [OF assms(1)] x(1)] by blast
    moreover obtain ec bs cs where "log w' = log u @ bs @ cs" "emitted (lb_jansson lib) rfd (result_record st issued cid det) ec bs"
      "set cs \<subseteq> range Wipe" "rc = (if ec \<noteq> 0 then 1 else exit_code st)"
      using x(2) unfolding tells_def q by auto
    ultimately show ?thesis using x(1) unfolding q honest_def by blast
  qed
  note told = this
  from c(2) show ?thesis
  proof (elim disjE conjE exE)
    fix x u
    assume "0 \<le> rfd" and x: "helper_outcome lib verb (family_job family verb) environ v x u" "tells (lb_jansson lib) rfd x u rc w'"
    with told [OF x] c(1) show ?thesis by blast
  qed (use c(1) in blast)
qed

text \<open>The diagnostic runs the same chain for the verb it is given.\<close>

lemma effect_tool_same:
  "effect_tool_main lib [prog, ''apt.update''] = entrypoint_main lib FAMILY_UPDATE ''apt.update''"
  "effect_tool_main lib [prog, ''apt.hold''] = entrypoint_main lib FAMILY_HOLD ''apt.hold''"
  "effect_tool_main lib [prog, ''apt.unhold''] = entrypoint_main lib FAMILY_HOLD ''apt.unhold''"
  "effect_tool_main lib [prog, ''apt.configure''] = entrypoint_main lib FAMILY_CONFIGURE ''apt.configure''"
  "v \<in> {''apt.install'', ''apt.remove'', ''apt.purge'', ''apt.upgrade'', ''apt.dist_upgrade''} \<Longrightarrow>
   effect_tool_main lib [prog, v] = entrypoint_main lib FAMILY_TXN v"
  by (auto simp: effect_tool_main_def entrypoint_main_def fun_eq_iff cstr_def Let_def verb_job_def [abs_def] family_job_def [abs_def])

end
