(* ===== verification/Entry_Runs.thy ===== *)
theory Entry_Runs
  imports Entry_Proofs Effect_Runs
begin

text \<open>A whole run of the hold helper: the request on standard input, hygiene, the redemption, dpkg, the record;
and the witnesses of the properties of \<open>Entry_Proofs\<close>.\<close>

definition main_start :: "reply list" where
  "main_start = [ok_reply 9 [] 0, ok_reply 0 [] 0, ok_reply 1 [] 0,
     ok_reply 0 [] 0, ok_reply 0 [] 0, ok_reply 1 [] 0, ok_reply 2 ''{}'' 0,
     ok_reply 0 [] 1, ok_reply 1 [] 0, ok_reply 0 [] 0]"

definition main_hygiene :: "reply list" where
  "main_hygiene = [ok_reply 0 [] 0, ok_reply 0 [] 0, ok_reply 0 [] 0, ok_reply 0 [] 0,
     ok_reply 5 [] 0, ok_reply 0 [] 0, ok_reply 0 [] 0, ok_reply 3 [] 0, ok_reply 0 [] 0]"

definition main_end :: "reply list" where
  "main_end = [ok_reply 0 [] 0, ok_reply 5 [] 0, ok_reply 0 [] 0]"

definition main_world :: os where
  "main_world = script (main_start @ main_hygiene @ ex_before @ broker_answers @ ex_after @ main_end)"

definition main_environ :: "string list" where
  "main_environ = [''HOME=/root'', ''PKEXEC_UID=1000'']"

lemma ex_uid: "pkgx_read_pkexec_uid main_environ = Some 1000"
proof -
  have "getenv main_environ ''PKEXEC_UID'' = Some ''1000''" "cstr ''1000'' = ''1000''"
    "list_all is_digit ''1000''" by code_simp+
  moreover have "decimal ''1000'' = 1000" by (simp add: decimal_def digit_value_def)
  ultimately show ?thesis by (simp add: pkexec_uid_iff)
qed

lemma ex_hold_parse:
  obtains K where "\<And>n. pkgx_parse_request (\<lambda>b. Some (if b = ''{}'' then hold_json else ok_json)) ''apt.hold'' ''{}''
    (\<lambda>_. True) n = ((None, hold_request), K n)"
proof -
  have "pkgx_parse_request (\<lambda>_. Some hold_json) ''apt.hold'' [] (\<lambda>_. True) 0 = ((None, hold_request), 2)"
    by code_simp
  then have "request_shape ''apt.hold'' hold_json hold_request" by (auto dest: parse_sound)
  then have "\<exists>k. pkgx_parse_request (\<lambda>b. Some (if b = ''{}'' then hold_json else ok_json)) ''apt.hold'' ''{}''
      (\<lambda>_. True) n = ((None, hold_request), k)" for n
    by (intro parse_complete [of _ _ _ hold_json]) auto
  then show thesis using that by metis
qed

lemma main_reads:
  "\<exists>v. entrypoint_main ex_lib FAMILY_HOLD ''apt.hold'' main_environ main_world =
     perform ex_lib 9 1000 hold_request (HoldJob ''apt.hold'' [''vim'']) v \<and>
     answers v = main_hygiene @ ex_before @ broker_answers @ ex_after @ main_end \<and> (\<forall>i. aorc v i)"
proof -
  obtain K where K: "\<And>n. pkgx_parse_request (\<lambda>b. Some (if b = ''{}'' then hold_json else ok_json)) ''apt.hold'' ''{}''
    (\<lambda>_. True) n = ((None, hold_request), K n)" using ex_hold_parse by blast
  have job: "family_job FAMILY_HOLD ''apt.hold'' hold_request = HoldJob ''apt.hold'' [''vim'']"
    by (simp add: family_job_def requested_def hold_request_def)
  have jn: "j_loadb (lb_jansson ex_lib) = (\<lambda>b. Some (if b = ''{}'' then hold_json else ok_json))"
    by (simp add: ex_lib_def)
  show ?thesis
    unfolding entrypoint_main_def helper_main_def
    by (simp add: pkgx_result_channel_open_def read_request_def ex_uid main_world_def main_start_def
      stdin_run parsing_def K job jn, intro exI conjI, rule refl, simp_all)
qed

lemma main_cleans:
  assumes "answers w = main_hygiene @ rs" "\<forall>i. aorc w i"
  shows "\<exists>v. perform ex_lib 9 1000 hold_request job w =
     ibind (run_job ex_benv safe_environ 30 job) (\<lambda>(st, cid, issued, detail).
       ibind (pkgx_result_emit (lb_jansson ex_lib) 9 st issued cid detail) (\<lambda>emitted.
       ibind (release hold_request) (\<lambda>_. ireturn (if emitted \<noteq> 0 then 1 else exit_code st)))) v \<and>
     answers v = rs \<and> (\<forall>i. aorc v i)"
proof -
  have "c_int (lock_timeout hold_request) = 30" by (simp add: hold_request_def c_int_id)
  then have "\<exists>v. hygiene w = (Some (Some safe_environ), v) \<and> answers v = rs \<and> (\<forall>i. aorc v i)"
    using assms
    by (simp add: hygiene_def pkgx_scrub_env_def SAFE_ENV_def pkgx_null_stdin_def keep_stdin_def pkgx_cloexec_from_def
      cloexec_round_def main_hygiene_def safe_environ_def io_run)
  then show ?thesis
    unfolding perform_def by (auto simp: ibind_def ex_benv_def \<open>c_int _ = 30\<close>)
qed

lemma main_emits:
  assumes "answers w = main_end" "\<forall>i. aorc w i"
  shows "\<exists>v. pkgx_result_emit (lb_jansson ex_lib) 9 st issued cid detail w = (Some 0, v) \<and>
    (\<exists>es. log v = log w @ es)"
  using assms
  by (simp add: io_run pkgx_result_emit_def pkgx_result_json_def emit_line_def push_def push_round_def add_member_def
    attempt_def set_new_def json_string_def json_dumps_def abind_def aret_def aguard_def main_end_def ex_lib_def ex_jn_def)

lemma main_run:
  obtains w' where "entrypoint_main ex_lib FAMILY_HOLD ''apt.hold'' main_environ main_world = (Some 0, w')"
    "list_ex mutates (log w')"
proof -
  obtain v where v: "entrypoint_main ex_lib FAMILY_HOLD ''apt.hold'' main_environ main_world =
     perform ex_lib 9 1000 hold_request (HoldJob ''apt.hold'' [''vim'']) v"
    "answers v = main_hygiene @ ex_before @ broker_answers @ ex_after @ main_end" "\<forall>i. aorc v i"
    using main_reads by blast
  from main_cleans [OF v(2,3), of "HoldJob ''apt.hold'' [''vim'']"] obtain u where
    u: "perform ex_lib 9 1000 hold_request (HoldJob ''apt.hold'' [''vim'']) v =
      ibind (ex_hold_run safe_environ) (\<lambda>(st, cid, issued, detail).
       ibind (pkgx_result_emit (lb_jansson ex_lib) 9 st issued cid detail) (\<lambda>emitted.
       ibind (release hold_request) (\<lambda>_. ireturn (if emitted \<noteq> 0 then 1 else exit_code st)))) u"
    "answers u = ex_before @ broker_answers @ ex_after @ main_end" "\<forall>i. aorc u i"
    by blast
  obtain t where t: "ex_hold_run safe_environ u = (Some (APT_OK, a_cid, True, ''ok''), t)" "list_ex mutates (log t)"
    "answers t = main_end" "\<forall>i. aorc t i"
    using ex_run [OF u(2,3)] by blast
  obtain s es where s: "pkgx_result_emit (lb_jansson ex_lib) 9 APT_OK True a_cid ''ok'' t = (Some 0, s)" "log s = log t @ es"
    using main_emits [OF t(3,4)] by blast
  have "entrypoint_main ex_lib FAMILY_HOLD ''apt.hold'' main_environ main_world =
      (Some 0, s\<lparr>log := log s @ [Wipe (effect_receipt hold_request)]\<rparr>)"
    unfolding v(1) u(1) by (simp add: ibind_def t(1) s(1) release_def emit_def ireturn_def exit_code_def del: run_job.simps)
  then show thesis by (rule that) (use t(2) s(2) in simp)
qed

section \<open>Witnesses\<close>

lemma main_fresh: "log main_world = []" "cstr ''apt.hold'' = ''apt.hold''"
  by (simp_all add: main_world_def script_def cstr_def)

theorem entrypoint_chain_witness:
  "\<exists>uid req rs hs bs p. request_read ex_lib ''apt.hold'' main_environ uid req rs \<and> hygienic hs \<and>
    redeemed_for (effect_env ex_lib uid req) broker_cfg p
      (job_targets (family_job FAMILY_HOLD ''apt.hold'' req)) (job_token (family_job FAMILY_HOLD ''apt.hold'' req)) bs"
proof -
  obtain w' where run: "entrypoint_main ex_lib FAMILY_HOLD ''apt.hold'' main_environ main_world = (Some 0, w')"
    "list_ex mutates (log w')" by (rule main_run)
  then obtain us e vs where "log w' = log main_world @ us @ e # vs" "mutates e"
    by (auto simp: list_ex_iff main_fresh dest!: split_list)
  from entrypoint_chain [OF main_fresh(2) run(1) this] show ?thesis by fast
qed

theorem entrypoint_reports_witness:
  "\<exists>w' rfd st issued cid det u bs. pkgx_result_channel_open main_world = (Some rfd, u) \<and>
    entrypoint_main ex_lib FAMILY_HOLD ''apt.hold'' main_environ main_world = (Some 0, w') \<and>
    emitted (lb_jansson ex_lib) rfd (result_record st issued cid det) 0 bs \<and> exit_code st = 0"
proof -
  obtain w' where run: "entrypoint_main ex_lib FAMILY_HOLD ''apt.hold'' main_environ main_world = (Some 0, w')"
    by (rule main_run)
  from entrypoint_reports [OF main_fresh(2) run] show ?thesis
  proof (elim exE conjE disjE)
    fix rfd v st cid issued det u es ec bs cs
    assume "pkgx_result_channel_open main_world = (Some rfd, v)"
      and e: "emitted (lb_jansson ex_lib) rfd (result_record st issued cid det) ec bs" "0 = (if ec \<noteq> 0 then 1 else exit_code st)"
    moreover from e(2) have "ec = 0" "exit_code st = 0" by (auto split: if_splits)
    ultimately show ?thesis using run by blast
  qed simp
qed

end
