(* ===== verification/Preview.thy ===== *)
theory Preview
  imports Entrypoint
begin

text \<open>
  The unprivileged planner \<open>tools/preview.cc\<close>: it reads a receipt-free request, opens the cache
  without a lock, maps the plan with the builders of \<open>Apt_Common\<close>, decodes the records back
  from the canonical bytes of the digest, and prints one JSON line. The result of a preview is
  the exit code and what was printed on standard output.

  Jansson's constructors may fail; the code does not look, so a failed value is a null pointer that
  the next call refuses. C++ containers are assumed to have memory.
\<close>

type_synonym printed = "int \<times> string"

section \<open>Jansson without error checks\<close>

text \<open>\<open>None\<close> is the null pointer. A member that is there already is replaced in place.\<close>

fun put :: "(string \<times> json) list \<Rightarrow> string \<Rightarrow> json \<Rightarrow> (string \<times> json) list" where
  "put [] k v = [(k, v)]"
| "put ((k', v') # kvs) k v = (if k' = k then (k', v) # kvs else (k', v') # put kvs k v)"

definition j_string :: "jansson \<Rightarrow> string \<Rightarrow> json option am" where
  "j_string jn s = attempt (json_string jn s)"

definition j_integer :: "int \<Rightarrow> json option am" where
  "j_integer i = attempt (json_integer i)"

definition j_object :: "(string \<times> json) list option am" where
  "j_object = attempt (abind aalloc (\<lambda>_. aret []))"

definition j_array :: "json list option am" where
  "j_array = attempt (abind aalloc (\<lambda>_. aret []))"

text \<open>\<open>json_object_set_new\<close> and \<open>json_array_append_new\<close>: the value is evaluated first.\<close>

definition j_set ::
  "jansson \<Rightarrow> (string \<times> json) list option \<Rightarrow> string \<Rightarrow> json option am \<Rightarrow> (string \<times> json) list option am" where
  "j_set jn ob k v =
     abind v (\<lambda>j. case (ob, j) of
         (Some kvs, Some x) \<Rightarrow>
           if \<not> j_utf8 jn (cstr k) then aret ob
           else abind (attempt aalloc) (\<lambda>a. aret (Some (if a = None then kvs else put kvs (cstr k) x)))
       | _ \<Rightarrow> aret ob)"

definition j_append :: "json list option \<Rightarrow> json option am \<Rightarrow> json list option am" where
  "j_append arr v =
     abind v (\<lambda>j. case (arr, j) of
         (Some xs, Some x) \<Rightarrow> abind (attempt aalloc) (\<lambda>a. aret (Some (if a = None then xs else xs @ [x])))
       | _ \<Rightarrow> aret arr)"

text \<open>\<open>for (x : xs) json_array_append_new (arr, f (x))\<close>.\<close>

fun append_each :: "('a \<Rightarrow> json option am) \<Rightarrow> 'a list \<Rightarrow> json list option \<Rightarrow> json list option am" where
  "append_each f [] arr = aret arr"
| "append_each f (x # xs) arr = abind (j_append arr (f x)) (append_each f xs)"

definition array_of :: "('a \<Rightarrow> json option am) \<Rightarrow> 'a list \<Rightarrow> json option am" where
  "array_of f xs = abind j_array (\<lambda>arr. abind (append_each f xs arr) (\<lambda>arr. aret (map_option JArray arr)))"

section \<open>Decoding the canonical bytes\<close>

datatype rec_kind = REC_TXN | REC_CFG | REC_HOLD | REC_SRC

fun pieces :: "char \<Rightarrow> string \<Rightarrow> string \<Rightarrow> string list" where
  "pieces d acc [] = [acc]"
| "pieces d acc (c # s) = (if c = d then acc # pieces d [] s else pieces d (acc @ [c]) s)"

definition split_on :: "string \<Rightarrow> char \<Rightarrow> string list" where
  "split_on s d = (if s = [] then [] else pieces d [] s)"

definition fld :: "string list \<Rightarrow> nat \<Rightarrow> string" where
  "fld f i = (if i < length f then f ! i else [])"

definition csv_array :: "jansson \<Rightarrow> string \<Rightarrow> json option am" where
  "csv_array jn field = array_of (j_string jn) (split_on field CHR '','')"

definition option_pair :: "string \<Rightarrow> string \<times> string" where
  "option_pair kv =
     (case dropWhile (\<lambda>c. c \<noteq> CHR ''='') kv of
        [] \<Rightarrow> (kv, [])
      | e # v \<Rightarrow> (takeWhile (\<lambda>c. c \<noteq> CHR ''='') kv, v))"

fun set_options :: "jansson \<Rightarrow> string list \<Rightarrow> (string \<times> json) list option \<Rightarrow> (string \<times> json) list option am" where
  "set_options jn [] ob = aret ob"
| "set_options jn (kv # kvs) ob =
     (case option_pair kv of (k, v) \<Rightarrow> abind (j_set jn ob k (j_string jn v)) (set_options jn kvs))"

definition options_object :: "jansson \<Rightarrow> string \<Rightarrow> json option am" where
  "options_object jn field =
     abind j_object (\<lambda>ob. abind (set_options jn (split_on field CHR '','') ob) (\<lambda>ob. aret (map_option JObject ob)))"

text \<open>A sequence of \<open>json_object_set_new\<close> calls.\<close>

fun set_all_members ::
  "jansson \<Rightarrow> (string \<times> json option am) list \<Rightarrow> (string \<times> json) list option \<Rightarrow> (string \<times> json) list option am" where
  "set_all_members jn [] ob = aret ob"
| "set_all_members jn ((k, v) # kvs) ob = abind (j_set jn ob k v) (set_all_members jn kvs)"

definition record_members :: "jansson \<Rightarrow> rec_kind \<Rightarrow> string list \<Rightarrow> (string \<times> json option am) list" where
  "record_members jn kind f = (case kind of
     REC_TXN \<Rightarrow> [(''package'', j_string jn (fld f 0)), (''architecture'', j_string jn (fld f 1)),
       (''action'', j_string jn (fld f 2)), (''from_version'', j_string jn (fld f 3)),
       (''to_version'', j_string jn (fld f 4)), (''flags'', csv_array jn (fld f 5))]
   | REC_CFG \<Rightarrow> [(''package'', j_string jn (fld f 0)), (''architecture'', j_string jn (fld f 1)),
       (''current_version'', j_string jn (fld f 2)), (''state'', j_string jn (fld f 3))]
   | REC_HOLD \<Rightarrow> [(''package'', j_string jn (fld f 0)), (''from_state'', j_string jn (fld f 1)),
       (''to_state'', j_string jn (fld f 2))]
   | REC_SRC \<Rightarrow> [(''uri'', j_string jn (fld f 0)), (''suite'', j_string jn (fld f 1)),
       (''components'', csv_array jn (fld f 2)), (''options'', options_object jn (fld f 3))])"

definition decode_record :: "jansson \<Rightarrow> rec_kind \<Rightarrow> string \<Rightarrow> json option am" where
  "decode_record jn kind part =
     abind j_object (\<lambda>ob. abind (set_all_members jn (record_members jn kind (split_on part US)) ob) (\<lambda>ob.
       aret (map_option JObject ob)))"

definition decode_records :: "jansson \<Rightarrow> string \<Rightarrow> rec_kind \<Rightarrow> json option am" where
  "decode_records jn canon kind = array_of (decode_record jn kind) (drop 2 (split_on canon RS))"

section \<open>The result line\<close>

definition FALLBACK :: string where
  "FALLBACK = ''{\"schema_version\":1,\"status\":\"internal\",\"verb\":null,\"packages\":[],'' @
     ''\"plan_schema\":null,\"resource\":null,\"plan_hash\":null,\"records\":[],'' @
     ''\"detail\":\"emit\"}'' @ [CHR 0x0A]"

definition status_exit :: "string \<Rightarrow> int" where
  "status_exit status = (if status = ''ok'' \<or> status = ''no_op'' then 0 else 1)"

definition or_null :: "jansson \<Rightarrow> string option \<Rightarrow> json option am" where
  "or_null jn s = (case s of Some s \<Rightarrow> j_string jn s | None \<Rightarrow> aret (Some JNull))"

definition document ::
  "jansson \<Rightarrow> string \<Rightarrow> string option \<Rightarrow> string list \<Rightarrow> string option \<Rightarrow> string option \<Rightarrow> json option \<Rightarrow>
   string option \<Rightarrow> (string \<times> json option am) list" where
  "document jn status verb pkgs resource plan_hash records detail =
     [(''schema_version'', j_integer 1), (''status'', j_string jn status), (''verb'', or_null jn verb),
      (''packages'', array_of (j_string jn) pkgs),
      (''plan_schema'', if plan_hash \<noteq> None then j_integer 1 else aret (Some JNull)),
      (''resource'', or_null jn resource), (''plan_hash'', or_null jn plan_hash),
      (''records'', case records of Some r \<Rightarrow> aret (Some r) | None \<Rightarrow> array_of (j_string jn) []),
      (''detail'', or_null jn detail)]"

text \<open>The text of the line; \<open>None\<close> when the object or the dump could not be made.\<close>

definition emit_line_text ::
  "jansson \<Rightarrow> string \<Rightarrow> string option \<Rightarrow> string list \<Rightarrow> string option \<Rightarrow> string option \<Rightarrow> json option \<Rightarrow>
   string option \<Rightarrow> string am" where
  "emit_line_text jn status verb pkgs resource plan_hash records detail =
     abind aalloc (\<lambda>_.
     abind (set_all_members jn (document jn status verb pkgs resource plan_hash records detail) (Some [])) (\<lambda>ob.
     abind (json_dumps jn (JObject (case ob of Some kvs \<Rightarrow> kvs | None \<Rightarrow> []))) (\<lambda>s. aret (cstr s @ [CHR 0x0A]))))"

definition emit_result ::
  "jansson \<Rightarrow> string \<Rightarrow> string option \<Rightarrow> string list \<Rightarrow> string option \<Rightarrow> string option \<Rightarrow> json option \<Rightarrow>
   string option \<Rightarrow> printed io" where
  "emit_result jn status verb pkgs resource plan_hash records detail =
     ibind (allocating (emit_line_text jn status verb pkgs resource plan_hash records detail)) (\<lambda>s. case s of
         None \<Rightarrow> ireturn (1, FALLBACK)
       | Some t \<Rightarrow> ireturn (status_exit status, t))"

section \<open>Previews\<close>

definition compute_resource :: "string list \<Rightarrow> string option io" where
  "compute_resource pkgs = allocating (pkgx_resource (map Some pkgs))"

text \<open>From the mapped records on: hash, decode, and the line that the policy's verdict gives. \<open>fault\<close> is the
refusal, its status and the offending package.\<close>

definition preview_plan ::
  "libraries \<Rightarrow> string \<Rightarrow> string list \<Rightarrow> string \<Rightarrow> rec_kind \<Rightarrow> (string \<times> string) am \<Rightarrow>
   (string \<times> string option) option \<Rightarrow> printed io" where
  "preview_plan lib verb pkgs resource kind digest fault =
     (let jn = lb_jansson lib in
      ibind (allocating digest) (\<lambda>dig. case dig of
          None \<Rightarrow> emit_result jn ''internal'' (Some verb) pkgs (Some resource) None None (Some ''digest'')
        | Some (hex, canon) \<Rightarrow>
            ibind (allocating (decode_records jn canon kind)) (\<lambda>decoded.
              let records = (case decoded of Some r \<Rightarrow> r | None \<Rightarrow> None) in
              case fault of
                None \<Rightarrow> emit_result jn ''ok'' (Some verb) pkgs (Some resource) (Some hex) records None
              | Some (status, offender) \<Rightarrow>
                  emit_result jn status (Some verb) pkgs (Some resource) (Some hex) records offender)))"

definition preview_resolve :: "string \<Rightarrow> string list \<Rightarrow> string option io" where
  "preview_resolve verb pkgs =
     (let removal = (verb = ''apt.remove'' \<or> verb = ''apt.purge''); purge = (verb = ''apt.purge'');
          upgrade = (verb = ''apt.upgrade''); dist = (verb = ''apt.dist_upgrade'') in
      if upgrade \<or> dist then
        ibind (apt (Upgrade (if dist then ALLOW_EVERYTHING else FORBID_REMOVE_PACKAGES))) (\<lambda>ok.
          if \<not> ok then ibind (apt_do DumpErrors) (\<lambda>_. ireturn (Some ''resolve'')) else ireturn None)
      else
        ibind (apt_do NewResolver) (\<lambda>_. ibind (mark_targets removal purge pkgs) (\<lambda>r. case r of
            Some t \<Rightarrow> ireturn (Some t)
          | None \<Rightarrow> ibind (apt (Resolve True)) (\<lambda>ok.
              if \<not> ok then ibind (apt_do DumpErrors) (\<lambda>_. ireturn (Some ''resolve'')) else ireturn None))))"

text \<open>The switch over the policy's verdict.\<close>

definition policy_fault_status :: "policy_result \<times> string option \<Rightarrow> (string \<times> string option) option" where
  "policy_fault_status v = (case v of
     (POLICY_OK, offender) \<Rightarrow> None
   | (POLICY_NOT_OWNED, offender) \<Rightarrow> Some (''package_not_owned'', offender)
   | (POLICY_HELD, offender) \<Rightarrow> Some (''held'', offender)
   | (POLICY_PROTECTED, offender) \<Rightarrow> Some (''protected_package'', offender))"

definition preview_txn :: "libraries \<Rightarrow> string \<Rightarrow> string list \<Rightarrow> printed io" where
  "preview_txn lib verb pkgs =
     (let emit = (\<lambda>status resource detail. emit_result (lb_jansson lib) status (Some verb) pkgs resource None None detail) in
      ibind (compute_resource pkgs) (\<lambda>res. case res of
          None \<Rightarrow> emit ''internal'' None (Some ''resource'')
        | Some resource \<Rightarrow>
            ibind (apt GetPkgCache) (\<lambda>c. ibind (apt GetDepCache) (\<lambda>dc.
              if \<not> c \<or> \<not> dc then emit ''internal'' (Some resource) (Some ''cache'')
              else ibind (preview_resolve verb pkgs) (\<lambda>r. case r of
                  Some d \<Rightarrow> emit ''resolve_failed'' (Some resource) (Some d)
                | None \<Rightarrow> ibind (apt_packages ReadCache) (\<lambda>ps.
                    let recs = pkgx_apt_map_txn ps in
                    if recs = [] then emit ''no_op'' (Some resource) None
                    else preview_plan lib verb pkgs resource REC_TXN
                      (pkgx_digest_pkg_txn (lb_evp lib) (Some verb) recs)
                      (policy_fault_status (pkgx_policy_check recs))))))))"

definition preview_update :: "libraries \<Rightarrow> printed io" where
  "preview_update lib =
     (let emit = (\<lambda>status detail. emit_result (lb_jansson lib) status (Some ''apt.update'') [] (Some []) None None detail) in
      ibind (syscall (Apt ReadMainList)) (\<lambda>l.
        if r_ret l = 0 then ibind (apt_do DumpErrors) (\<lambda>_. emit ''internal'' (Some ''sources''))
        else let recs = pkgx_apt_map_sources (lb_evp lib) (r_sources l) in
          if recs = [] then emit ''no_op'' None
          else preview_plan lib ''apt.update'' [] [] REC_SRC (pkgx_digest_update (lb_evp lib) recs) None))"

text \<open>The ownership loop over the holders.\<close>

fun first_rapt_owned :: "string list \<Rightarrow> string option" where
  "first_rapt_owned [] = None"
| "first_rapt_owned (p # ps) = (if pkgx_is_rapt_owned p then Some p else first_rapt_owned ps)"

definition owned_fault :: "string list \<Rightarrow> (string \<times> string option) option" where
  "owned_fault ps = (case first_rapt_owned ps of
     None \<Rightarrow> None | Some p \<Rightarrow> Some (''package_not_owned'', Some p))"

definition preview_hold :: "libraries \<Rightarrow> string \<Rightarrow> string list \<Rightarrow> printed io" where
  "preview_hold lib verb pkgs =
     (let emit = (\<lambda>status resource detail. emit_result (lb_jansson lib) status (Some verb) pkgs resource None None detail) in
      ibind (compute_resource pkgs) (\<lambda>res. case res of
          None \<Rightarrow> emit ''internal'' None (Some ''resource'')
        | Some resource \<Rightarrow>
            ibind (apt GetPkgCache) (\<lambda>c.
              if \<not> c then emit ''internal'' (Some resource) (Some ''cache'')
              else ibind (pkgx_apt_map_hold pkgs (verb = ''apt.hold'')) (\<lambda>m. case m of
                  HOLD_MAP_UNKNOWN t \<Rightarrow> emit ''resolve_failed'' (Some resource) (Some t)
                | HOLD_MAP_INVALID t \<Rightarrow> emit ''resolve_failed'' (Some resource) (Some t)
                | HOLD_MAP_OK changes \<Rightarrow>
                    if changes = [] then emit ''no_op'' (Some resource) None
                    else preview_plan lib verb pkgs resource REC_HOLD
                      (pkgx_digest_hold (lb_evp lib) (Some verb) (map hold_record_of changes))
                      (owned_fault (map hc_package changes))))))"

definition preview_configure :: "libraries \<Rightarrow> printed io" where
  "preview_configure lib =
     (let emit = (\<lambda>status detail.
        emit_result (lb_jansson lib) status (Some ''apt.configure'') [] (Some ''pending'') None None detail) in
      ibind (apt GetPkgCache) (\<lambda>c.
        if \<not> c then emit ''internal'' (Some ''cache'')
        else ibind (apt_packages ReadCache) (\<lambda>ps. case pkgx_apt_map_configure ps of
            Inl name \<Rightarrow> emit ''dpkg_broken'' (Some name)
          | Inr cfgs \<Rightarrow>
              if cfgs = [] then emit ''no_op'' None
              else preview_plan lib ''apt.configure'' [] ''pending'' REC_CFG
                (pkgx_digest_configure (lb_evp lib) cfgs) (owned_fault (map (nz \<circ> c_package) cfgs)))))"

section \<open>The program\<close>

text \<open>The request; \<open>Inl\<close> is the status and the detail of a failure.\<close>

definition preview_request :: "libraries \<Rightarrow> ((string \<times> string) + preview_request) io" where
  "preview_request lib =
     ibind (pkgx_read_stdin 0) (\<lambda>b. case b of
         Inl rerr \<Rightarrow> ireturn (Inl (if rerr = ''io'' then ''internal'' else ''schema_invalid'', rerr))
       | Inr body \<Rightarrow>
           ibind (parsing (pkgx_parse_preview_request (j_loadb (lb_jansson lib)) body)) (\<lambda>(pe, req). case pe of
               Some perr \<Rightarrow> ireturn (Inl (''schema_invalid'', perr))
             | None \<Rightarrow> ireturn (Inr req)))"

definition preview_run :: "libraries \<Rightarrow> string \<Rightarrow> string list \<Rightarrow> printed io" where
  "preview_run lib verb pkgs =
     (let emit = (\<lambda>detail. emit_result (lb_jansson lib) ''internal'' (Some verb) pkgs None None None (Some detail)) in
      ibind (apt InitConfig) (\<lambda>i. ibind (if i then apt InitSystem else ireturn False) (\<lambda>ready.
        if \<not> ready then ibind (apt_do DumpErrors) (\<lambda>_. emit ''apt_init'')
        else if verb = ''apt.update'' then preview_update lib
        else ibind (apt (OpenCache False)) (\<lambda>opened.
          if \<not> opened then ibind (apt_do DumpErrors) (\<lambda>_. emit ''cache_open'')
          else if verb = ''apt.hold'' \<or> verb = ''apt.unhold'' then preview_hold lib verb pkgs
          else if verb = ''apt.configure'' then preview_configure lib
          else preview_txn lib verb pkgs))))"

definition preview_main :: "libraries \<Rightarrow> printed io" where
  "preview_main lib =
     ibind (preview_request lib) (\<lambda>r. case r of
         Inl (status, detail) \<Rightarrow> emit_result (lb_jansson lib) status None [] None None None (Some detail)
       | Inr req \<Rightarrow> preview_run lib (p_verb req) (case p_packages req of None \<Rightarrow> [] | Some ps \<Rightarrow> ps))"

end
