(* ===== verification/Preview_Decode.thy ===== *)
theory Preview_Decode
  imports Preview Plan_Proofs Request_Proofs
begin

text \<open>
  The records that a preview prints are the records that were hashed: decoding the canonical bytes
  of a digest gives back every field of every record. The contract between an encoder of
  \<open>Digest\<close> and its decoder is the locale \<open>record_view\<close>, which extends \<open>record_codec\<close>.
\<close>

section \<open>Building values with memory available\<close>

text \<open>\<open>makes v x\<close>: with an allocator that never fails, \<open>v\<close> is a pointer to \<open>x\<close>.\<close>

definition makes :: "json option am \<Rightarrow> json \<Rightarrow> bool" where
  "makes v x \<longleftrightarrow> tcorrect v (\<lambda>j. j = Some x)"

text \<open>Jansson takes every well-formed UTF-8 string.\<close>

definition takes_utf8 :: "jansson \<Rightarrow> bool" where
  "takes_utf8 jn \<longleftrightarrow> (\<forall>s. utf8_valid s \<longrightarrow> j_utf8 jn s)"

lemma tc_attempt: "tcorrect m (\<lambda>x. P (Some x)) \<Longrightarrow> tcorrect (attempt m) P"
proof (rule tcI)
  fix A :: allocator and k assume m: "tcorrect m (\<lambda>x. P (Some x))" "\<forall>i. A i"
  from m obtain x k' where "m A k = (Inr x, k')" "P (Some x)" by (rule tcE)
  then show "\<exists>x k'. attempt m A k = (Inr x, k') \<and> P x" by (simp add: attempt_def)
qed

lemma makes_string: "j_utf8 jn (cstr s) \<Longrightarrow> makes (j_string jn s) (JString (cstr s))"
  unfolding makes_def j_string_def json_string_def by (intro tc_attempt alloc_rules) auto

lemma makes_string_nz: "takes_utf8 jn \<Longrightarrow> field_ok s \<Longrightarrow> makes (j_string jn (nz s)) (JString (nz s))"
  using makes_string [of jn "nz s"]
  by (cases s) (auto simp: takes_utf8_def field_ok_def nz_def utf8_valid_ascii)

lemma tc_object: "tcorrect j_object (\<lambda>ob. ob = Some [])"
  and tc_array: "tcorrect j_array (\<lambda>arr. arr = Some [])"
  unfolding j_object_def j_array_def by (intro tc_attempt alloc_rules; simp)+

lemma tc_set:
  assumes "makes v x" "j_utf8 jn (cstr k)"
  shows "tcorrect (j_set jn (Some kvs) k v) (\<lambda>ob. ob = Some (put kvs (cstr k) x))"
  unfolding j_set_def
  by (rule tc_bind [OF assms(1) [unfolded makes_def]])
     (use assms(2) in \<open>auto intro!: alloc_rules tc_attempt\<close>)

lemma tc_append:
  assumes "makes v x"
  shows "tcorrect (j_append (Some xs) v) (\<lambda>arr. arr = Some (xs @ [x]))"
  unfolding j_append_def
  by (rule tc_bind [OF assms [unfolded makes_def]]) (auto intro!: alloc_rules tc_attempt)

lemma tc_append_each:
  "list_all2 (\<lambda>a x. makes (f a) x) as xs \<Longrightarrow>
   tcorrect (append_each f as (Some ys)) (\<lambda>arr. arr = Some (ys @ xs))"
proof (induction as xs arbitrary: ys rule: list_all2_induct)
  case (Cons a as x xs)
  show ?case
    by (simp, rule tc_bind [OF tc_append [OF Cons.hyps(1)]]) (use Cons.IH [of "ys @ [x]"] in simp)
qed (simp add: tc_ret)

lemma makes_array: "list_all2 (\<lambda>a x. makes (f a) x) as xs \<Longrightarrow> makes (array_of f as) (JArray xs)"
  unfolding makes_def array_of_def
  by (rule tc_bind [OF tc_array], simp, rule tc_bind [OF tc_append_each]) (auto intro: tc_ret simp: makes_def)

lemma put_fresh: "k \<notin> fst ` set kvs \<Longrightarrow> put kvs k v = kvs @ [(k, v)]"
  by (induction kvs) auto

text \<open>A member list is made when every value is, and the keys are distinct.\<close>

definition makes_members :: "jansson \<Rightarrow> (string \<times> json option am) list \<Rightarrow> (string \<times> json) list \<Rightarrow> bool" where
  "makes_members jn vs xs \<longleftrightarrow> distinct (map fst xs) \<and>
     list_all2 (\<lambda>(k, v) (k', x). cstr k = k' \<and> j_utf8 jn k' \<and> makes v x) vs xs"

lemma tc_set_members:
  "list_all2 (\<lambda>(k, v) (k', x). cstr k = k' \<and> j_utf8 jn k' \<and> makes v x) vs xs \<Longrightarrow>
   distinct (map fst (kvs @ xs)) \<Longrightarrow>
   tcorrect (set_all_members jn vs (Some kvs)) (\<lambda>ob. ob = Some (kvs @ xs))"
proof (induction vs xs arbitrary: kvs rule: list_all2_induct)
  case (Cons a vs x xs)
  obtain k v where a: "a = (k, v)" by (cases a)
  obtain k' y where x: "x = (k', y)" by (cases x)
  have k: "cstr k = k'" "j_utf8 jn (cstr k)" "makes v y" using Cons.hyps(1) by (auto simp: a x)
  have "put kvs (cstr k) y = kvs @ [x]" using Cons.prems k by (simp add: put_fresh x)
  with Cons.IH [of "kvs @ [x]"] Cons.prems show ?case
    by (simp add: a, intro tc_bind [OF tc_set [OF k(3,2)]]) simp
qed (simp add: tc_ret)

lemma makes_object: "makes_members jn vs xs \<Longrightarrow>
  tcorrect (set_all_members jn vs (Some [])) (\<lambda>ob. ob = Some xs)"
  using tc_set_members [of jn vs xs "[]"] by (simp add: makes_members_def)

section \<open>Splitting\<close>

lemma pieces_end: "d \<notin> set x \<Longrightarrow> pieces d acc x = [acc @ x]"
  by (induction x arbitrary: acc) auto

lemma pieces_sep: "d \<notin> set x \<Longrightarrow> pieces d acc (x @ d # s) = (acc @ x) # pieces d [] s"
  by (induction x arbitrary: acc) auto

lemma pieces_sepby:
  "xs \<noteq> [] \<Longrightarrow> \<forall>x\<in>set xs. d \<notin> set x \<Longrightarrow> pieces d [] (sepby d xs) = xs"
proof (induction xs)
  case (Cons x xs)
  then show ?case by (cases "xs = []") (simp_all add: sepby_Cons pieces_end pieces_sep)
qed simp

text \<open>Splitting undoes joining, except that a single empty element cannot be told from none.\<close>

lemma split_sepby:
  assumes "\<forall>x\<in>set xs. d \<notin> set x" "xs \<noteq> [[]]"
  shows "split_on (sepby d xs) d = xs"
proof (cases "xs = []")
  case False
  moreover have "sepby d xs \<noteq> []" using False assms(2) by (cases xs) (auto simp: sepby_Cons)
  ultimately show ?thesis using pieces_sepby [OF False assms(1)] by (simp add: split_on_def)
qed (simp add: split_on_def)

lemma split_csv:
  assumes "\<forall>x\<in>set xs. CHR '','' \<notin> set x"
  shows "split_on (csv xs) CHR '','' = (if xs = [[]] then [] else sort xs)"
proof (cases "xs = [[]]")
  case False
  have "xs = [[]]" if "sort xs = [[]]"
    using arg_cong [OF that, of length] arg_cong [OF that, of set] by (cases xs) auto
  with False have "sort xs \<noteq> [[]]" by blast
  then show ?thesis using assms split_sepby [of "sort xs" "CHR '',''"] by (simp add: csv_def False)
qed (simp add: csv_def split_on_def)

section \<open>The contract of a decoder\<close>

locale record_view = record_codec enc ok bytes norm
  for enc :: "'r \<Rightarrow> string am" and ok :: "'r \<Rightarrow> bool" and bytes :: "'r \<Rightarrow> string" and norm :: "'r \<Rightarrow> 'n" +
  fixes kind :: rec_kind and view :: "'r \<Rightarrow> json"
  assumes decodes: "takes_utf8 jn \<Longrightarrow> ok r \<Longrightarrow> makes (decode_record jn kind (bytes r)) (view r)"
    and view_norm: "ok r \<Longrightarrow> ok r' \<Longrightarrow> view r = view r' \<Longrightarrow> norm r = norm r'"
begin

text \<open>The records in the order in which they are hashed.\<close>

abbreviation views :: "'r list \<Rightarrow> json list" where
  "views recs \<equiv> map view (sort_key bytes recs)"

lemma sorted_bytes: "map bytes (sort_key bytes recs) = sort (map bytes recs)"
  by (rule properties_for_sort [symmetric]) simp_all

lemma split_canon:
  assumes "\<forall>r\<in>set recs. ok r" "RS \<notin> set verb" "recs \<noteq> []"
  shows "drop 2 (split_on (canon_bytes verb (map bytes recs)) RS) = map bytes (sort_key bytes recs)"
proof -
  let ?bs = "sort (map bytes recs)"
  have ne: "?bs \<noteq> []" using assms(3) by (metis length_0_conv length_map length_sort)
  have "canon_bytes verb (map bytes recs) = sepby RS (''1'' # verb # ?bs)"
    using ne by (simp add: canon_bytes_def sepby_Cons)
  moreover have "\<forall>x\<in>set (''1'' # verb # ?bs). RS \<notin> set x"
    using assms bytes_no_rs by (auto simp: RS_def)
  ultimately have "split_on (canon_bytes verb (map bytes recs)) RS = ''1'' # verb # ?bs"
    using split_sepby [of "''1'' # verb # ?bs" RS] by simp
  then show ?thesis by (simp add: sorted_bytes)
qed

lemma decodes_all:
  assumes "takes_utf8 jn" "\<forall>r\<in>set recs. ok r" "RS \<notin> set verb" "recs \<noteq> []"
  shows "makes (decode_records jn (canon_bytes verb (map bytes recs)) kind) (JArray (views recs))"
  unfolding decode_records_def split_canon [OF assms(2-4)]
  by (rule makes_array) (use assms(1,2) decodes in \<open>simp add: list_all2_map1 list_all2_map2 list_all2_same\<close>)

text \<open>The printed records carry what the digest binds.\<close>

lemma views_determine:
  assumes "\<forall>r\<in>set recs. ok r" "\<forall>r\<in>set recs'. ok r" "views recs = views recs'"
  shows "image_mset norm (mset recs) = image_mset norm (mset recs')"
proof -
  have "mset (views recs) = mset (views recs')" using assms(3) by simp
  then have same: "mset (map view recs) = mset (map view recs')" by simp
  have "mset (map norm recs) = mset (map norm recs')"
  proof (rule mset_map_transfer [where S = "Collect ok" and f = view, OF _ _ _ same])
    show "norm x = norm y" if "x \<in> Collect ok" "y \<in> Collect ok" "view x = view y" for x y
      by (rule view_norm) (use that in simp_all)
  qed (use assms(1,2) in auto)
  then show ?thesis by simp
qed

end

section \<open>The four kinds\<close>

lemma sort_mset: "sort xs = sort ys \<Longrightarrow> mset xs = mset (ys :: string list)"
  by (metis mset_sort)

lemma sort_Nil: "sort xs = [] \<longleftrightarrow> xs = ([] :: string list)" "[] = sort xs \<longleftrightarrow> xs = ([] :: string list)"
  by (metis length_0_conv length_sort)+

definition strings :: "string list \<Rightarrow> json" where
  "strings xs = JArray (map JString xs)"

definition txn_view :: "txn_record \<Rightarrow> json" where
  "txn_view r = JObject
     [(''package'', JString (nz (t_package r))), (''architecture'', JString (nz (t_architecture r))),
      (''action'', JString (nz (t_action r))), (''from_version'', JString (nz (t_from_version r))),
      (''to_version'', JString (nz (t_to_version r))), (''flags'', strings (sort (map nz (t_flags r))))]"

definition cfg_view :: "cfg_record \<Rightarrow> json" where
  "cfg_view r = JObject
     [(''package'', JString (nz (c_package r))), (''architecture'', JString (nz (c_architecture r))),
      (''current_version'', JString (nz (c_current_version r))), (''state'', JString (nz (c_state r)))]"

definition hold_view :: "hold_record \<Rightarrow> json" where
  "hold_view r = JObject
     [(''package'', JString (nz (h_package r))), (''from_state'', JString (nz (h_from_state r))),
      (''to_state'', JString (nz (h_to_state r)))]"

text \<open>The one list of components that the canonical bytes cannot carry is the one with a single empty
component; it reads back as none.\<close>

definition src_view :: "src_record \<Rightarrow> json" where
  "src_view r = JObject
     [(''uri'', JString (nz (s_uri r))), (''suite'', JString (nz (s_suite r))),
      (''components'', strings (if map nz (s_components r) = [[]] then [] else sort (map nz (s_components r)))),
      (''options'', JObject (map (\<lambda>kv. case option_pair kv of (k, v) \<Rightarrow> (k, JString v)) (sort (map kv_bytes (s_opts r)))))]"

text \<open>The member names are plain.\<close>

lemma ascii_key: "takes_utf8 jn \<Longrightarrow> \<forall>c\<in>set s. ord c < 128 \<Longrightarrow> j_utf8 jn s"
  by (simp add: takes_utf8_def utf8_valid_ascii)

lemma makes_csv:
  assumes "takes_utf8 jn" "\<forall>i\<in>set xs. field_ok i"
  shows "makes (csv_array jn (csv (map nz xs))) (strings (if map nz xs = [[]] then [] else sort (map nz xs)))"
proof -
  have clean: "\<forall>x\<in>set (map nz xs). CHR '','' \<notin> set x" using assms(2) by (auto simp: field_ok_nz)
  have "list_all2 (\<lambda>a x. makes (j_string jn a) x) ys (map JString ys)" if "set ys \<subseteq> nz ` set xs" for ys
    using that makes_string_nz [OF assms(1)] assms(2) by (auto simp: list_all2_map1 list_all2_map2 list_all2_same)
  then show ?thesis
    unfolding csv_array_def split_csv [OF clean] strings_def by (intro makes_array) auto
qed

lemma decode_made:
  assumes "makes_members jn (record_members jn kind (split_on part US)) xs"
  shows "makes (decode_record jn kind part) (JObject xs)"
  unfolding makes_def decode_record_def
  by (rule tc_bind [OF tc_object], simp, rule tc_bind [OF makes_object [OF assms]]) (simp add: tc_ret)

interpretation txn_json: record_view pkg_txn_record txn_ok txn_bytes txn_norm REC_TXN txn_view
proof unfold_locales
  fix jn and r assume jn: "takes_utf8 jn" and ok: "txn_ok r"
  have split: "split_on (txn_bytes r) US = [nz (t_package r), nz (t_architecture r), nz (t_action r),
      nz (t_from_version r), nz (t_to_version r), csv (map nz (t_flags r))]"
    unfolding txn_bytes_def
    by (rule split_sepby) (use ok flags_clean [OF ok, of US] in \<open>auto simp: txn_ok_def field_ok_nz\<close>)
  have "map nz (t_flags r) \<noteq> [[]]" using ok FLAGS_clean [of "[]"] by (auto simp: txn_ok_def)
  then have "makes (csv_array jn (csv (map nz (t_flags r)))) (strings (sort (map nz (t_flags r))))"
    using makes_csv [OF jn, of "t_flags r"] ok by (auto simp: txn_ok_def)
  then show "makes (decode_record jn REC_TXN (txn_bytes r)) (txn_view r)"
    unfolding txn_view_def
    by (intro decode_made) (use jn ok in \<open>simp add: makes_members_def record_members_def split fld_def txn_ok_def
      makes_string_nz ascii_key cstr_def\<close>)
next
  fix r r' :: txn_record assume "txn_ok r" "txn_ok r'" "txn_view r = txn_view r'"
  then show "txn_norm r = txn_norm r'" by (auto simp: txn_view_def txn_norm_def strings_def inj_map_eq_map inj_def dest: sort_mset)
qed

interpretation cfg_json: record_view cfg_record_bytes cfg_ok cfg_bytes cfg_norm REC_CFG cfg_view
proof unfold_locales
  fix jn and r assume jn: "takes_utf8 jn" and ok: "cfg_ok r"
  have split: "split_on (cfg_bytes r) US = [nz (c_package r), nz (c_architecture r), nz (c_current_version r), nz (c_state r)]"
    unfolding cfg_bytes_def by (rule split_sepby) (use ok in \<open>auto simp: cfg_ok_def field_ok_nz\<close>)
  show "makes (decode_record jn REC_CFG (cfg_bytes r)) (cfg_view r)"
    unfolding cfg_view_def
    by (intro decode_made) (use jn ok in \<open>simp add: makes_members_def record_members_def split fld_def cfg_ok_def
      makes_string_nz ascii_key cstr_def\<close>)
next
  fix r r' :: cfg_record assume "cfg_ok r" "cfg_ok r'" "cfg_view r = cfg_view r'"
  then show "cfg_norm r = cfg_norm r'" by (auto simp: cfg_view_def cfg_norm_def strings_def inj_map_eq_map inj_def dest: sort_mset)
qed

interpretation hold_json: record_view hold_record_bytes hold_ok hold_bytes hold_norm REC_HOLD hold_view
proof unfold_locales
  fix jn and r assume jn: "takes_utf8 jn" and ok: "hold_ok r"
  have split: "split_on (hold_bytes r) US = [nz (h_package r), nz (h_from_state r), nz (h_to_state r)]"
    unfolding hold_bytes_def by (rule split_sepby) (use ok in \<open>auto simp: hold_ok_def field_ok_nz\<close>)
  show "makes (decode_record jn REC_HOLD (hold_bytes r)) (hold_view r)"
    unfolding hold_view_def
    by (intro decode_made) (use jn ok in \<open>simp add: makes_members_def record_members_def split fld_def hold_ok_def
      makes_string_nz ascii_key cstr_def\<close>)
next
  fix r r' :: hold_record assume "hold_ok r" "hold_ok r'" "hold_view r = hold_view r'"
  then show "hold_norm r = hold_norm r'" by (auto simp: hold_view_def hold_norm_def strings_def inj_map_eq_map inj_def dest: sort_mset)
qed

lemma option_pair_kv: "field_ok k \<Longrightarrow> option_pair (kv_bytes (k, v)) = (nz k, nz v)"
proof -
  assume "field_ok k"
  then have "\<forall>c\<in>set (nz k). c \<noteq> CHR ''=''" using field_ok_nz(4) by metis
  then have "takeWhile (\<lambda>c. c \<noteq> CHR ''='') (kv_bytes (k, v)) = nz k"
    "dropWhile (\<lambda>c. c \<noteq> CHR ''='') (kv_bytes (k, v)) = CHR ''='' # nz v"
    by (simp_all add: kv_bytes_def takeWhile_append dropWhile_append)
  then show ?thesis by (simp add: option_pair_def)
qed

lemma set_options_members:
  "set_options jn kvs = set_all_members jn (map (\<lambda>kv. (fst (option_pair kv), j_string jn (snd (option_pair kv)))) kvs)"
  by (induction kvs) (rule ext, simp add: case_prod_beta)+

lemma makes_options:
  assumes jn: "takes_utf8 jn" and ok: "kvs_ok t kvs"
  shows "makes (options_object jn (csv (map kv_bytes kvs)))
    (JObject (map (\<lambda>kv. case option_pair kv of (k, v) \<Rightarrow> (k, JString v)) (sort (map kv_bytes kvs))))"
proof -
  have pair: "option_pair (kv_bytes kv) = (nz (fst kv), nz (snd kv))" "field_ok (fst kv)" "field_ok (snd kv)" if "kv \<in> set kvs" for kv
    using that ok option_pair_kv [of "fst kv" "snd kv"] by (auto simp: kvs_ok_def)
  have clean: "\<forall>x\<in>set (map kv_bytes kvs). CHR '','' \<notin> set x"
    using pair by (auto simp: kv_bytes_def field_ok_nz)
  have "map kv_bytes kvs \<noteq> [[]]" by (auto simp: kv_bytes_def)
  then have split: "split_on (csv (map kv_bytes kvs)) CHR '','' = sort (map kv_bytes kvs)"
    using split_csv [OF clean] by simp
  define ks where "ks = sort_key kv_bytes kvs"
  have sorted: "sort (map kv_bytes kvs) = map kv_bytes ks"
    by (rule properties_for_sort) (simp_all add: ks_def)
  have ks: "set ks = set kvs" "mset ks = mset kvs" by (simp_all add: ks_def)
  have "mset (map (nz \<circ> fst) ks) = mset (map (nz \<circ> fst) kvs)" using ks(2) by simp
  then have "distinct (map (nz \<circ> fst) ks)"
    using ok mset_eq_imp_distinct_iff unfolding kvs_ok_def by blast
  moreover have "j_utf8 jn (nz (fst kv))" "makes (j_string jn (nz (snd kv))) (JString (nz (snd kv)))" if "kv \<in> set kvs" for kv
    using pair(2,3) [OF that] makes_string_nz [OF jn] jn
    by (cases "fst kv"; auto simp: takes_utf8_def field_ok_def nz_def utf8_valid_ascii)+
  ultimately have "makes_members jn (map (\<lambda>kv. (fst (option_pair kv), j_string jn (snd (option_pair kv)))) (map kv_bytes ks))
      (map (\<lambda>kv. (nz (fst kv), JString (nz (snd kv)))) ks)"
    using pair(1) ks(1) by (simp add: makes_members_def comp_def list_all2_map1 list_all2_map2 list_all2_same)
  moreover have "map (\<lambda>kv. case option_pair kv of (k, v) \<Rightarrow> (k, JString v)) (map kv_bytes ks) =
      map (\<lambda>kv. (nz (fst kv), JString (nz (snd kv)))) ks"
    using pair(1) ks(1) by simp
  ultimately show ?thesis
    unfolding makes_def options_object_def split sorted
    by (intro tc_bind [OF tc_object]) (simp add: set_options_members, rule tc_bind [OF makes_object], auto intro: tc_ret)
qed

interpretation src_json: record_view src_record_bytes src_ok src_bytes src_norm REC_SRC src_view
proof unfold_locales
  fix jn and r assume jn: "takes_utf8 jn" and ok: "src_ok r"
  have split: "split_on (src_bytes r) US = [nz (s_uri r), nz (s_suite r), csv (map nz (s_components r)), csv (map kv_bytes (s_opts r))]"
    unfolding src_bytes_def
    by (rule split_sepby) (use ok kvs_clean [of _ "s_opts r" US] comps_clean [of "s_components r" US] in
      \<open>auto simp: src_ok_def field_ok_nz\<close>)
  show "makes (decode_record jn REC_SRC (src_bytes r)) (src_view r)"
    unfolding src_view_def
    by (intro decode_made) (use jn ok makes_csv [OF jn, of "s_components r"] makes_options [OF jn, of UPD_OPT_KEYS "s_opts r"] in
      \<open>simp add: makes_members_def record_members_def split fld_def src_ok_def makes_string_nz ascii_key cstr_def\<close>)
next
  fix r r' :: src_record assume ok: "src_ok r" "src_ok r'" and view: "src_view r = src_view r'"
  let ?g = "\<lambda>kv. case option_pair kv of (k, v) \<Rightarrow> (k, JString v)"
  have "mset (map (?g \<circ> kv_bytes) (s_opts r)) = mset (map (?g \<circ> kv_bytes) (s_opts r'))"
    using view by (auto simp: src_view_def multiset.map_comp [symmetric] dest!: arg_cong [where f = mset])
  then have opts: "mset (map kv_pair (s_opts r)) = mset (map kv_pair (s_opts r'))"
    by (rule mset_map_transfer [where S = "{kv. field_ok (fst kv)}", rotated 3])
       (use ok in \<open>auto simp: src_ok_def kvs_ok_def option_pair_kv kv_pair_def\<close>)
  have "nz (s_uri r) = nz (s_uri r')" "nz (s_suite r) = nz (s_suite r')"
    "comps_norm (map nz (s_components r)) = comps_norm (map nz (s_components r'))"
    using view by (auto simp: src_view_def strings_def inj_map_eq_map inj_def comps_norm_def sort_Nil dest: sort_mset split: if_splits)
  with opts show "src_norm r = src_norm r'" by (simp add: src_norm_def)
qed

section \<open>Plans\<close>

fun plan_kind :: "plan \<Rightarrow> rec_kind" where
  "plan_kind (Txn v rs) = REC_TXN"
| "plan_kind (Cfg rs) = REC_CFG"
| "plan_kind (Hold v rs) = REC_HOLD"
| "plan_kind (Upd rs) = REC_SRC"

fun plan_view :: "plan \<Rightarrow> json" where
  "plan_view (Txn v rs) = JArray (txn_json.views rs)"
| "plan_view (Cfg rs) = JArray (cfg_json.views rs)"
| "plan_view (Hold v rs) = JArray (hold_json.views rs)"
| "plan_view (Upd rs) = JArray (src_json.views rs)"

lemma plan_view_made:
  assumes jn: "takes_utf8 jn" and "plan_ok p" "plan_size p \<noteq> 0"
  shows "makes (decode_records jn (plan_canon p) (plan_kind p)) (plan_view p)"
proof -
  have v: "RS \<notin> set (plan_verb p)" using plan_verb_plain [OF assms(2)] by simp
  show ?thesis
    using assms v txn_json.decodes_all [OF jn] cfg_json.decodes_all [OF jn] hold_json.decodes_all [OF jn]
      src_json.decodes_all [OF jn]
    by (cases p) (simp_all add: plan_canon_def)
qed

lemma plan_view_determines:
  assumes "plan_ok p" "plan_ok q" "plan_verb p = plan_verb q" "plan_kind p = plan_kind q" "plan_view p = plan_view q"
  shows "same_plan p q"
proof (cases p)
  case (Txn v rs)
  with assms(4) obtain v' rs' where q: "q = Txn v' rs'" by (cases q) simp_all
  show ?thesis using assms txn_json.views_determine [of rs rs'] by (simp add: Txn q)
next
  case (Cfg rs)
  with assms(4) obtain rs' where q: "q = Cfg rs'" by (cases q) simp_all
  show ?thesis using assms cfg_json.views_determine [of rs rs'] by (simp add: Cfg q)
next
  case (Hold v rs)
  with assms(4) obtain v' rs' where q: "q = Hold v' rs'" by (cases q) simp_all
  show ?thesis using assms hold_json.views_determine [of rs rs'] by (simp add: Hold q)
next
  case (Upd rs)
  with assms(4) obtain rs' where q: "q = Upd rs'" by (cases q) simp_all
  show ?thesis using assms src_json.views_determine [of rs rs'] by (simp add: Upd q)
qed

section \<open>Property\<close>

text \<open>C38. The records a preview prints are the ones that were hashed: with memory available, decoding the canonical
bytes of any accepted, non-empty plan gives one object per record, in the order in which they were hashed,
with every field, the flags and components sorted, and the options; and the decoded records, with the
verb, determine the plan up to what the digest binds.\<close>

theorem preview_records_roundtrip:
  assumes "plan_digest evp p A k = (Inr (h, canon), k')" and "plan_size p \<noteq> 0" and "takes_utf8 jn" and "\<forall>i. B i"
  shows "(\<exists>n'. decode_records jn canon (plan_kind p) B n = (Inr (Some (plan_view p)), n')) \<and>
    (\<forall>q. plan_ok q \<longrightarrow> plan_verb q = plan_verb p \<longrightarrow> plan_kind q = plan_kind p \<longrightarrow> plan_view q = plan_view p \<longrightarrow> same_plan q p)"
proof -
  have p: "plan_ok p" "canon = plan_canon p" using pcD [OF plan_digest_partial assms(1)] by simp_all
  obtain x n' where "decode_records jn canon (plan_kind p) B n = (Inr x, n')" "x = Some (plan_view p)"
    using plan_view_made [OF assms(3) p(1) assms(2)] assms(4) unfolding p(2) makes_def by (rule tcE)
  then show ?thesis using plan_view_determines p(1) by blast
qed

end
