(* ===== verification/Plan_Tool.thy ===== *)
theory Plan_Tool
  imports Preview
begin

text \<open>
  The acceptance driver's planner \<open>tools/plan.cc\<close>: it takes the verb and the packages from
  \<open>argv\<close>, reads the locked cache with the builders of \<open>Apt_Common\<close>, and prints \<open>key=value\<close>
  lines. The result is the exit code and what was printed on standard output; messages on standard error
  are not modelled.
\<close>

datatype plan_exit = EXIT_OK | EXIT_INTERNAL | EXIT_USAGE | EXIT_NOOP | EXIT_REFUSED

definition exit_number :: "plan_exit \<Rightarrow> int" where
  "exit_number e = (case e of EXIT_OK \<Rightarrow> 0 | EXIT_INTERNAL \<Rightarrow> 1 | EXIT_USAGE \<Rightarrow> 2 | EXIT_NOOP \<Rightarrow> 3 | EXIT_REFUSED \<Rightarrow> 4)"

type_synonym plan_print = "plan_exit \<times> string"

definition line :: "string \<Rightarrow> string" where
  "line s = s @ [CHR 0x0A]"

definition plan_lines :: "string \<Rightarrow> string \<Rightarrow> string" where
  "plan_lines resource hex =
     line (''resource='' @ resource) @ line (''plan_hash='' @ hex) @
     line ''note=would redeem+commit under the activation slice (not here)''"

definition resolved_line :: "string \<Rightarrow> nat \<Rightarrow> string" where
  "resolved_line verb n = line (''verb='' @ verb @ '' resolved_records='' @ decimal_digits n)"

definition refused_line :: "string \<Rightarrow> string option \<Rightarrow> string" where
  "refused_line reason offender = line (''status=refused reason='' @ reason @ '' offender='' @ nz offender)"

definition resource_for :: "string list \<Rightarrow> string option io" where
  "resource_for targets = allocating (pkgx_resource (map Some targets))"

text \<open>The digest and the plan lines; \<open>out\<close> is what has been printed before.\<close>

definition print_plan :: "string \<Rightarrow> string \<Rightarrow> (string \<times> string) am \<Rightarrow> plan_print io" where
  "print_plan out resource digest =
     ibind (allocating digest) (\<lambda>dig. case dig of
         None \<Rightarrow> ireturn (EXIT_INTERNAL, out)
       | Some (hex, canon) \<Rightarrow> ireturn (EXIT_OK, out @ plan_lines resource hex))"

definition plan_resolve :: "string \<Rightarrow> string list \<Rightarrow> bool io" where
  "plan_resolve verb targets =
     (let removal = (verb = ''apt.remove'' \<or> verb = ''apt.purge''); purge = (verb = ''apt.purge'');
          upgrade = (verb = ''apt.upgrade''); dist = (verb = ''apt.dist_upgrade'') in
      if upgrade \<or> dist then apt (Upgrade (if dist then ALLOW_EVERYTHING else FORBID_REMOVE_PACKAGES))
      else
        ibind (apt_do NewResolver) (\<lambda>_. ibind (mark_targets removal purge targets) (\<lambda>r.
          if r \<noteq> None then ireturn False else apt (Resolve True))))"

definition plan_txn :: "libraries \<Rightarrow> string \<Rightarrow> string list \<Rightarrow> plan_print io" where
  "plan_txn lib verb targets =
     ibind (apt GetPkgCache) (\<lambda>c. ibind (apt GetDepCache) (\<lambda>dc.
       if \<not> c \<or> \<not> dc then ireturn (EXIT_INTERNAL, [])
       else ibind (plan_resolve verb targets) (\<lambda>ok.
         if \<not> ok then ireturn (EXIT_INTERNAL, [])
         else ibind (apt_packages ReadCache) (\<lambda>ps.
           let recs = pkgx_apt_map_txn ps; out = resolved_line verb (length recs) in
           if recs = [] then ireturn (EXIT_NOOP, out @ line ''status=noop'')
           else case pkgx_policy_check recs of
               (POLICY_NOT_OWNED, offender) \<Rightarrow> ireturn (EXIT_REFUSED, out @ refused_line ''not_owned'' offender)
             | (POLICY_HELD, offender) \<Rightarrow> ireturn (EXIT_REFUSED, out @ refused_line ''held'' offender)
             | (POLICY_PROTECTED, offender) \<Rightarrow> ireturn (EXIT_REFUSED, out @ refused_line ''protected'' offender)
             | (POLICY_OK, offender) \<Rightarrow>
                 ibind (resource_for targets) (\<lambda>res. case res of
                     None \<Rightarrow> ireturn (EXIT_INTERNAL, out)
                   | Some resource \<Rightarrow>
                       print_plan out resource (pkgx_digest_pkg_txn (lb_evp lib) (Some verb) recs))))))"

definition plan_update :: "libraries \<Rightarrow> plan_print io" where
  "plan_update lib =
     ibind (syscall (Apt ReadMainList)) (\<lambda>l.
       if r_ret l = 0 then ireturn (EXIT_INTERNAL, [])
       else let recs = pkgx_apt_map_sources (lb_evp lib) (r_sources l);
                out = resolved_line ''apt.update'' (length recs) in
         if recs = [] then ireturn (EXIT_NOOP, out @ line ''status=noop'')
         else print_plan out [] (pkgx_digest_update (lb_evp lib) recs))"

definition plan_hold :: "libraries \<Rightarrow> string \<Rightarrow> string list \<Rightarrow> plan_print io" where
  "plan_hold lib verb targets =
     ibind (apt GetPkgCache) (\<lambda>c.
       if \<not> c then ireturn (EXIT_INTERNAL, [])
       else ibind (pkgx_apt_map_hold targets (verb = ''apt.hold'')) (\<lambda>m. case m of
           HOLD_MAP_UNKNOWN t \<Rightarrow> ireturn (EXIT_INTERNAL, [])
         | HOLD_MAP_INVALID t \<Rightarrow> ireturn (EXIT_INTERNAL, [])
         | HOLD_MAP_OK changes \<Rightarrow>
             let out = resolved_line verb (length changes) in
             if changes = [] then ireturn (EXIT_NOOP, out @ line ''status=noop'')
             else case first_rapt_owned (map hc_package changes) of
                 Some p \<Rightarrow> ireturn (EXIT_REFUSED, out @ refused_line ''not_owned'' (Some p))
               | None \<Rightarrow>
                   ibind (resource_for targets) (\<lambda>res. case res of
                       None \<Rightarrow> ireturn (EXIT_INTERNAL, out)
                     | Some resource \<Rightarrow>
                         print_plan out resource
                           (pkgx_digest_hold (lb_evp lib) (Some verb) (map hold_record_of changes)))))"

definition plan_configure :: "libraries \<Rightarrow> plan_print io" where
  "plan_configure lib =
     ibind (apt GetPkgCache) (\<lambda>c.
       if \<not> c then ireturn (EXIT_INTERNAL, [])
       else ibind (apt_packages ReadCache) (\<lambda>ps. case pkgx_apt_map_configure ps of
           Inl name \<Rightarrow> ireturn (EXIT_REFUSED,
             line (''verb=apt.configure status=refused reason=broken offender='' @ name))
         | Inr cfgs \<Rightarrow>
             let out = resolved_line ''apt.configure'' (length cfgs) in
             if cfgs = [] then ireturn (EXIT_NOOP, out @ line ''status=noop'')
             else case first_rapt_owned (map (nz \<circ> c_package) cfgs) of
                 Some p \<Rightarrow> ireturn (EXIT_REFUSED, out @ refused_line ''not_owned'' (Some p))
               | None \<Rightarrow> print_plan out ''pending'' (pkgx_digest_configure (lb_evp lib) cfgs)))"

section \<open>The program\<close>

definition specs :: "(string \<times> bool) list" where
  "specs = [(''apt.install'', True), (''apt.remove'', True), (''apt.purge'', True), (''apt.upgrade'', False),
     (''apt.dist_upgrade'', False), (''apt.update'', False), (''apt.hold'', True), (''apt.unhold'', True),
     (''apt.configure'', False)]"

fun check_specs :: "(string \<times> bool) list \<Rightarrow> string \<Rightarrow> nat \<Rightarrow> bool" where
  "check_specs [] verb n = False"
| "check_specs ((v, needs_targets) # ss) verb n =
     (if verb = v then
        (if needs_targets \<and> n = 0 then False else if \<not> needs_targets \<and> n \<noteq> 0 then False else True)
      else check_specs ss verb n)"

definition check_verb_arity :: "string \<Rightarrow> nat \<Rightarrow> bool" where
  "check_verb_arity verb ntargets = check_specs specs verb ntargets"

definition plan_run :: "libraries \<Rightarrow> string \<Rightarrow> string list \<Rightarrow> plan_print io" where
  "plan_run lib verb targets =
     (if \<not> check_verb_arity verb (length targets) then ireturn (EXIT_USAGE, [])
      else ibind (apt InitConfig) (\<lambda>i. ibind (if i then apt InitSystem else ireturn False) (\<lambda>ready.
        if \<not> ready then ireturn (EXIT_INTERNAL, [])
        else if verb = ''apt.update'' then plan_update lib
        else ibind (apt (OpenCache True)) (\<lambda>opened.
          if \<not> opened then ireturn (EXIT_INTERNAL, [])
          else if verb = ''apt.hold'' \<or> verb = ''apt.unhold'' then plan_hold lib verb targets
          else if verb = ''apt.configure'' then plan_configure lib
          else plan_txn lib verb targets))))"

text \<open>\<open>argv\<close> has the program's name first; its elements are C strings.\<close>

definition plan_main :: "libraries \<Rightarrow> string list \<Rightarrow> (int \<times> string) io" where
  "plan_main lib argv = (case argv of
     _ # verb # targets \<Rightarrow>
       ibind (plan_run lib (cstr verb) (map cstr targets)) (\<lambda>(e, out). ireturn (exit_number e, out))
   | _ \<Rightarrow> ireturn (exit_number EXIT_USAGE, []))"

end
