(* ===== verification/Preview_Proofs.thy ===== *)
theory Preview_Proofs
  imports Preview_Decode Plan_Tool Entry_Proofs
begin

text \<open>
  The two planners against the effectors: what they print is the resource and the digest that an
  effector would redeem for the same answers of libapt.
\<close>

section \<open>The printed line\<close>

definition text_or_null :: "string option \<Rightarrow> json" where
  "text_or_null s = (case s of Some s \<Rightarrow> JString (cstr s) | None \<Rightarrow> JNull)"

text \<open>The members that identify the outcome.\<close>

definition header :: "string \<Rightarrow> string option \<Rightarrow> string option \<Rightarrow> string option \<Rightarrow> string option \<Rightarrow> (string \<times> json) list" where
  "header status verb resource plan_hash detail =
     [(''schema_version'', JInteger 1), (''status'', JString (cstr status)), (''verb'', text_or_null verb),
      (''plan_schema'', if plan_hash \<noteq> None then JInteger 1 else JNull), (''resource'', text_or_null resource),
      (''plan_hash'', text_or_null plan_hash), (''detail'', text_or_null detail)]"

definition said :: "string \<Rightarrow> string option \<Rightarrow> string option \<Rightarrow> string option \<Rightarrow> string option \<Rightarrow> string \<times> json \<Rightarrow> bool" where
  "said status verb resource plan_hash detail kv \<longleftrightarrow>
     fst kv \<in> {''packages'', ''records''} \<or> kv \<in> set (header status verb resource plan_hash detail)"

text \<open>One line that says this and nothing else about the outcome: the fallback, or the dump of an object whose
members are those of the header (some may be missing when memory runs out) beside the two arrays.\<close>

definition says :: "jansson \<Rightarrow> string \<Rightarrow> string option \<Rightarrow> string option \<Rightarrow> string option \<Rightarrow> string option \<Rightarrow> printed \<Rightarrow> bool" where
  "says jn status verb resource plan_hash detail x \<longleftrightarrow> x = (1, FALLBACK) \<or>
     (\<exists>kvs t. fst x = status_exit status \<and> j_dumps jn (JObject kvs) = Some t \<and> snd x = cstr t @ [CHR 0x0A] \<and>
        list_all (said status verb resource plan_hash detail) kvs)"

definition yields :: "(json \<Rightarrow> bool) \<Rightarrow> json option am \<Rightarrow> bool" where
  "yields Q v \<longleftrightarrow> pcorrect v (\<lambda>j. \<forall>x. j = Some x \<longrightarrow> Q x)"

lemma put_members: "kv \<in> set (put kvs k x) \<Longrightarrow> kv \<in> set kvs \<or> kv = (k, x)"
  by (induction kvs) (auto split: if_splits)

lemma pc_set_members:
  "list_all (\<lambda>(k, v). yields (\<lambda>x. Q (cstr k, x)) v) vs \<Longrightarrow> list_all Q kvs \<Longrightarrow>
   pcorrect (set_all_members jn vs (Some kvs)) (\<lambda>ob. \<exists>kvs'. ob = Some kvs' \<and> list_all Q kvs')"
proof (induction vs arbitrary: kvs)
  case (Cons a vs)
  obtain k v where a: "a = (k, v)" by (cases a)
  have put: "list_all Q (put kvs (cstr k) x)" if "Q (cstr k, x)" for x
    using that Cons.prems(2) put_members [of _ kvs "cstr k" x] by (fastforce simp: list_all_iff)
  have "pcorrect (j_set jn (Some kvs) k v) (\<lambda>ob. \<exists>kvs'. ob = Some kvs' \<and> list_all Q kvs')"
    unfolding j_set_def
    by (rule pc_bind [where R = "\<lambda>j. \<forall>x. j = Some x \<longrightarrow> Q (cstr k, x)"])
       (use Cons.prems put in \<open>auto simp: a yields_def intro!: alloc_rules pc_attempt split: option.split\<close>)
  then show ?case
    by (simp add: a, rule pc_bind) (use Cons.IH Cons.prems(1) in auto)
qed (simp add: pc_ret)

lemma yields_string: "yields (\<lambda>x. x = JString (cstr s)) (j_string jn s)"
  unfolding yields_def j_string_def json_string_def by (intro pc_attempt alloc_rules) auto

lemma yields_integer: "yields (\<lambda>x. x = JInteger i) (j_integer i)"
  unfolding yields_def j_integer_def json_integer_def by (intro pc_attempt alloc_rules) auto

lemma yields_known: "Q x \<Longrightarrow> yields Q (aret (Some x))"
  unfolding yields_def by (intro alloc_rules) auto

lemma yields_mono: "yields P v \<Longrightarrow> (\<And>x. P x \<Longrightarrow> Q x) \<Longrightarrow> yields Q v"
  unfolding yields_def by (erule pc_weaken) auto

lemma yields_any: "yields (\<lambda>x. True) v"
  by (simp add: yields_def pcorrect_def)

lemma yields_or_null: "yields (\<lambda>x. x = text_or_null s) (or_null jn s)"
  by (cases s) (auto simp: or_null_def text_or_null_def intro: yields_string yields_known)

lemma member_names:
  "cstr ''schema_version'' = ''schema_version''" "cstr ''status'' = ''status''" "cstr ''verb'' = ''verb''"
  "cstr ''packages'' = ''packages''" "cstr ''plan_schema'' = ''plan_schema''" "cstr ''resource'' = ''resource''"
  "cstr ''plan_hash'' = ''plan_hash''" "cstr ''records'' = ''records''" "cstr ''detail'' = ''detail''"
  by (simp_all add: cstr_def)

lemma document_yields:
  "list_all (\<lambda>(k, v). yields (\<lambda>x. said status verb resource plan_hash detail (cstr k, x)) v)
     (document jn status verb pkgs resource plan_hash records detail)"
  unfolding document_def
  by (cases plan_hash; cases records)
     (simp_all add: member_names said_def header_def yields_or_null yields_string yields_integer yields_known yields_any)

lemma emit_says:
  "tr (emit_result jn status verb pkgs resource plan_hash records detail)
    (\<lambda>x es. es = [] \<and> says jn status verb resource plan_hash detail x) (\<lambda>es. False)"
proof -
  have "pcorrect (emit_line_text jn status verb pkgs resource plan_hash records detail)
      (\<lambda>t. says jn status verb resource plan_hash detail (status_exit status, t))"
    unfolding emit_line_text_def json_dumps_def
    by (rule pc_bind_wp, rule pc_alloc, rule pc_bind [OF pc_set_members [OF document_yields]])
       (auto intro!: alloc_rules simp: says_def)
  then show ?thesis
    unfolding emit_result_def
    by (intro tr_rules tr_pcorrect) (auto intro!: tr_return simp: says_def)
qed

lemma tr_emit_result:
  assumes "\<And>x. says jn status verb resource plan_hash detail x \<Longrightarrow> P x []"
  shows "tr (emit_result jn status verb pkgs resource plan_hash records detail) P E"
  by (rule tr_mono [OF emit_says]) (use assms in auto)

section \<open>What is printed about a plan\<close>

definition planned :: "libraries \<Rightarrow> plan \<Rightarrow> string \<Rightarrow> bool" where
  "planned lib p h \<longleftrightarrow> plan_size p \<noteq> 0 \<and> plan_ok p \<and> length (plan_canon p) \<le> max_canon \<and>
     hashed (lb_evp lib) (h, plan_canon p)"

definition verdict :: "(string \<times> string option) option \<Rightarrow> string \<times> string option" where
  "verdict fault = (case fault of None \<Rightarrow> (''ok'', None) | Some f \<Rightarrow> f)"

lemma tr_preview_plan:
  assumes "plan_size p \<noteq> 0"
    and "\<And>x h. planned lib p h \<Longrightarrow>
      says (lb_jansson lib) (fst (verdict fault)) (Some verb) (Some resource) (Some h) (snd (verdict fault)) x \<Longrightarrow> P x []"
    and "\<And>x. says (lb_jansson lib) ''internal'' (Some verb) (Some resource) None (Some ''digest'') x \<Longrightarrow> P x []"
  shows "tr (preview_plan lib verb pkgs resource kind (plan_digest (lb_evp lib) p) fault) P E"
  unfolding preview_plan_def Let_def
proof (rule tr_bind, rule tr_pcorrect [OF pc_plan_digest])
  fix hc :: "string \<times> string" assume "plan_ok p \<and> length (plan_canon p) \<le> max_canon \<and> hashed (lb_evp lib) (fst hc, plan_canon p)"
  then have h: "planned lib p (fst hc)" using assms(1) by (simp add: planned_def)
  show "tr (case Some hc of
        None \<Rightarrow> emit_result (lb_jansson lib) ''internal'' (Some verb) pkgs (Some resource) None None (Some ''digest'')
      | Some (hex, canon) \<Rightarrow>
          ibind (allocating (decode_records (lb_jansson lib) canon kind)) (\<lambda>decoded. case fault of
              None \<Rightarrow> emit_result (lb_jansson lib) ''ok'' (Some verb) pkgs (Some resource) (Some hex)
                (case decoded of None \<Rightarrow> None | Some r \<Rightarrow> r) None
            | Some (status, offender) \<Rightarrow> emit_result (lb_jansson lib) status (Some verb) pkgs (Some resource) (Some hex)
                (case decoded of None \<Rightarrow> None | Some r \<Rightarrow> r) offender))
      (\<lambda>x es. P x ([] @ es)) (\<lambda>es. E ([] @ es))"
    by (cases hc; cases fault)
       (use assms(2) h in \<open>auto simp: verdict_def intro!: tr_rules tr_allocating tr_emit_result split: prod.splits\<close>)
qed (auto intro!: tr_emit_result assms(3))

definition REFUSALS :: "string list" where
  "REFUSALS = [''package_not_owned'', ''held'', ''protected_package'']"

text \<open>The line agrees with the effector for the same job.\<close>

definition agrees :: "libraries \<Rightarrow> plan_env \<Rightarrow> job \<Rightarrow> printed \<Rightarrow> event list \<Rightarrow> bool" where
  "agrees lib env job x es \<longleftrightarrow> (\<exists>status verb resource plan_hash detail.
     says (lb_jansson lib) status verb resource plan_hash detail x \<and>
     (status = ''no_op'' \<longrightarrow> (\<exists>p. job_plan env job es p \<and> plan_size p = 0)) \<and>
     (case plan_hash of
        None \<Rightarrow> status \<notin> set (''ok'' # REFUSALS)
      | Some h \<Rightarrow> status \<in> set (''ok'' # REFUSALS) \<and> (\<exists>p. job_plan env job es p \<and> planned lib p h \<and>
          resource = Some (plan_resource p (job_targets job) (job_token job)) \<and> (status = ''ok'' \<longleftrightarrow> \<not> policy_fault p))))"

lemma agrees_without:
  "says (lb_jansson lib) status verb resource None detail x \<Longrightarrow> status \<notin> set (''no_op'' # ''ok'' # REFUSALS) \<Longrightarrow>
   agrees lib env job x es"
  unfolding agrees_def by (intro exI [of _ status] exI [of _ verb] exI [of _ resource] exI [of _ None] exI [of _ detail]) simp

lemma agrees_no_op:
  assumes "says (lb_jansson lib) ''no_op'' verb resource None detail x" "job_plan env job es p" "plan_size p = 0"
  shows "agrees lib env job x es"
proof -
  have "''no_op'' \<notin> set (''ok'' # REFUSALS)" by (simp add: REFUSALS_def)
  with assms show ?thesis unfolding agrees_def
    by (intro exI [of _ "''no_op''"] exI [of _ verb] exI [of _ resource] exI [of _ None] exI [of _ detail]) auto
qed

lemma agrees_plan:
  assumes "says (lb_jansson lib) (fst (verdict fault)) verb (Some resource) (Some h) (snd (verdict fault)) x"
    and "planned lib p h" and "job_plan env job es p"
    and "resource = plan_resource p (job_targets job) (job_token job)"
    and "fault = None \<longleftrightarrow> \<not> policy_fault p" and "\<And>f. fault = Some f \<Longrightarrow> fst f \<in> set REFUSALS"
  shows "agrees lib env job x es"
proof -
  have "fst (verdict fault) \<noteq> ''no_op'' \<and> fst (verdict fault) \<in> set (''ok'' # REFUSALS) \<and>
      (fst (verdict fault) = ''ok'' \<longleftrightarrow> \<not> policy_fault p)"
    using assms(5,6) by (cases fault) (auto simp: verdict_def REFUSALS_def)
  with assms show ?thesis unfolding agrees_def
    by (intro exI [of _ "fst (verdict fault)"] exI [of _ verb] exI [of _ "Some resource"] exI [of _ "Some h"]
      exI [of _ "snd (verdict fault)"]) auto
qed

lemma statuses:
  "''internal'' \<notin> set (''no_op'' # ''ok'' # REFUSALS)" "''resolve_failed'' \<notin> set (''no_op'' # ''ok'' # REFUSALS)"
  "''dpkg_broken'' \<notin> set (''no_op'' # ''ok'' # REFUSALS)"
  by (simp_all add: REFUSALS_def)

lemmas agrees_failed = agrees_without [OF _ statuses(1)] agrees_without [OF _ statuses(2)] agrees_without [OF _ statuses(3)]

section \<open>The four previews\<close>

lemma tr_resource:
  "P None [] \<Longrightarrow> P (Some (csv (map cstr pkgs))) [] \<Longrightarrow> tr (compute_resource pkgs) P E"
  unfolding compute_resource_def
  by (rule tr_pcorrect [OF pc_resource]) (auto simp: comp_def nz_def)

lemma txn_fault: "policy_fault_status (pkgx_policy_check recs) = None \<longleftrightarrow> \<not> policy_fault (Txn v recs)"
  "policy_fault_status (pkgx_policy_check recs) = Some f \<Longrightarrow> fst f \<in> set REFUSALS"
  using policy_check_OK [of recs]
  by (auto simp: policy_fault_status_def REFUSALS_def split: prod.splits policy_result.splits)

lemma owned_nz: "pkgx_is_rapt_owned (nz p) \<longleftrightarrow> owned_name p"
  using not_owned_empty by (cases p) (simp_all add: owned_name_def rapt_owned_iff nz_def)

lemma first_rapt_None: "first_rapt_owned ps = None \<longleftrightarrow> \<not> list_ex pkgx_is_rapt_owned ps"
  by (induction ps) auto

lemma owned_fault_iff: "owned_fault ps = None \<longleftrightarrow> \<not> list_ex pkgx_is_rapt_owned ps"
  "owned_fault ps = Some f \<Longrightarrow> fst f \<in> set REFUSALS"
  by (auto simp: owned_fault_def first_rapt_None [symmetric] REFUSALS_def split: option.splits)

lemma hold_fault: "owned_fault (map hc_package changes) = None \<longleftrightarrow> \<not> policy_fault (Hold v (map hold_record_of changes))"
  by (auto simp: owned_fault_iff list_ex_iff hold_record_of_def owned_Some)

lemma cfg_fault: "owned_fault (map (nz \<circ> c_package) cfgs) = None \<longleftrightarrow> \<not> policy_fault (Cfg cfgs)"
  by (auto simp: owned_fault_iff list_ex_iff owned_nz)

lemma resolve_any: "(\<And>r es. P r es) \<Longrightarrow> (\<And>es. E es) \<Longrightarrow> tr (preview_resolve verb pkgs) P E"
  unfolding preview_resolve_def Let_def by (intro tr_rules tr_mono [OF mark_calm]) auto

lemmas tr_plans = tr_preview_plan [of "Txn v rs" for v rs, unfolded plan_digest.simps plan_size.simps]
  tr_preview_plan [of "Hold v rs" for v rs, unfolded plan_digest.simps plan_size.simps]
  tr_preview_plan [of "Cfg rs" for rs, unfolded plan_digest.simps plan_size.simps]
  tr_preview_plan [of "Upd rs" for rs, unfolded plan_digest.simps plan_size.simps]

lemma job_plan_txn:
  "Sys (Apt ReadCache) r \<in> set es \<Longrightarrow> job_plan env (TxnJob verb pkgs) es (Txn (Some verb) (pkgx_apt_map_txn (r_pkgs r)))"
  by auto

lemma agrees_txn_no_op:
  "says (lb_jansson lib) ''no_op'' verb' resource None detail x \<Longrightarrow> pkgx_apt_map_txn (r_pkgs r) = [] \<Longrightarrow>
   Sys (Apt ReadCache) r \<in> set es \<Longrightarrow> agrees lib env (TxnJob verb pkgs) x es"
  by (rule agrees_no_op [OF _ job_plan_txn]) auto

lemma txn_agrees:
  "tr (preview_txn lib verb pkgs) (agrees lib env (TxnJob verb pkgs)) (\<lambda>es. True)"
  unfolding preview_txn_def Let_def
  by (intro tr_rules tr_resource tr_emit_result resolve_any tr_plans)
     (auto intro: agrees_failed agrees_txn_no_op agrees_plan [OF _ _ job_plan_txn _ txn_fault] simp: comp_def nz_def)

lemma update_agrees:
  assumes env: "pe_evp env = lb_evp lib"
  shows "tr (preview_update lib) (agrees lib env (UpdateJob (Some []))) (\<lambda>es. True)"
  unfolding preview_update_def Let_def
  by (intro tr_rules tr_emit_result tr_plans)
     (auto intro: agrees_failed agrees_no_op agrees_plan simp: env)

lemma configure_agrees: "tr (preview_configure lib) (agrees lib env ConfigureJob) (\<lambda>es. True)"
  unfolding preview_configure_def Let_def
  by (intro tr_rules tr_emit_result tr_plans)
     (auto intro: agrees_failed agrees_no_op agrees_plan [OF _ _ _ _ cfg_fault owned_fault_iff(2)])

lemma tr_hold_map:
  "(\<And>cs. m = HOLD_MAP_OK cs \<Longrightarrow> tr (f cs) P E) \<Longrightarrow> (\<And>t. m = HOLD_MAP_UNKNOWN t \<Longrightarrow> tr (g t) P E) \<Longrightarrow>
   (\<And>t. m = HOLD_MAP_INVALID t \<Longrightarrow> tr (h t) P E) \<Longrightarrow>
   tr (case m of HOLD_MAP_OK cs \<Rightarrow> f cs | HOLD_MAP_UNKNOWN t \<Rightarrow> g t | HOLD_MAP_INVALID t \<Rightarrow> h t) P E"
  by (cases m) auto

lemma job_plan_hold:
  "map fst (lookups es) = targets \<Longrightarrow> changes = changes_of (verb = ''apt.hold'') (lookups es) \<Longrightarrow>
   job_plan env (HoldJob verb targets) (e # es) (Hold (Some verb) (map hold_record_of changes))"
  unfolding job_plan.simps by (rule exI [of _ "[e]"], rule exI [of _ es]) simp

lemma agrees_hold_no_op:
  "says (lb_jansson lib) ''no_op'' verb' resource None detail x \<Longrightarrow> map fst (lookups es) = targets \<Longrightarrow>
   changes_of (verb = ''apt.hold'') (lookups es) = [] \<Longrightarrow> agrees lib env (HoldJob verb targets) x (e # es)"
  by (rule agrees_no_op [OF _ job_plan_hold]) auto

lemma hold_agrees:
  "tr (preview_hold lib verb pkgs) (agrees lib env (HoldJob verb pkgs)) (\<lambda>es. True)"
  unfolding preview_hold_def Let_def pkgx_apt_map_hold_def
  by (intro tr_rules tr_resource tr_emit_result tr_plans tr_hold_map tr_mono [OF map_hold_trace])
     (auto intro: agrees_failed agrees_hold_no_op agrees_plan [OF _ _ job_plan_hold _ hold_fault owned_fault_iff(2)]
       simp: comp_def nz_def)

end
