(* ===== verification/Preview_Props.thy ===== *)
theory Preview_Props
  imports Preview_Proofs
begin

text \<open>
  The properties of the two planners: agreement with the effectors, and that a preview only reads.
\<close>

section \<open>Agreement\<close>

lemma job_plan_later: "job_plan env job es p \<Longrightarrow> job_plan env job (e # es) p"
proof (cases job)
  case (HoldJob verb targets)
  assume "job_plan env job es p"
  then obtain es1 es2 where h: "es = es1 @ es2" "map fst (lookups es2) = targets"
    "p = Hold (Some verb) (map hold_record_of (changes_of (verb = ''apt.hold'') (lookups es2)))"
    unfolding HoldJob job_plan.simps by blast
  show ?thesis unfolding HoldJob job_plan.simps
    by (rule exI [of _ "e # es1"], rule exI [of _ es2]) (simp add: h)
qed auto

lemma agrees_later:
  assumes "agrees lib env job x es"
  shows "agrees lib env job x (e # es)"
proof -
  obtain status verb resource plan_hash detail where a: "says (lb_jansson lib) status verb resource plan_hash detail x"
    "status = ''no_op'' \<longrightarrow> (\<exists>p. job_plan env job es p \<and> plan_size p = 0)"
    "case plan_hash of
        None \<Rightarrow> status \<notin> set (''ok'' # REFUSALS)
      | Some h \<Rightarrow> status \<in> set (''ok'' # REFUSALS) \<and> (\<exists>p. job_plan env job es p \<and> planned lib p h \<and>
          resource = Some (plan_resource p (job_targets job) (job_token job)) \<and> (status = ''ok'' \<longleftrightarrow> \<not> policy_fault p))"
    using assms unfolding agrees_def by blast
  show ?thesis
    unfolding agrees_def
    by (intro exI conjI, rule a(1))
       (use a(2,3) job_plan_later [of env job es _ e] in \<open>blast, cases plan_hash, simp_all only: option.case, blast\<close>)
qed

lemma agrees_after: "agrees lib env job x es \<Longrightarrow> agrees lib env job x (us @ es)"
  by (induction us) (simp_all add: agrees_later)

lemma parts_agree:
  "pe_evp env = lb_evp lib \<Longrightarrow> verb = ''apt.update'' \<Longrightarrow>
     tr (preview_update lib) (agrees lib env (verb_job verb req)) (\<lambda>es. True)"
  "verb = ''apt.hold'' \<or> verb = ''apt.unhold'' \<Longrightarrow>
     tr (preview_hold lib verb (requested req)) (agrees lib env (verb_job verb req)) (\<lambda>es. True)"
  "verb = ''apt.configure'' \<Longrightarrow> tr (preview_configure lib) (agrees lib env (verb_job verb req)) (\<lambda>es. True)"
  "verb \<noteq> ''apt.update'' \<Longrightarrow> \<not> (verb = ''apt.hold'' \<or> verb = ''apt.unhold'') \<Longrightarrow> verb \<noteq> ''apt.configure'' \<Longrightarrow>
     tr (preview_txn lib verb (requested req)) (agrees lib env (verb_job verb req)) (\<lambda>es. True)"
  by (auto simp: verb_job_def update_agrees hold_agrees configure_agrees txn_agrees)

lemma run_agrees:
  assumes env: "pe_evp env = lb_evp lib"
  shows "tr (preview_run lib verb (requested req)) (agrees lib env (verb_job verb req)) (\<lambda>es. True)"
  unfolding preview_run_def Let_def
  by (intro tr_rules tr_emit_result tr_mono [OF parts_agree(1) [OF env]] tr_mono [OF parts_agree(2)]
      tr_mono [OF parts_agree(3)] tr_mono [OF parts_agree(4)])
     (assumption | rule TrueI | erule agrees_failed | (intro agrees_after, assumption) | simp only: not_False_eq_True)+

text \<open>C6. Preview and effector agree. Whatever libapt and the libraries answer, the line that a preview of a verb and a
package list prints is about the plan that the effector's job for the same verb and packages makes of the answers
of this run: a hash in it is the digest of that plan, its resource is the one the broker would be asked for, and
the status is ok exactly when the policy accepts the plan, the name of a refusal otherwise; a no-op is printed
only for an empty plan; and a line without a hash is neither ok nor a refusal.\<close>

theorem preview_agrees:
  assumes "preview_run lib verb (requested req) w = (Some x, w')" and "pe_evp env = lb_evp lib"
  shows "\<exists>es status verb' resource plan_hash detail. log w' = log w @ es \<and>
    says (lb_jansson lib) status verb' resource plan_hash detail x \<and>
    (status = ''no_op'' \<longrightarrow> (\<exists>p. job_plan env (verb_job verb req) es p \<and> plan_size p = 0)) \<and>
    (case plan_hash of
       None \<Rightarrow> status \<notin> set (''ok'' # REFUSALS)
     | Some h \<Rightarrow> status \<in> set (''ok'' # REFUSALS) \<and> (\<exists>p. job_plan env (verb_job verb req) es p \<and>
         plan_size p \<noteq> 0 \<and> plan_ok p \<and> hashed (lb_evp lib) (h, plan_canon p) \<and>
         resource = Some (plan_resource p (job_targets (verb_job verb req)) (job_token (verb_job verb req))) \<and>
         (status = ''ok'' \<longleftrightarrow> plan_admitted env p h)))"
proof -
  obtain es where es: "log w' = log w @ es" "agrees lib env (verb_job verb req) x es"
    using tr_returns [OF run_agrees [OF assms(2)] assms(1)] by blast
  have adm: "planned lib p h \<Longrightarrow> plan_admitted env p h \<longleftrightarrow> \<not> policy_fault p" for p h
    by (simp add: planned_def plan_admitted_def assms(2))
  obtain status verb' resource plan_hash detail where a: "says (lb_jansson lib) status verb' resource plan_hash detail x"
    "status = ''no_op'' \<longrightarrow> (\<exists>p. job_plan env (verb_job verb req) es p \<and> plan_size p = 0)"
    "case plan_hash of
        None \<Rightarrow> status \<notin> set (''ok'' # REFUSALS)
      | Some h \<Rightarrow> status \<in> set (''ok'' # REFUSALS) \<and> (\<exists>p. job_plan env (verb_job verb req) es p \<and> planned lib p h \<and>
          resource = Some (plan_resource p (job_targets (verb_job verb req)) (job_token (verb_job verb req))) \<and>
          (status = ''ok'' \<longleftrightarrow> \<not> policy_fault p))"
    using es(2) unfolding agrees_def by blast
  then have "case plan_hash of
       None \<Rightarrow> status \<notin> set (''ok'' # REFUSALS)
     | Some h \<Rightarrow> status \<in> set (''ok'' # REFUSALS) \<and> (\<exists>p. job_plan env (verb_job verb req) es p \<and>
         plan_size p \<noteq> 0 \<and> plan_ok p \<and> hashed (lb_evp lib) (h, plan_canon p) \<and>
         resource = Some (plan_resource p (job_targets (verb_job verb req)) (job_token (verb_job verb req))) \<and>
         (status = ''ok'' \<longleftrightarrow> plan_admitted env p h))"
    by (cases plan_hash) (use adm in \<open>auto simp: planned_def simp del: list.set\<close>)
  with es(1) a show ?thesis by blast
qed

section \<open>A preview only reads\<close>

text \<open>The calls a preview may make: the clock, standard input, and libapt calls that open the cache without a lock,
look things up and mark packages in memory.\<close>

fun reading_call :: "call \<Rightarrow> bool" where
  "reading_call ClockGettime = True"
| "reading_call (Poll fd ev ms) \<longleftrightarrow> fd = 0"
| "reading_call (ReadFd fd n) \<longleftrightarrow> fd = 0"
| "reading_call (Apt c) \<longleftrightarrow> c \<in> {InitConfig, InitSystem, OpenCache False, GetPkgCache, GetDepCache, ReadCache,
     NewResolver, Resolve True, ReadMainList, DumpErrors} \<or>
     (case c of FindPkg t \<Rightarrow> True | Protect t \<Rightarrow> True | MarkDelete t p \<Rightarrow> True | ResolverRemove t \<Rightarrow> True
        | MarkInstall t b \<Rightarrow> True | Upgrade m \<Rightarrow> True | _ \<Rightarrow> False)"
| "reading_call c = False"

fun reading :: "event \<Rightarrow> bool" where
  "reading (Sys c r) = reading_call c"
| "reading (Blocked c) = reading_call c"
| "reading e = True"

abbreviation reads_only :: "'a \<Rightarrow> event list \<Rightarrow> bool" where
  "reads_only x es \<equiv> list_all reading es"

lemma reads_emit: "tr (emit_result jn status verb pkgs resource plan_hash records detail) reads_only (list_all reading)"
  by (rule tr_emit_result) simp

lemma reads_memory: "tr (allocating m) reads_only (list_all reading)"
  by (rule tr_allocating) simp_all

lemma reads_plan: "tr (preview_plan lib verb pkgs resource kind digest fault) reads_only (list_all reading)"
  unfolding preview_plan_def Let_def
  by (intro tr_rules tr_mono [OF reads_memory] tr_mono [OF reads_emit]) auto

lemma reads_mark: "tr (mark_targets removal purge ts) reads_only (list_all reading)"
proof (induction ts)
  case (Cons t ts)
  show ?case
    unfolding mark_targets.simps by (intro tr_rules tr_mono [OF Cons.IH]) auto
qed (auto intro: tr_return)

lemma reads_map_hold: "tr (map_hold_targets hold ts changes) reads_only (list_all reading)"
proof (induction ts arbitrary: hold changes)
  case (Cons t ts)
  show ?case
    unfolding map_hold_targets.simps Let_def
    by (intro tr_rules) (auto intro!: tr_rules tr_mono [OF Cons.IH] split: list.splits)
qed (auto intro: tr_return)

lemma reads_stdin: "tr (pkgx_read_stdin 0) reads_only (list_all reading)"
proof -
  have loop: "tr (io_loop (stdin_round 0 dl start) s) reads_only (list_all reading)" for dl start s
    unfolding stdin_round_def grow_stdin_def
    by (rule tr_loop [where I = reads_only]) (auto intro!: tr_rules split: prod.split)
  show ?thesis
    unfolding pkgx_read_stdin_def pkgx_read_stdin_deadline_def stdin_finish_def
    by (intro tr_rules tr_mono [OF loop]) (auto intro!: tr_rules)
qed

lemma reads_resolve: "tr (preview_resolve verb pkgs) reads_only (list_all reading)"
  unfolding preview_resolve_def Let_def by (intro tr_rules tr_mono [OF reads_mark]) auto

lemmas reads_parts = tr_mono [OF reads_memory] tr_mono [OF reads_emit] tr_mono [OF reads_plan] tr_mono [OF reads_resolve]
  tr_mono [OF reads_map_hold] tr_hold_map

lemma reads_txn: "tr (preview_txn lib verb pkgs) reads_only (list_all reading)"
  unfolding preview_txn_def Let_def compute_resource_def by (intro tr_rules reads_parts) auto

lemma reads_update: "tr (preview_update lib) reads_only (list_all reading)"
  unfolding preview_update_def Let_def by (intro tr_rules reads_parts) auto

lemma reads_hold: "tr (preview_hold lib verb pkgs) reads_only (list_all reading)"
  unfolding preview_hold_def Let_def compute_resource_def pkgx_apt_map_hold_def by (intro tr_rules reads_parts) auto

lemma reads_configure: "tr (preview_configure lib) reads_only (list_all reading)"
  unfolding preview_configure_def Let_def by (intro tr_rules reads_parts) auto

lemma reads_run: "tr (preview_run lib verb pkgs) reads_only (list_all reading)"
  unfolding preview_run_def Let_def
  by (intro tr_rules reads_parts tr_mono [OF reads_txn] tr_mono [OF reads_update] tr_mono [OF reads_hold]
      tr_mono [OF reads_configure]) auto

lemma reads_main: "tr (preview_main lib) reads_only (list_all reading)"
  unfolding preview_main_def preview_request_def
  by (intro tr_rules reads_parts tr_mono [OF reads_stdin] tr_mono [OF reads_run]) auto

text \<open>C7. A preview only reads: finished or cut off at any point, whatever it was asked and whatever was answered, it has
called nothing but the clock, standard input and libapt's lookups, marks and an opening of the cache without
a lock; it takes no lock, sets no option, connects nowhere, and neither fetches, installs, refreshes nor runs
anything.\<close>

theorem preview_reads_only: "\<exists>es. log (snd (preview_main lib w)) = log w @ es \<and> list_all reading es"
  using tr_run [OF reads_main, of lib w] by (metis prod.collapse)

section \<open>The acceptance planner\<close>

definition plan_says :: "plan_env \<Rightarrow> string \<Rightarrow> job \<Rightarrow> plan_print \<Rightarrow> event list \<Rightarrow> bool" where
  "plan_says env verb job = (\<lambda>(e, out) es. case e of
     EXIT_OK \<Rightarrow> \<exists>p h. job_plan env job es p \<and> plan_admitted env p h \<and>
       out = resolved_line verb (plan_size p) @ plan_lines (plan_resource p (job_targets job) (job_token job)) h
   | EXIT_NOOP \<Rightarrow> (\<exists>p. job_plan env job es p \<and> plan_size p = 0) \<and> out = resolved_line verb 0 @ line ''status=noop''
   | EXIT_REFUSED \<Rightarrow> (\<exists>p. job_plan env job es p \<and> policy_fault p) \<or>
       (\<exists>r name. Sys (Apt ReadCache) r \<in> set es \<and> pkgx_apt_map_configure (r_pkgs r) = Inl name)
   | EXIT_INTERNAL \<Rightarrow> True
   | EXIT_USAGE \<Rightarrow> False)"

lemma plan_says_later: "plan_says env verb job x es \<Longrightarrow> plan_says env verb job x (e # es)"
  by (cases x; cases "fst x") (auto simp: plan_says_def, (blast intro: job_plan_later)+)

lemma plan_says_after: "plan_says env verb job x es \<Longrightarrow> plan_says env verb job x (us @ es)"
  by (induction us) (simp_all add: plan_says_later)

lemma plan_says_ok:
  "job_plan env job es p \<Longrightarrow> plan_admitted env p h \<Longrightarrow>
   plan_says env verb job
     (EXIT_OK, resolved_line verb (plan_size p) @ plan_lines (plan_resource p (job_targets job) (job_token job)) h) es"
  unfolding plan_says_def by auto

lemma tr_print_plan:
  assumes "pe_evp env = lb_evp lib"
    and "job_plan env job es p" "\<not> policy_fault p" "plan_size p \<noteq> 0"
    and "out = resolved_line verb (plan_size p)" "resource = plan_resource p (job_targets job) (job_token job)"
  shows "tr (print_plan out resource (plan_digest (lb_evp lib) p)) (\<lambda>x fs. plan_says env verb job x (es @ fs)) (\<lambda>fs. True)"
  unfolding print_plan_def
proof (rule tr_bind, rule tr_pcorrect [OF pc_plan_digest])
  fix hc :: "string \<times> string"
  assume "plan_ok p \<and> length (plan_canon p) \<le> max_canon \<and> hashed (lb_evp lib) (fst hc, plan_canon p)"
  then have "plan_admitted env p (fst hc)" using assms by (simp add: plan_admitted_def)
  then show "tr (case Some hc of None \<Rightarrow> ireturn (EXIT_INTERNAL, out)
      | Some (hex, canon) \<Rightarrow> ireturn (EXIT_OK, out @ plan_lines resource hex))
      (\<lambda>x fs. plan_says env verb job x (es @ [] @ fs)) (\<lambda>fs. True)"
    using assms(2,5,6) by (cases hc) (auto intro!: tr_return plan_says_ok)
qed (auto simp: plan_says_def intro!: tr_return)

lemma plan_says_plain: "plan_says env verb job (EXIT_INTERNAL, out) es"
  by (simp add: plan_says_def)

lemma plan_says_noop:
  "job_plan env job es p \<Longrightarrow> plan_size p = 0 \<Longrightarrow>
   plan_says env verb job (EXIT_NOOP, resolved_line verb 0 @ line ''status=noop'') es"
  by (auto simp: plan_says_def)

lemma plan_says_refused: "job_plan env job es p \<Longrightarrow> policy_fault p \<Longrightarrow> plan_says env verb job (EXIT_REFUSED, out) es"
  by (auto simp: plan_says_def)

lemma plan_says_broken:
  "Sys (Apt ReadCache) r \<in> set es \<Longrightarrow> pkgx_apt_map_configure (r_pkgs r) = Inl name \<Longrightarrow>
   plan_says env verb job (EXIT_REFUSED, out) es"
  by (auto simp: plan_says_def)

lemmas plan_says_rules = plan_says_plain plan_says_noop plan_says_refused plan_says_broken

lemma resource_tr:
  "tr (resource_for targets) (\<lambda>x es. es = [] \<and> (\<forall>s. x = Some s \<longrightarrow> s = csv (map nz (map Some targets)))) (\<lambda>es. False)"
  unfolding resource_for_def by (rule tr_pcorrect [OF pc_resource]) simp_all

lemma resolve_events: "tr (plan_resolve verb targets) (\<lambda>x es. True) (\<lambda>es. True)"
  unfolding plan_resolve_def Let_def by (intro tr_rules tr_mono [OF mark_calm]) auto

lemma tr_verdict:
  "(a = POLICY_OK \<Longrightarrow> tr f P E) \<Longrightarrow> (a \<noteq> POLICY_OK \<Longrightarrow> tr g P E) \<Longrightarrow> (a \<noteq> POLICY_OK \<Longrightarrow> tr h P E) \<Longrightarrow>
   (a \<noteq> POLICY_OK \<Longrightarrow> tr k P E) \<Longrightarrow>
   tr (case a of POLICY_OK \<Rightarrow> f | POLICY_NOT_OWNED \<Rightarrow> g | POLICY_HELD \<Rightarrow> h | POLICY_PROTECTED \<Rightarrow> k) P E"
  by (cases a) auto

lemma says_txn_noop:
  "pkgx_apt_map_txn (r_pkgs r) = [] \<Longrightarrow> Sys (Apt ReadCache) r \<in> set es \<Longrightarrow>
   plan_says env verb (TxnJob verb targets) (EXIT_NOOP, resolved_line verb 0 @ line ''status=noop'') es"
  by (rule plan_says_noop [OF job_plan_txn]) auto

lemma says_txn_refused:
  "pkgx_policy_check (pkgx_apt_map_txn (r_pkgs r)) = (a, t) \<Longrightarrow> a \<noteq> POLICY_OK \<Longrightarrow> Sys (Apt ReadCache) r \<in> set es \<Longrightarrow>
   plan_says env verb (TxnJob verb targets) (EXIT_REFUSED, out) es"
  using policy_check_OK [of "pkgx_apt_map_txn (r_pkgs r)"] by (intro plan_says_refused [OF job_plan_txn]) auto

lemma print_txn:
  assumes "pe_evp env = lb_evp lib" and "rs \<noteq> []" and "pkgx_policy_check rs = (POLICY_OK, t)"
    and "rs = pkgx_apt_map_txn (r_pkgs r)"
  shows "tr (print_plan (resolved_line verb (length rs)) (csv (map (nz \<circ> Some) targets)) (pkgx_digest_pkg_txn (lb_evp lib) (Some verb) rs))
    (\<lambda>x es. plan_says env verb (TxnJob verb targets) x (Sys (Apt ReadCache) r # es)) (\<lambda>es. True)"
proof -
  have plan: "job_plan env (TxnJob verb targets) [Sys (Apt ReadCache) r] (Txn (Some verb) rs)"
    unfolding assms(4) by (rule job_plan_txn) simp
  have "\<not> policy_fault (Txn (Some verb) rs)" using policy_check_OK [of rs] assms(3) by simp
  then show ?thesis
    using tr_print_plan [OF assms(1) plan, of "resolved_line verb (length rs)" verb] assms(2) by simp
qed

lemma txn_says:
  assumes env: "pe_evp env = lb_evp lib"
  shows "tr (plan_txn lib verb targets) (plan_says env verb (TxnJob verb targets)) (\<lambda>es. True)"
  unfolding plan_txn_def Let_def
  by (intro tr_rules tr_mono [OF resolve_events] tr_mono [OF resource_tr] tr_verdict)
     (auto intro!: plan_says_plain tr_mono [OF print_txn [OF env]] intro: says_txn_noop says_txn_refused plan_says_later plan_says_after)


lemma print_update:
  assumes "pe_evp env = lb_evp lib" and "rs \<noteq> []" and "rs = pkgx_apt_map_sources (lb_evp lib) (r_sources r)"
  shows "tr (print_plan (resolved_line verb (length rs)) [] (pkgx_digest_update (lb_evp lib) rs))
    (\<lambda>x es. plan_says env verb (UpdateJob (Some [])) x (Sys (Apt ReadMainList) r # es)) (\<lambda>es. True)"
proof -
  have "job_plan env (UpdateJob (Some [])) [Sys (Apt ReadMainList) r] (Upd rs)" using assms by auto
  from tr_print_plan [OF assms(1) this, of "resolved_line verb (length rs)" verb] show ?thesis using assms(2) by simp
qed

lemma update_says:
  assumes env: "pe_evp env = lb_evp lib"
  shows "tr (plan_update lib) (plan_says env ''apt.update'' (UpdateJob (Some []))) (\<lambda>es. True)"
  unfolding plan_update_def Let_def
  by (intro tr_rules)
     (auto intro!: plan_says_plain tr_mono [OF print_update [OF env]]
       intro: plan_says_noop [of _ _ _ "Upd rs" for rs] simp: env)

lemma print_configure:
  assumes "pe_evp env = lb_evp lib" and "cfgs \<noteq> []" and "pkgx_apt_map_configure (r_pkgs r) = Inr cfgs"
    and "first_rapt_owned (map (nz \<circ> c_package) cfgs) = None"
  shows "tr (print_plan (resolved_line verb (length cfgs)) ''pending'' (pkgx_digest_configure (lb_evp lib) cfgs))
    (\<lambda>x es. plan_says env verb ConfigureJob x (Sys (Apt ReadCache) r # es)) (\<lambda>es. True)"
proof -
  have plan: "job_plan env ConfigureJob [Sys (Apt ReadCache) r] (Cfg cfgs)" using assms by auto
  have "\<not> policy_fault (Cfg cfgs)"
    using cfg_fault [of cfgs] assms(4) by (simp add: owned_fault_def)
  with tr_print_plan [OF assms(1) plan, of "resolved_line verb (length cfgs)" verb] show ?thesis using assms(2) by simp
qed

lemma says_configure_refused:
  assumes "pkgx_apt_map_configure (r_pkgs r) = Inr cfgs" and "first_rapt_owned (map (nz \<circ> c_package) cfgs) = Some t"
    and "Sys (Apt ReadCache) r \<in> set es"
  shows "plan_says env verb ConfigureJob (EXIT_REFUSED, out) es"
proof (rule plan_says_refused)
  show "job_plan env ConfigureJob es (Cfg cfgs)" using assms by auto
  show "policy_fault (Cfg cfgs)" using cfg_fault [of cfgs] assms(2) by (simp add: owned_fault_def)
qed

lemma configure_says:
  assumes env: "pe_evp env = lb_evp lib"
  shows "tr (plan_configure lib) (plan_says env ''apt.configure'' ConfigureJob) (\<lambda>es. True)"
  unfolding plan_configure_def Let_def
  by (intro tr_rules)
     (auto intro!: plan_says_plain tr_mono [OF print_configure [OF env]]
       intro: plan_says_noop [of _ _ _ "Cfg cfgs" for cfgs] plan_says_broken says_configure_refused plan_says_later)


lemma print_hold:
  assumes "pe_evp env = lb_evp lib" and "map fst (lookups es) = targets"
    and "changes = changes_of (verb = ''apt.hold'') (lookups es)" and "changes \<noteq> []"
    and "first_rapt_owned (map hc_package changes) = None"
  shows "tr (print_plan (resolved_line verb (length changes)) (csv (map (nz \<circ> Some) targets))
      (pkgx_digest_hold (lb_evp lib) (Some verb) (map hold_record_of changes)))
    (\<lambda>x fs. plan_says env verb (HoldJob verb targets) x (e # es @ fs)) (\<lambda>es. True)"
proof -
  have "job_plan env (HoldJob verb targets) (e # es) (Hold (Some verb) (map hold_record_of changes))"
    by (rule job_plan_hold) fact+
  moreover have "\<not> policy_fault (Hold (Some verb) (map hold_record_of changes))"
    using hold_fault [of changes "Some verb"] assms(5) by (simp add: owned_fault_def)
  ultimately show ?thesis
    using tr_print_plan [OF assms(1), of "HoldJob verb targets" "e # es" "Hold (Some verb) (map hold_record_of changes)"
        "resolved_line verb (length changes)" verb] assms(4) by simp
qed

lemma says_hold_refused:
  assumes "first_rapt_owned (map hc_package (changes_of (verb = ''apt.hold'') (lookups es))) = Some t"
    and "map fst (lookups es) = targets"
  shows "plan_says env verb (HoldJob verb targets) (EXIT_REFUSED, out) (e # es)"
proof (rule plan_says_refused)
  show "job_plan env (HoldJob verb targets) (e # es)
      (Hold (Some verb) (map hold_record_of (changes_of (verb = ''apt.hold'') (lookups es))))"
    by (rule job_plan_hold) (use assms in simp_all)
  show "policy_fault (Hold (Some verb) (map hold_record_of (changes_of (verb = ''apt.hold'') (lookups es))))"
    using hold_fault [of "changes_of (verb = ''apt.hold'') (lookups es)" "Some verb"] assms by (simp add: owned_fault_def)
qed

lemma says_hold_noop:
  "map fst (lookups es) = targets \<Longrightarrow> changes_of (verb = ''apt.hold'') (lookups es) = [] \<Longrightarrow>
   plan_says env verb (HoldJob verb targets) (EXIT_NOOP, resolved_line verb 0 @ line ''status=noop'') (e # es)"
  by (rule plan_says_noop [OF job_plan_hold]) simp_all

lemma hold_says:
  assumes env: "pe_evp env = lb_evp lib"
  shows "tr (plan_hold lib verb targets) (plan_says env verb (HoldJob verb targets)) (\<lambda>es. True)"
  unfolding plan_hold_def Let_def pkgx_apt_map_hold_def
  by (intro tr_rules tr_hold_map tr_mono [OF map_hold_trace] tr_mono [OF resource_tr])
     (auto intro!: plan_says_plain tr_mono [OF print_hold [OF env]] intro: says_hold_noop says_hold_refused)

lemma plan_parts:
  "pe_evp env = lb_evp lib \<Longrightarrow> verb = ''apt.update'' \<Longrightarrow>
     tr (plan_update lib) (plan_says env verb (verb_job verb req)) (\<lambda>es. True)"
  "pe_evp env = lb_evp lib \<Longrightarrow> verb = ''apt.hold'' \<or> verb = ''apt.unhold'' \<Longrightarrow>
     tr (plan_hold lib verb (requested req)) (plan_says env verb (verb_job verb req)) (\<lambda>es. True)"
  "pe_evp env = lb_evp lib \<Longrightarrow> verb = ''apt.configure'' \<Longrightarrow>
     tr (plan_configure lib) (plan_says env verb (verb_job verb req)) (\<lambda>es. True)"
  "pe_evp env = lb_evp lib \<Longrightarrow> verb \<noteq> ''apt.update'' \<Longrightarrow> \<not> (verb = ''apt.hold'' \<or> verb = ''apt.unhold'') \<Longrightarrow>
     verb \<noteq> ''apt.configure'' \<Longrightarrow>
     tr (plan_txn lib verb (requested req)) (plan_says env verb (verb_job verb req)) (\<lambda>es. True)"
  by (auto simp: verb_job_def update_says hold_says configure_says txn_says)

lemma plan_run_says:
  assumes env: "pe_evp env = lb_evp lib" and ok: "check_verb_arity verb (length (requested req))"
  shows "tr (plan_run lib verb (requested req)) (plan_says env verb (verb_job verb req)) (\<lambda>es. True)"
  unfolding plan_run_def
  by (intro tr_rules tr_mono [OF plan_parts(1) [OF env]] tr_mono [OF plan_parts(2) [OF env]]
      tr_mono [OF plan_parts(3) [OF env]] tr_mono [OF plan_parts(4) [OF env]])
     (assumption | rule TrueI plan_says_plain | (intro plan_says_after, assumption) | simp add: ok)+

text \<open>C40. The acceptance planner agrees with the effectors as well. A verb with the wrong number of packages is a usage
error that asks nothing of libapt. Otherwise exit 0 means that the policy admits the plan which the effector's
job makes of the answers of this run, and the printed resource and hash are those of that plan, after a count
of its records; a no-op is an empty plan; and a refusal means that the policy faults the plan, or that a package
is half installed.\<close>

theorem plan_tool_agrees:
  assumes "plan_run lib verb (requested req) w = (Some (e, out), w')" and "pe_evp env = lb_evp lib"
  shows "\<exists>es. log w' = log w @ es \<and>
    (if \<not> check_verb_arity verb (length (requested req)) then e = EXIT_USAGE \<and> out = [] \<and> es = []
     else (case e of
       EXIT_OK \<Rightarrow> \<exists>p h. job_plan env (verb_job verb req) es p \<and> plan_admitted env p h \<and>
         out = resolved_line verb (plan_size p) @
           plan_lines (plan_resource p (job_targets (verb_job verb req)) (job_token (verb_job verb req))) h
     | EXIT_NOOP \<Rightarrow> (\<exists>p. job_plan env (verb_job verb req) es p \<and> plan_size p = 0) \<and>
         out = resolved_line verb 0 @ line ''status=noop''
     | EXIT_REFUSED \<Rightarrow> (\<exists>p. job_plan env (verb_job verb req) es p \<and> policy_fault p) \<or>
         (\<exists>r name. Sys (Apt ReadCache) r \<in> set es \<and> pkgx_apt_map_configure (r_pkgs r) = Inl name)
     | EXIT_INTERNAL \<Rightarrow> True
     | EXIT_USAGE \<Rightarrow> False))"
proof (cases "check_verb_arity verb (length (requested req))")
  case True
  from tr_returns [OF plan_run_says [OF assms(2) this] assms(1)] True show ?thesis
    by (simp add: plan_says_def)
next
  case False
  with assms(1) show ?thesis by (auto simp: plan_run_def ireturn_def)
qed

end
