(* ===== verification/Preview_Runs.thy ===== *)
theory Preview_Runs
  imports Preview_Props Entry_Runs
begin

text \<open>
  The line a preview prints when nothing fails, a whole run of the hold preview, and the witnesses of the
  properties of the planners.
\<close>

section \<open>The whole line\<close>

definition line_members ::
  "string \<Rightarrow> string \<Rightarrow> string list \<Rightarrow> string \<Rightarrow> string \<Rightarrow> json \<Rightarrow> string option \<Rightarrow> (string \<times> json) list" where
  "line_members status verb pkgs resource plan_hash records detail =
     [(''schema_version'', JInteger 1), (''status'', JString (cstr status)), (''verb'', JString (cstr verb)),
      (''packages'', JArray (map (\<lambda>s. JString (cstr s)) pkgs)), (''plan_schema'', JInteger 1),
      (''resource'', JString (cstr resource)), (''plan_hash'', JString (cstr plan_hash)), (''records'', records),
      (''detail'', text_or_null detail)]"

lemma makes_integer: "makes (j_integer i) (JInteger i)"
  unfolding makes_def j_integer_def json_integer_def by (intro tc_attempt alloc_rules) auto

lemma makes_known: "makes (aret (Some x)) x"
  by (simp add: makes_def tc_ret)

lemma makes_strings: "\<forall>s\<in>set ss. j_utf8 jn (cstr s) \<Longrightarrow>
  makes (array_of (j_string jn) ss) (JArray (map (\<lambda>s. JString (cstr s)) ss))"
  by (rule makes_array) (auto simp: list_all2_map2 list_all2_same intro: makes_string)

lemma makes_or_null: "\<forall>s\<in>set_option t. j_utf8 jn (cstr s) \<Longrightarrow> makes (or_null jn t) (text_or_null t)"
  by (cases t) (simp_all add: or_null_def text_or_null_def makes_string makes_known)

lemma or_null_Some: "or_null jn (Some s) = j_string jn s"
  by (simp add: or_null_def)

lemma member_utf8:
  assumes "takes_utf8 jn"
  shows "list_all (j_utf8 jn) [''schema_version'', ''status'', ''verb'', ''packages'', ''plan_schema'', ''resource'', ''plan_hash'',
    ''records'', ''detail'']"
proof -
  have "list_all utf8_valid [''schema_version'', ''status'', ''verb'', ''packages'', ''plan_schema'', ''resource'', ''plan_hash'',
    ''records'', ''detail'']" by code_simp
  with assms show ?thesis by (auto simp: takes_utf8_def list_all_iff)
qed

lemma line_made:
  assumes jn: "takes_utf8 jn"
    and utf: "\<forall>s\<in>set ([status, verb, resource, plan_hash] @ pkgs) \<union> set_option detail. j_utf8 jn (cstr s)"
  shows "makes_members jn (document jn status (Some verb) pkgs (Some resource) (Some plan_hash) (Some records) detail)
    (line_members status verb pkgs resource plan_hash records detail)"
  using utf member_utf8 [OF jn]
  unfolding makes_members_def document_def line_members_def
  by (simp add: member_names makes_string makes_integer makes_known makes_strings makes_or_null
      or_null_Some)

lemma emit_complete:
  assumes "\<forall>i. aorc w i" and jn: "takes_utf8 jn"
    and "\<forall>s\<in>set ([status, verb, resource, plan_hash] @ pkgs) \<union> set_option detail. j_utf8 jn (cstr s)"
    and "j_dumps jn (JObject (line_members status verb pkgs resource plan_hash records detail)) = Some t"
  shows "\<exists>k. emit_result jn status (Some verb) pkgs (Some resource) (Some plan_hash) (Some records) detail w =
    (Some (status_exit status, cstr t @ [CHR 0x0A]), w\<lparr>acnt := k\<rparr>)"
proof -
  have "tcorrect (emit_line_text jn status (Some verb) pkgs (Some resource) (Some plan_hash) (Some records) detail)
      (\<lambda>s. s = cstr t @ [CHR 0x0A])"
    unfolding emit_line_text_def json_dumps_def
    by (rule tc_bind [OF tc_alloc], rule tc_bind [OF makes_object [OF line_made [OF jn assms(3)]]])
       (use assms(4) in \<open>auto intro!: alloc_rules\<close>)
  from allocating_runs [OF this assms(1)] show ?thesis
    by (auto simp: emit_result_def ibind_def ireturn_def)
qed

lemma line_complete:
  assumes "\<forall>i. aorc w i" and "takes_utf8 (lb_jansson lib)"
    and "plan_size p \<noteq> 0" and "plan_ok p" and "length (plan_canon p) \<le> max_canon" and "hashed (lb_evp lib) (h, plan_canon p)"
    and "\<forall>s\<in>set ([fst (verdict fault), verb, resource] @ pkgs) \<union> set_option (snd (verdict fault)). utf8_valid (cstr s)"
    and "j_dumps (lb_jansson lib) (JObject
      (line_members (fst (verdict fault)) verb pkgs resource h (plan_view p) (snd (verdict fault)))) = Some t"
  shows "\<exists>k. preview_plan lib verb pkgs resource (plan_kind p) (plan_digest (lb_evp lib) p) fault w =
    (Some (status_exit (fst (verdict fault)), cstr t @ [CHR 0x0A]), w\<lparr>acnt := k\<rparr>)"
proof -
  let ?jn = "lb_jansson lib"
  obtain k where d: "allocating (plan_digest (lb_evp lib) p) w = (Some (Some (h, plan_canon p)), w\<lparr>acnt := k\<rparr>)"
    using allocating_runs [OF plan_digest_total [OF assms(4-6)] assms(1)] by blast
  obtain j where r: "allocating (decode_records ?jn (plan_canon p) (plan_kind p)) (w\<lparr>acnt := k\<rparr>) =
      (Some (Some (Some (plan_view p))), w\<lparr>acnt := j\<rparr>)"
    using allocating_runs [OF plan_view_made [OF assms(2,4,3), unfolded makes_def], of "w\<lparr>acnt := k\<rparr>"] assms(1) by auto
  have "utf8_valid (cstr h)"
  proof (rule utf8_valid_ascii)
    obtain md where "h = hex_of md" using assms(6) by (auto simp: hashed_def)
    with hex_of_digits [of md] have "\<forall>c\<in>set h. c \<in> set ''0123456789abcdef''" by blast
    moreover have "\<forall>c\<in>set ''0123456789abcdef''. ord c < 128" by simp
    ultimately show "\<forall>c\<in>set (cstr h). ord c < 128" unfolding cstr_def by (blast dest: set_takeWhileD)
  qed
  then have "\<forall>s\<in>set ([fst (verdict fault), verb, resource, h] @ pkgs) \<union> set_option (snd (verdict fault)). j_utf8 ?jn (cstr s)"
    using assms(2,7) unfolding takes_utf8_def by simp
  from emit_complete [OF _ assms(2) this assms(8), of "w\<lparr>acnt := j\<rparr>"] assms(1)
  obtain i where "emit_result ?jn (fst (verdict fault)) (Some verb) pkgs (Some resource) (Some h) (Some (plan_view p))
      (snd (verdict fault)) (w\<lparr>acnt := j\<rparr>) = (Some (status_exit (fst (verdict fault)), cstr t @ [CHR 0x0A]), w\<lparr>acnt := i\<rparr>)"
    by fastforce
  moreover obtain status detail where v: "verdict fault = (status, detail)" by (cases "verdict fault")
  ultimately show ?thesis
    by (cases fault) (simp_all add: preview_plan_def Let_def ibind_def d r verdict_def split: prod.splits, (rule exI [of _ i], rule refl)+)
qed

text \<open>C39. With memory available a preview of a non-empty plan prints the whole line: for UTF-8 texts, whatever the policy
said, the output is Jansson's dump of the object with the status, the verb, the packages, the resource, the
SHA-256 of the plan's canonical bytes and one decoded object per record, in their order of hashing, and the exit
code is that of the status.\<close>

theorem preview_line_complete:
  assumes "\<forall>i. aorc w i" and "takes_utf8 (lb_jansson lib)"
    and "plan_size p \<noteq> 0" and "plan_ok p" and "length (plan_canon p) \<le> max_canon" and "hashed (lb_evp lib) (h, plan_canon p)"
    and "\<forall>s\<in>set ([fst (verdict fault), verb, resource] @ pkgs) \<union> set_option (snd (verdict fault)). utf8_valid (cstr s)"
    and "j_dumps (lb_jansson lib) (JObject
      (line_members (fst (verdict fault)) verb pkgs resource h (plan_view p) (snd (verdict fault)))) = Some t"
  shows "\<exists>k. preview_plan lib verb pkgs resource (plan_kind p) (plan_digest (lb_evp lib) p) fault w =
    (Some (status_exit (fst (verdict fault)), cstr t @ [CHR 0x0A]), w\<lparr>acnt := k\<rparr>)"
  by (rule line_complete [OF assms])

section \<open>A preview of a hold\<close>

definition preview_answers :: "reply list" where
  "preview_answers = [yes, yes, yes, yes, ex_found SelInstall]"

definition preview_world :: os where
  "preview_world = script preview_answers"

lemma ex_lib_jansson: "takes_utf8 (lb_jansson ex_lib)" "j_dumps (lb_jansson ex_lib) j = Some ''body''"
  "lb_evp ex_lib = ex_evp" "lb_evp ex_lib = pe_evp ex_benv"
  by (simp_all add: ex_lib_def ex_jn_def takes_utf8_def)

lemma ex_vim_resource:
  assumes "\<forall>i. A i"
  shows "\<exists>k. pkgx_resource [Some ''vim''] A n = (Inr ''vim'', k)"
proof -
  have "field_ok (Some ''vim'')" by code_simp
  then have "tcorrect (pkgx_resource [Some ''vim'']) (\<lambda>x. x = csv (map nz [Some ''vim'']))"
    by (intro tc_resource) (simp_all add: items_ok_def csv_def max_canon_def)
  then show ?thesis using assms by (auto simp: csv_def elim!: tcE [where A = A and k = n])
qed

lemma ex_line:
  "plan_size (ex_hold [''vim'']) \<noteq> 0" "plan_kind (ex_hold [''vim'']) = REC_HOLD" "plan_ok (ex_hold [''vim''])"
  "length (plan_canon (ex_hold [''vim''])) \<le> max_canon"
  "hashed (lb_evp ex_lib) (hex_of (replicate 32 27), plan_canon (ex_hold [''vim'']))"
  "\<forall>s\<in>set ([fst (verdict None), ''apt.hold'', ''vim''] @ [''vim'']) \<union> set_option (snd (verdict None)). utf8_valid (cstr s)"
proof -
  show "\<forall>s\<in>set ([fst (verdict None), ''apt.hold'', ''vim''] @ [''vim'']) \<union> set_option (snd (verdict None)). utf8_valid (cstr s)"
    by code_simp
qed (use ex_ready_broker(1) in \<open>simp_all add: ex_hold_def plan_admitted_def ex_lib_jansson(3)\<close>)

lemma ex_preview_plan:
  assumes "\<forall>i. aorc w i"
  shows "\<exists>k. preview_plan ex_lib ''apt.hold'' [''vim''] ''vim'' REC_HOLD (plan_digest ex_evp (ex_hold [''vim''])) None w =
    (Some (0, ''body'' @ [CHR 0x0A]), w\<lparr>acnt := k\<rparr>)"
  using line_complete [OF assms ex_lib_jansson(1) ex_line(1,3,4,5,6) ex_lib_jansson(2)] ex_line(2)
  by (simp add: verdict_def ex_lib_jansson(3) status_exit_def cstr_def)

lemma ex_print_plan:
  assumes "\<forall>i. aorc w i"
  shows "\<exists>k. print_plan out ''vim'' (plan_digest ex_evp (ex_hold [''vim''])) w =
    (Some (EXIT_OK, out @ plan_lines ''vim'' (hex_of (replicate 32 27))), w\<lparr>acnt := k\<rparr>)"
  using allocating_runs [OF plan_digest_total [OF ex_line(3,4,5)] assms]
  by (auto simp: print_plan_def ibind_def ireturn_def ex_lib_jansson(3))

lemma ex_hold_facts:
  "requested hold_request = [''vim'']" "\<forall>i. aorc preview_world i" "log preview_world = []" "answers preview_world = preview_answers"
  "owned_fault [''vim''] = None" "\<not> pkgx_is_rapt_owned ''vim''"
proof -
  show "owned_fault [''vim''] = None" "\<not> pkgx_is_rapt_owned ''vim''" by code_simp+
qed (simp_all add: requested_def hold_request_def preview_world_def script_def)

lemma ex_hold_digest:
  "pkgx_digest_hold ex_evp (Some ''apt.hold'')
     [hold_record_of \<lparr>hc_package = ''vim'', hc_from = ''install'', hc_to = ''hold'', hc_want_hold = True\<rparr>] =
   plan_digest ex_evp (ex_hold [''vim''])"
  by (simp add: ex_records [symmetric] ex_changes_def)

lemmas hold_map_run = pkgx_apt_map_hold_def apt_def apt_packages_def io_run ex_found_def yes_def ex_pkg_def selection_word_def
  Let_def ex_hold_facts ex_hold_digest ex_lib_jansson(3)

lemma ex_preview:
  "\<exists>w'. preview_run ex_lib ''apt.hold'' (requested hold_request) preview_world = (Some (0, ''body'' @ [CHR 0x0A]), w')"
proof -
  obtain v where v: "preview_run ex_lib ''apt.hold'' [''vim''] preview_world = preview_hold ex_lib ''apt.hold'' [''vim''] v"
    "answers v = [yes, ex_found SelInstall]" "\<forall>i. aorc v i"
  proof -
    have "\<exists>v. preview_run ex_lib ''apt.hold'' [''vim''] preview_world = preview_hold ex_lib ''apt.hold'' [''vim''] v \<and>
        answers v = [yes, ex_found SelInstall] \<and> (\<forall>i. aorc v i)"
      by (simp add: preview_run_def Let_def apt_def io_run ex_hold_facts preview_answers_def yes_def, intro exI conjI, rule refl,
          simp_all add: ex_hold_facts)
    with that show thesis by blast
  qed
  obtain k where k: "pkgx_resource [Some ''vim''] (aorc v) (acnt v) = (Inr ''vim'', k)"
    using ex_vim_resource [OF v(3)] by blast
  have "\<exists>u. preview_hold ex_lib ''apt.hold'' [''vim''] v =
      preview_plan ex_lib ''apt.hold'' [''vim''] ''vim'' REC_HOLD (plan_digest ex_evp (ex_hold [''vim''])) None u \<and> (\<forall>i. aorc u i)"
    unfolding preview_hold_def compute_resource_def
    by (simp add: k v hold_map_run, intro exI conjI, rule refl, simp_all add: v)
  then show ?thesis using ex_preview_plan by (auto simp: ex_hold_facts v(1)) metis
qed

lemma ex_plan_tool:
  "\<exists>w'. plan_run ex_lib ''apt.hold'' (requested hold_request) preview_world = (Some (EXIT_OK,
     resolved_line ''apt.hold'' 1 @ plan_lines ''vim'' (hex_of (replicate 32 27))), w')"
proof -
  have arity: "check_verb_arity ''apt.hold'' (Suc 0)" by code_simp
  obtain v where v: "plan_run ex_lib ''apt.hold'' [''vim''] preview_world = plan_hold ex_lib ''apt.hold'' [''vim''] v"
    "answers v = [yes, ex_found SelInstall]" "\<forall>i. aorc v i"
  proof -
    have "\<exists>v. plan_run ex_lib ''apt.hold'' [''vim''] preview_world = plan_hold ex_lib ''apt.hold'' [''vim''] v \<and>
        answers v = [yes, ex_found SelInstall] \<and> (\<forall>i. aorc v i)"
      by (simp add: plan_run_def arity apt_def io_run ex_hold_facts preview_answers_def yes_def, intro exI conjI, rule refl,
          simp_all add: ex_hold_facts)
    with that show thesis by blast
  qed
  obtain k where k: "pkgx_resource [Some ''vim''] (aorc v) (acnt v) = (Inr ''vim'', k)"
    using ex_vim_resource [OF v(3)] by blast
  have "\<exists>u. plan_hold ex_lib ''apt.hold'' [''vim''] v =
      print_plan (resolved_line ''apt.hold'' (Suc 0)) ''vim'' (plan_digest ex_evp (ex_hold [''vim''])) u \<and> (\<forall>i. aorc u i)"
    unfolding plan_hold_def resource_for_def
    by (simp add: k v hold_map_run, intro exI conjI, rule refl, simp_all add: v)
  then show ?thesis using ex_print_plan by (auto simp: ex_hold_facts v(1)) metis
qed

section \<open>Witnesses\<close>

theorem preview_agrees_witness:
  "\<exists>w' es p. preview_run ex_lib ''apt.hold'' (requested hold_request) preview_world = (Some (0, ''body'' @ [CHR 0x0A]), w') \<and>
    log w' = log preview_world @ es \<and> job_plan ex_benv (verb_job ''apt.hold'' hold_request) es p"
proof -
  obtain w' where run: "preview_run ex_lib ''apt.hold'' (requested hold_request) preview_world = (Some (0, ''body'' @ [CHR 0x0A]), w')"
    using ex_preview by blast
  from preview_agrees [OF run ex_lib_jansson(4) [symmetric]]
  obtain es status verb resource plan_hash detail where a: "log w' = log preview_world @ es"
    "says (lb_jansson ex_lib) status verb resource plan_hash detail (0, ''body'' @ [CHR 0x0A])"
    "status = ''no_op'' \<longrightarrow> (\<exists>p. job_plan ex_benv (verb_job ''apt.hold'' hold_request) es p \<and> plan_size p = 0)"
    "case plan_hash of None \<Rightarrow> status \<notin> set (''ok'' # REFUSALS)
     | Some h \<Rightarrow> \<exists>p. job_plan ex_benv (verb_job ''apt.hold'' hold_request) es p"
    by (fastforce split: option.splits)
  have "status = ''ok'' \<or> status = ''no_op''" using a(2) by (auto simp: says_def status_exit_def split: if_splits)
  then have "\<exists>p. job_plan ex_benv (verb_job ''apt.hold'' hold_request) es p"
    using a(3,4) by (auto split: option.splits)
  with run a(1) show ?thesis by blast
qed

theorem preview_records_roundtrip_witness:
  "\<exists>n'. decode_records (lb_jansson ex_lib) (plan_canon (ex_hold [''vim''])) REC_HOLD (\<lambda>_. True) 0 =
    (Inr (Some (plan_view (ex_hold [''vim'']))), n')"
proof -
  from ex_digest(3) obtain k' where "plan_digest ex_evp (ex_hold [''vim'']) (\<lambda>_. True) 0 =
     (Inr (hex_of (replicate 32 27), plan_canon (ex_hold [''vim''])), k')" by auto
  from preview_records_roundtrip [OF this _ ex_lib_jansson(1), of "\<lambda>_. True" 0] show ?thesis by (simp add: ex_hold_def)
qed

theorem plan_tool_agrees_witness:
  "\<exists>w' es p h. plan_run ex_lib ''apt.hold'' (requested hold_request) preview_world = (Some (EXIT_OK,
      resolved_line ''apt.hold'' 1 @ plan_lines ''vim'' (hex_of (replicate 32 27))), w') \<and>
    log w' = log preview_world @ es \<and> job_plan ex_benv (verb_job ''apt.hold'' hold_request) es p \<and> plan_admitted ex_benv p h"
proof -
  have arity: "check_verb_arity ''apt.hold'' (length (requested hold_request))" unfolding ex_hold_facts by code_simp
  obtain w' where run: "plan_run ex_lib ''apt.hold'' (requested hold_request) preview_world = (Some (EXIT_OK,
      resolved_line ''apt.hold'' 1 @ plan_lines ''vim'' (hex_of (replicate 32 27))), w')"
    using ex_plan_tool by blast
  from plan_tool_agrees [OF run ex_lib_jansson(4) [symmetric]] arity run show ?thesis by auto
qed

theorem preview_line_complete_witness:
  "\<exists>k. preview_plan ex_lib ''apt.hold'' [''vim''] ''vim'' REC_HOLD (plan_digest ex_evp (ex_hold [''vim''])) None (script []) =
    (Some (0, ''body'' @ [CHR 0x0A]), (script [])\<lparr>acnt := k\<rparr>)"
  using preview_line_complete [OF ex_ready(6) ex_lib_jansson(1) ex_line(1,3,4,5,6) ex_lib_jansson(2)] ex_line(2)
  by (simp add: verdict_def ex_lib_jansson(3) status_exit_def cstr_def)

end
