(* ===== verification/Secrets.thy ===== *)
theory Secrets
  imports Entry_Runs
begin

text \<open>
  The secrets of a helper: what came in on standard input, and the effect receipt of the request it made. Wherever a
  helper returns, they were wiped.
\<close>

section \<open>What is wiped, and when\<close>

lemma read_request_wipes:
  "tr (read_request lib verb environ) (\<lambda>r es. bytes_read 0 es = [] \<or> last es = Wipe (bytes_read 0 es)) (\<lambda>es. True)"
proof -
  note stdin = stdin_tr [of 0 "5 * 1000", folded pkgx_read_stdin_def]
  show ?thesis
    unfolding read_request_def
    by (intro tr_rules tr_mono [OF stdin]) (auto simp: stdin_result_def intro!: tr_rules)
qed

lemma run_job_log: "pe_tx env = pkgx_transport_tx t \<Longrightarrow> cstr (job_verb job) = job_verb job \<Longrightarrow>
    run_job env environ timeout job w = (Some x, w') \<Longrightarrow> \<exists>es. log w' = log w @ es"
  using tr_returns [OF job_trace] by blast

lemma perform_last:
  assumes verb: "cstr (job_verb job) = job_verb job" and run: "perform lib rfd uid req job s = (Some rc, w')"
  shows "\<exists>bs. log w' = log s @ bs @ [Wipe (effect_receipt req)]"
proof -
  have tx: "pe_tx (effect_env lib uid req) = pkgx_transport_tx broker_cfg" by (simp add: effect_env_def)
  from run obtain h t where h: "hygiene s = (Some h, t)"
    and p: "(case h of None \<Rightarrow> ibind (fail_result lib rfd (correlation_id req) ''hygiene'') (\<lambda>rc.
          ibind (release req) (\<lambda>_. ireturn rc))
      | Some environ \<Rightarrow>
          ibind (run_job (effect_env lib uid req) environ (c_int (lock_timeout req)) job) (\<lambda>(st, cid, issued, detail).
          ibind (pkgx_result_emit (lb_jansson lib) rfd st issued cid detail) (\<lambda>emitted.
          ibind (release req) (\<lambda>_. ireturn (if emitted \<noteq> 0 then 1 else exit_code st))))) t = (Some rc, w')"
    by (auto simp: perform_def ibind_Some)
  obtain hs where hs: "log t = log s @ hs" using tr_returns [OF hygiene_trace h] by blast
  have "\<exists>es (u :: os). log u = log t @ es \<and> log w' = log u @ [Wipe (effect_receipt req)]"
  proof (cases h)
    case None
    with p obtain rc' u where f: "fail_result lib rfd (correlation_id req) ''hygiene'' t = (Some rc', u)"
      and "log w' = log u @ [Wipe (effect_receipt req)]"
      by (auto simp: ibind_Some ireturn_Some dest!: release_log)
    moreover obtain es where "log u = log t @ es" using tr_returns [OF fail_trace f] by blast
    ultimately show ?thesis by blast
  next
    case (Some env)
    with p obtain st cid issued det u ec v where j: "run_job (effect_env lib uid req) env (c_int (lock_timeout req)) job t =
        (Some (st, cid, issued, det), u)" and e: "pkgx_result_emit (lb_jansson lib) rfd st issued cid det u = (Some ec, v)"
      and "log w' = log v @ [Wipe (effect_receipt req)]"
      by (auto simp: ibind_Some ireturn_Some dest!: release_log)
    moreover obtain js where "log u = log t @ js" using run_job_log [OF tx verb j] by blast
    moreover obtain bs where "log v = log u @ bs" using tr_returns [OF emission e] by blast
    ultimately show ?thesis by (intro exI [of _ "js @ bs"] exI [of _ v]) simp
  qed
  with hs show ?thesis by auto
qed

text \<open>C9. No secret outlives its use. Of a helper that returns and had a channel: all bytes read from standard input were wiped
before anything else was done, whether or not they made a request; without one it exits with 1 and
changes nothing; and once a request was accepted, whatever happens then, hygiene that fails and a record that
cannot be written included, the very last thing it does is to wipe the effect receipt.\<close>

theorem helper_wipes_secrets:
  assumes "cstr verb = verb" and "entrypoint_main lib family verb environ w = (Some rc, w')"
  shows "\<exists>rfd v. pkgx_result_channel_open w = (Some rfd, v) \<and> (rfd < 0 \<and> rc = 1 \<and> w' = v \<or>
    0 \<le> rfd \<and> (\<exists>r u rs bs. read_request lib verb environ v = (Some r, u) \<and> log u = log v @ rs \<and>
      (bytes_read 0 rs = [] \<or> last rs = Wipe (bytes_read 0 rs)) \<and> log w' = log u @ bs \<and>
      (case r of Inl det \<Rightarrow> rc = 1 \<and> calm bs | Inr (uid, req) \<Rightarrow> bs \<noteq> [] \<and> last bs = Wipe (effect_receipt req))))"
proof -
  from assms(2) obtain rfd v where c: "pkgx_result_channel_open w = (Some rfd, v)"
    and m: "(if rfd < 0 then ireturn 1 else ibind (read_request lib verb environ) (\<lambda>r. case r of
        Inl detail \<Rightarrow> fail_result lib rfd [] detail
      | Inr (uid, req) \<Rightarrow> perform lib rfd uid req (family_job family verb req))) v = (Some rc, w')"
    unfolding entrypoint_main_def helper_main_def ibind_Some by blast
  show ?thesis
  proof (cases "rfd < 0")
    case True
    with c m show ?thesis by (auto simp: ireturn_Some)
  next
    case False
    with m obtain r u where r: "read_request lib verb environ v = (Some r, u)"
      and n: "(case r of Inl detail \<Rightarrow> fail_result lib rfd [] detail
        | Inr (uid, req) \<Rightarrow> perform lib rfd uid req (family_job family verb req)) u = (Some rc, w')"
      by (auto simp: ibind_Some)
    obtain rs where rs: "log u = log v @ rs" "bytes_read 0 rs = [] \<or> last rs = Wipe (bytes_read 0 rs)"
      using tr_returns [OF read_request_wipes r] by blast
    have "\<exists>bs. log w' = log u @ bs \<and>
      (case r of Inl det \<Rightarrow> rc = 1 \<and> calm bs | Inr (uid, req) \<Rightarrow> bs \<noteq> [] \<and> last bs = Wipe (effect_receipt req))"
    proof (cases r)
      case (Inl det)
      have "tr (fail_result lib rfd [] det) (\<lambda>rc es. rc = 1 \<and> calm es) (\<lambda>es. True)"
        unfolding fail_result_def by (intro tr_rules tr_mono [OF emission]) auto
      from tr_returns [OF this] n show ?thesis by (auto simp: Inl)
    next
      case (Inr q)
      then show ?thesis
        using n perform_last [OF family_verb [OF assms(1)]] by (cases q) fastforce
    qed
    then obtain bs where "log w' = log u @ bs"
      "case r of Inl det \<Rightarrow> rc = 1 \<and> calm bs | Inr (uid, req) \<Rightarrow> bs \<noteq> [] \<and> last bs = Wipe (effect_receipt req)"
      by blast
    with r rs have "\<exists>r u rs bs. read_request lib verb environ v = (Some r, u) \<and> log u = log v @ rs \<and>
        (bytes_read 0 rs = [] \<or> last rs = Wipe (bytes_read 0 rs)) \<and> log w' = log u @ bs \<and>
        (case r of Inl det \<Rightarrow> rc = 1 \<and> calm bs | Inr (uid, req) \<Rightarrow> bs \<noteq> [] \<and> last bs = Wipe (effect_receipt req))"
      by blast
    with c False show ?thesis by (metis not_less)
  qed
qed

theorem helper_wipes_secrets_witness:
  "\<exists>w'. entrypoint_main ex_lib FAMILY_HOLD ''apt.hold'' main_environ main_world = (Some 0, w') \<and>
    (\<exists>req :: pkgx_request. last (log w') = Wipe (effect_receipt req))"
proof -
  obtain w' where run: "entrypoint_main ex_lib FAMILY_HOLD ''apt.hold'' main_environ main_world = (Some 0, w')"
    by (rule main_run)
  from helper_wipes_secrets [OF main_fresh(2) run] run show ?thesis
    by (fastforce split: sum.splits)
qed

end
