(* ===== verification/Protocol.thy ===== *)
theory Protocol
  imports Entry_Runs
begin

text \<open>
  The helper as an abstract machine. Its phases say which calls it may make; a change of phase is guarded by what has
  happened in the phase before: a request was read, the process is clean, the answers of
  libapt make the plan whose digest the broker is asked for, the broker redeemed it. The conversation with the broker is
  a run of the session machine of \<open>Session\<close>. The log of every helper is a run of the machine, and what the machine
  never does is shown by rule induction.
\<close>

section \<open>Phases\<close>

text \<open>Each phase keeps the events that its guard looks at.\<close>

datatype phase =
    Opening
  | Receiving "event list"
  | Cleaning int pkgx_request "event list"
  | Planning int pkgx_request "event list"
  | Asking int pkgx_request plan string conn "event list"
  | Acting int pkgx_request plan
  | Reporting

fun opening_call :: "call \<Rightarrow> bool" where
  "opening_call (Fd c) \<longleftrightarrow> (case c of Dup fd \<Rightarrow> fd = 1 | SetFlags fd fl \<Rightarrow> fl = 1 | Dup2 a b \<Rightarrow> a = 2 \<and> b = 1 | _ \<Rightarrow> False)"
| "opening_call c \<longleftrightarrow> False"

fun receiving_call :: "call \<Rightarrow> bool" where
  "receiving_call ClockGettime \<longleftrightarrow> True"
| "receiving_call (Poll fd ev ms) \<longleftrightarrow> fd = 0"
| "receiving_call (ReadFd fd n) \<longleftrightarrow> fd = 0"
| "receiving_call c \<longleftrightarrow> False"

fun cleaning_call :: "call \<Rightarrow> bool" where
  "cleaning_call (Proc c) \<longleftrightarrow> (case c of ClearEnv \<Rightarrow> True | SetEnv k v \<Rightarrow> True | _ \<Rightarrow> False)"
| "cleaning_call (Fd c) \<longleftrightarrow> (case c of Dup fd \<Rightarrow> False | Dup2 a b \<Rightarrow> b = 0 | _ \<Rightarrow> True)"
| "cleaning_call c \<longleftrightarrow> False"

fun planning_call :: "call \<Rightarrow> bool" where
  "planning_call (Apt c) \<longleftrightarrow> \<not> mutating_call (Apt c)"
| "planning_call c \<longleftrightarrow> False"

fun reporting_call :: "call \<Rightarrow> bool" where
  "reporting_call (WriteFd fd d) \<longleftrightarrow> True"
| "reporting_call (Sigpipe b) \<longleftrightarrow> True"
| "reporting_call c \<longleftrightarrow> False"

fun acting_call :: "call \<Rightarrow> bool" where
  "acting_call (Apt c) \<longleftrightarrow> True"
| "acting_call (Proc c) \<longleftrightarrow> \<not> cleaning_call (Proc c)"
| "acting_call c \<longleftrightarrow> reporting_call c"

fun fits :: "phase \<Rightarrow> call \<Rightarrow> bool" where
  "fits Opening = opening_call"
| "fits (Receiving rs) = receiving_call"
| "fits (Cleaning uid req hs) = cleaning_call"
| "fits (Planning uid req as) = planning_call"
| "fits (Asking uid req p body c ts) = (\<lambda>_. False)"
| "fits (Acting uid req p) = acting_call"
| "fits Reporting = reporting_call"

text \<open>The calls of a stretch of the log; notes are free.\<close>

fun makes :: "(call \<Rightarrow> bool) \<Rightarrow> event \<Rightarrow> bool" where
  "makes P (Sys c r) = P c"
| "makes P (Blocked c) = P c"
| "makes P e = True"

fun keep :: "event \<Rightarrow> phase \<Rightarrow> phase" where
  "keep e (Receiving rs) = Receiving (rs @ [e])"
| "keep e (Cleaning uid req hs) = Cleaning uid req (hs @ [e])"
| "keep e (Planning uid req as) = Planning uid req (as @ [e])"
| "keep e ph = ph"

fun asking :: "phase \<Rightarrow> bool" where
  "asking (Asking uid req p body c ts) = True"
| "asking ph = False"

section \<open>The machine\<close>

inductive helper_step :: "phase \<Rightarrow> event \<Rightarrow> phase \<Rightarrow> bool" where
  calls: "\<not> asking ph \<Longrightarrow> makes (fits ph) e \<Longrightarrow> helper_step ph e (keep e ph)"
| asks: "sess broker_cfg body c e = Some c' \<Longrightarrow>
    helper_step (Asking uid req p body c ts) e (Asking uid req p body c' (ts @ [e]))"
| forgets: "helper_step (Asking uid req p body c ts) (Wipe body) (Asking uid req p body c ts)"

inductive helper_turn :: "libraries \<Rightarrow> string \<Rightarrow> (pkgx_request \<Rightarrow> job) \<Rightarrow> string list \<Rightarrow> phase \<Rightarrow> phase \<Rightarrow> bool"
  for lib verb select environ where
  opened: "helper_turn lib verb select environ Opening (Receiving [])"
| received: "request_read lib verb environ uid req rs \<Longrightarrow>
    helper_turn lib verb select environ (Receiving rs) (Cleaning uid req [])"
| cleaned: "hygienic hs \<Longrightarrow> helper_turn lib verb select environ (Cleaning uid req hs) (Planning uid req [])"
| planned: "job_plan (effect_env lib uid req) (select req) as p \<Longrightarrow> plan_admitted (effect_env lib uid req) p hash \<Longrightarrow>
    j_dumps (lb_jansson lib) (request_json
      (binding_req (effect_env lib uid req) p (job_targets (select req)) (job_token (select req)) hash)) = Some body \<Longrightarrow>
    helper_turn lib verb select environ (Planning uid req as) (Asking uid req p body Idle [])"
| granted: "exchanged broker_cfg body resp ts \<Longrightarrow>
    redeemed_reply (j_loadb (lb_jansson lib) resp) (pe_expected_cid (effect_env lib uid req)) \<Longrightarrow> fd_of c = None \<Longrightarrow>
    helper_turn lib verb select environ (Asking uid req p body c ts) (Acting uid req p)"
| reports: "ph \<noteq> Opening \<Longrightarrow> helper_turn lib verb select environ ph Reporting"

inductive helper_run :: "libraries \<Rightarrow> string \<Rightarrow> (pkgx_request \<Rightarrow> job) \<Rightarrow> string list \<Rightarrow> phase \<Rightarrow> event list \<Rightarrow> phase \<Rightarrow> bool"
  for lib verb select environ where
  stop: "helper_run lib verb select environ ph [] ph"
| turn: "helper_turn lib verb select environ ph ph' \<Longrightarrow> helper_run lib verb select environ ph' es ph'' \<Longrightarrow>
    helper_run lib verb select environ ph es ph''"
| move: "helper_step ph e ph' \<Longrightarrow> helper_run lib verb select environ ph' es ph'' \<Longrightarrow>
    helper_run lib verb select environ ph (e # es) ph''"

lemma run_append:
  "helper_run lib verb select environ ph es ph' \<Longrightarrow> helper_run lib verb select environ ph' fs ph'' \<Longrightarrow>
   helper_run lib verb select environ ph (es @ fs) ph''"
  by (induction rule: helper_run.induct) (auto intro: helper_run.intros)

lemma run_phase:
  "list_all (makes (fits ph)) es \<Longrightarrow> \<not> asking ph \<Longrightarrow> helper_run lib verb select environ ph es (fold keep es ph)"
proof (induction es arbitrary: ph)
  case (Cons e es)
  have "fits (keep e ph) = fits ph" "asking (keep e ph) = asking ph" by (cases ph; simp)+
  with Cons show ?case by (auto intro: helper_run.move helper_step.calls)
qed (simp add: helper_run.stop)

lemma kept [simp]:
  "fold keep es (Receiving rs) = Receiving (rs @ es)"
  "fold keep es (Cleaning uid req rs) = Cleaning uid req (rs @ es)"
  "fold keep es (Planning uid req rs) = Planning uid req (rs @ es)"
  "fold keep es (Acting uid req p) = Acting uid req p"
  "fold keep es Opening = Opening" "fold keep es Reporting = Reporting"
  by (induction es arbitrary: rs) simp_all

lemma run_asking:
  "acc broker_cfg body c ts = Some c' \<Longrightarrow>
   helper_run lib verb select environ (Asking uid req p body c us) ts (Asking uid req p body c' (us @ ts))"
proof (induction ts arbitrary: c us)
  case (Cons e ts)
  then obtain d where "sess broker_cfg body c e = Some d" "acc broker_cfg body d ts = Some c'" by (auto split: option.splits)
  then show ?case using helper_run.move [OF helper_step.asks Cons.IH [of d "us @ [e]"]] by simp
qed (simp add: helper_run.stop)

section \<open>What the parts of the helper call\<close>

definition stays :: "(call \<Rightarrow> bool) \<Rightarrow> 'a io \<Rightarrow> bool" where
  "stays P m \<longleftrightarrow> tr m (\<lambda>x es. list_all (makes P) es) (list_all (makes P))"

lemma staysI: "tr m (\<lambda>x es. list_all (makes P) es) (list_all (makes P)) \<Longrightarrow> stays P m"
  by (simp add: stays_def)

lemma stays_tr: "stays P m \<Longrightarrow> (\<And>x es. list_all (makes P) es \<Longrightarrow> R x es) \<Longrightarrow> (\<And>es. list_all (makes P) es \<Longrightarrow> E es) \<Longrightarrow> tr m R E"
  unfolding stays_def by (erule tr_mono)

lemma stays_channel: "stays opening_call pkgx_result_channel_open"
  unfolding pkgx_result_channel_open_def Let_def by (rule staysI) (intro tr_rules; simp)

lemma stays_stdin: "stays receiving_call (pkgx_read_stdin 0)"
proof -
  have loop: "stays receiving_call (io_loop (stdin_round 0 dl start) s)" for dl start s
    unfolding stdin_round_def grow_stdin_def
    by (rule staysI, rule tr_loop [where I = "\<lambda>_. list_all (makes receiving_call)"]) (auto intro!: tr_rules split: prod.split)
  show ?thesis
    unfolding pkgx_read_stdin_def pkgx_read_stdin_deadline_def stdin_finish_def
    by (rule staysI) (intro tr_rules stays_tr [OF loop]; auto intro!: tr_rules)
qed

lemma stays_request: "stays receiving_call (read_request lib verb environ)"
  unfolding read_request_def by (rule staysI) (intro tr_rules stays_tr [OF stays_stdin]; simp)

lemma stays_set_all: "stays cleaning_call (set_all kvs env)"
proof (induction kvs arbitrary: env)
  case (Cons kv kvs)
  obtain k v where kv: "kv = (k, v)" by (cases kv)
  show ?case unfolding kv set_all.simps by (rule staysI) (intro tr_rules stays_tr [OF Cons.IH]; simp)
qed (auto intro!: staysI tr_return)

lemma stays_cloexec: "stays cleaning_call (io_loop (cloexec_round lowest d) rc)"
  unfolding cloexec_round_def set_cloexec_def Let_def
  by (rule staysI, rule tr_loop [where I = "\<lambda>_. list_all (makes cleaning_call)"]) (auto intro!: tr_rules)

lemma stays_hygiene: "stays cleaning_call hygiene"
  unfolding hygiene_def pkgx_scrub_env_def pkgx_null_stdin_def keep_stdin_def pkgx_cloexec_from_def Let_def
  by (rule staysI) (intro tr_rules stays_tr [OF stays_set_all] stays_tr [OF stays_cloexec]; simp)

lemma stays_targets: "stays planning_call (mark_targets removal purge ts)"
proof (induction ts)
  case (Cons t ts)
  show ?case unfolding mark_targets.simps by (rule staysI) (intro tr_rules stays_tr [OF Cons.IH]; simp)
qed (auto intro!: staysI tr_return)

lemma stays_map_hold: "stays planning_call (map_hold_targets hold ts changes)"
proof (induction ts arbitrary: hold changes)
  case (Cons t ts)
  show ?case
    unfolding map_hold_targets.simps Let_def
    by (rule staysI, intro tr_rules) (auto intro!: tr_rules stays_tr [OF Cons.IH] split: list.split)
qed (auto intro!: staysI tr_return)

lemma stays_early:
  "stays planning_call (check ok st d)" "stays planning_call (apt_start timeout)" "stays planning_call (open_cache dep)"
  "stays planning_call (txn_resolve verb targets)" "stays planning_call probe_lists"
  unfolding check_def apt_start_def pkgx_apt_init_def pkgx_apt_set_lock_timeout_def open_cache_def txn_resolve_def
    probe_lists_def Let_def
  by - (rule staysI, intro tr_rules stays_tr [OF stays_targets]; simp)+

lemma stays_and_then: "stays P m \<Longrightarrow> stays P n \<Longrightarrow> stays P (and_then m n)"
  unfolding and_then_def by (rule staysI, rule tr_bind, erule stays_tr) (auto intro!: tr_rules stays_tr)

lemma stays_push: "stays reporting_call (push fd buf)"
  unfolding push_def push_round_def
  by (rule staysI, rule tr_loop [where I = "\<lambda>_. list_all (makes reporting_call)"]) (auto intro!: tr_rules)

lemma stays_result: "stays reporting_call (pkgx_result_emit jn fd st issued cid det)"
  unfolding pkgx_result_emit_def emit_line_def
  by (rule staysI) (intro tr_rules tr_allocating stays_tr [OF stays_push]; auto intro!: tr_rules stays_tr [OF stays_push])

lemma makes_mono: "(\<And>c. P c \<Longrightarrow> Q c) \<Longrightarrow> makes P e \<Longrightarrow> makes Q e"
  by (cases e) auto

lemma stays_mono: "stays P m \<Longrightarrow> (\<And>c. P c \<Longrightarrow> Q c) \<Longrightarrow> stays Q m"
  by (rule staysI, erule stays_tr) (auto simp: list_all_iff intro: makes_mono [of P Q])

lemma reporting_acts: "reporting_call c \<Longrightarrow> acting_call c"
  by (cases c) auto

lemmas stays_push_acting = stays_mono [OF stays_push reporting_acts]

lemma stays_wait: "stays acting_call (io_loop (wait_child_round pid) u)"
  unfolding wait_child_round_def
  by (rule staysI, rule tr_loop [where I = "\<lambda>_. list_all (makes acting_call)"]) (auto intro!: tr_rules)

lemma stays_spawn: "stays acting_call (pkgx_spawn_wait_env environ argv input extra)"
  unfolding pkgx_spawn_wait_env_def open_pipe_def file_actions_def add_actions_def close_pipe_def
    run_child_def deliver_def wait_child_def
  by (rule staysI) (intro tr_rules tr_child_environment stays_tr [OF stays_push_acting] stays_tr [OF stays_wait]; simp)

lemma stays_selections: "stays acting_call (selections_of hs)"
proof (induction hs)
  case (Cons h hs)
  show ?case unfolding selections_of.simps Let_def by (rule staysI) (intro tr_rules stays_tr [OF Cons.IH]; simp)
qed (auto intro!: staysI tr_return)

lemma stays_ground_truth: "stays acting_call pkgx_apt_ground_truth_broken"
  unfolding pkgx_apt_ground_truth_broken_def scan_broken_def by (rule staysI) (intro tr_rules; simp)

lemma stays_finish:
  "stays acting_call (txn_finish cid)" "stays acting_call (update_finish cid)"
  "stays acting_call (hold_finish environ changes cid)" "stays acting_call (configure_finish environ cid)"
  unfolding txn_finish_def update_finish_def hold_finish_def configure_finish_def pkgx_effect_gate_def txn_commit_def
    txn_fetch_def txn_install_def update_commit_def indexes_readable_def find_dpkg_def hold_commit_def configure_commit_def
    dpkg_commit_def run_dpkg_def selections_match_def Let_def plan_result.case option.case
  by - (rule staysI, intro tr_rules stays_tr [OF stays_ground_truth] stays_tr [OF stays_spawn] stays_tr [OF stays_selections];
    simp)+

section \<open>The plan step\<close>

text \<open>A stretch of the log that the machine makes from a phase, and, for a part that has returned, the phase it
ends in is one that may report.\<close>

definition goes :: "libraries \<Rightarrow> string \<Rightarrow> (pkgx_request \<Rightarrow> job) \<Rightarrow> string list \<Rightarrow> phase \<Rightarrow> event list \<Rightarrow> bool" where
  "goes lib verb select environ ph es \<longleftrightarrow> (\<exists>ph'. helper_run lib verb select environ ph es ph' \<and> ph' \<noteq> Opening)"

lemma goesI: "helper_run lib verb select environ ph es ph' \<Longrightarrow> ph' \<noteq> Opening \<Longrightarrow> goes lib verb select environ ph es"
  unfolding goes_def by blast

lemma goes_after: "helper_run lib verb select environ ph es ph' \<Longrightarrow> goes lib verb select environ ph' fs \<Longrightarrow>
    goes lib verb select environ ph (es @ fs)"
  unfolding goes_def using run_append by blast

lemma goes_turn: "helper_turn lib verb select environ ph ph' \<Longrightarrow> goes lib verb select environ ph' es \<Longrightarrow>
    goes lib verb select environ ph es"
  unfolding goes_def using helper_run.turn by blast

lemma goes_stays: "list_all (makes (fits ph)) es \<Longrightarrow> \<not> asking ph \<Longrightarrow> ph \<noteq> Opening \<Longrightarrow> goes lib verb select environ ph es"
  by (rule goesI [OF run_phase], assumption, assumption) (cases ph; simp)

lemma session_runs:
  assumes "tx_events broker_cfg body ts"
  obtains c where "helper_run lib verb select environ (Asking uid req p body Idle []) ts (Asking uid req p body c ts)"
    "acc broker_cfg body Idle ts = Some c"
proof -
  obtain c where "acc broker_cfg body Idle ts = Some c" using assms by (auto simp: tx_events_def accepted_log_def)
  with that run_asking [OF this, of lib verb select environ uid req p "[]"] show thesis by simp
qed

lemma done_runs:
  assumes "tx_done broker_cfg body resp ts"
    and "redeemed_reply (j_loadb (lb_jansson lib) resp) (pe_expected_cid (effect_env lib uid req))"
  shows "helper_run lib verb select environ (Asking uid req p body Idle []) (ts @ [Wipe body]) (Acting uid req p)"
proof -
  obtain c where c: "acc broker_cfg body Idle ts = Some c" "fd_of c = None"
    using log_accepted [of broker_cfg body "Inr resp" ts] assms(1) by (auto simp: tx_done_def accepted_log_def)
  have "helper_run lib verb select environ (Asking uid req p body Idle []) ts (Asking uid req p body c ts)"
    using run_asking [OF c(1), of lib verb select environ uid req p "[]"] by simp
  moreover have "helper_run lib verb select environ (Asking uid req p body c ts) [Wipe body] (Acting uid req p)"
    by (rule helper_run.move [OF helper_step.forgets],
        rule helper_run.turn [OF helper_turn.granted [OF tx_exchanged [OF assms(1)] assms(2) c(2)] helper_run.stop])
  ultimately show ?thesis by (rule run_append)
qed

text \<open>The plan step, from a planning phase whose answers make the plan.\<close>

definition step_goes :: "libraries \<Rightarrow> string \<Rightarrow> (pkgx_request \<Rightarrow> job) \<Rightarrow> string list \<Rightarrow> int \<Rightarrow> pkgx_request \<Rightarrow> event list \<Rightarrow> plan \<Rightarrow>
    plan_outcome \<Rightarrow> event list \<Rightarrow> bool" where
  "step_goes lib verb select environ uid req as p = (\<lambda>(r, cid, det) es. goes lib verb select environ (Planning uid req as) es \<and>
     (r = PLAN_OK \<longrightarrow> helper_run lib verb select environ (Planning uid req as) es (Acting uid req p)))"

lemma tail_goes:
  assumes plan: "job_plan (effect_env lib uid req) (select req) as p" and adm: "plan_admitted (effect_env lib uid req) p hash"
  shows "tr (redeem_tail (effect_env lib uid req) (plan_verb p)
      (plan_resource p (job_targets (select req)) (job_token (select req))) hash oc)
    (step_goes lib verb select environ uid req as p) (goes lib verb select environ (Planning uid req as))"
proof -
  let ?env = "effect_env lib uid req"
  define breq where "breq = binding_req ?env p (job_targets (select req)) (job_token (select req)) hash"
  have tx: "pe_tx ?env = pkgx_transport_tx broker_cfg" and jn: "pe_jansson ?env = lb_jansson lib"
    by (simp_all add: effect_env_def)
  have ask: "helper_turn lib verb select environ (Planning uid req as) (Asking uid req p body Idle [])"
    if "j_dumps (pe_jansson ?env) (request_json breq) = Some body" for body
    by (rule helper_turn.planned [where select = select, OF plan adm]) (use that jn in \<open>simp add: breq_def\<close>)
  have cut: "goes lib verb select environ (Planning uid req as) ts"
    if b: "j_dumps (pe_jansson ?env) (request_json breq) = Some body" and t: "tx_events broker_cfg body ts" for body ts
  proof -
    obtain c where "helper_run lib verb select environ (Asking uid req p body Idle []) ts (Asking uid req p body c ts)"
      by (rule session_runs [OF t])
    then show ?thesis by (rule goes_turn [OF ask [OF b] goesI]) simp
  qed
  have stopped: "goes lib verb select environ (Planning uid req as) (ts @ [Wipe body])"
    if b: "j_dumps (pe_jansson ?env) (request_json breq) = Some body" and t: "tx_events broker_cfg body ts" for body ts
  proof -
    obtain c where "helper_run lib verb select environ (Asking uid req p body Idle []) ts (Asking uid req p body c ts)"
      by (rule session_runs [OF t])
    moreover have "helper_run lib verb select environ (Asking uid req p body c ts) [Wipe body] (Asking uid req p body c ts)"
      by (rule helper_run.move [OF helper_step.forgets helper_run.stop])
    ultimately show ?thesis by (rule goes_turn [OF ask [OF b] goesI [OF run_append]]) simp
  qed
  have granted: "helper_run lib verb select environ (Planning uid req as) (ts @ [Wipe body]) (Acting uid req p)"
    if "j_dumps (pe_jansson ?env) (request_json breq) = Some body" "tx_done broker_cfg body r ts"
      "redeemed_reply (j_loadb (pe_jansson ?env) r) (pe_expected_cid ?env)" for body ts r
    by (rule helper_run.turn [OF ask [OF that(1)] done_runs [OF that(2)]]) (use that(3) jn in simp)
  have none: "goes lib verb select environ (Planning uid req as) []"
    by (rule goesI [OF helper_run.stop]) simp
  have trace: "tr (pkgx_redeem (pe_jansson ?env) breq (pe_expected_cid ?env) (pkgx_transport_tx broker_cfg) oc)
      (\<lambda>x es. goes lib verb select environ (Planning uid req as) es \<and>
        (fst x = REDEEM_OK \<longrightarrow> helper_run lib verb select environ (Planning uid req as) es (Acting uid req p)))
      (goes lib verb select environ (Planning uid req as))"
    by (rule tr_mono [OF broker.redeem_trace])
       (use none stopped granted cut in \<open>fastforce simp: broker.redeem_events_def broker.redeem_unfinished_def split: prod.splits\<close>)+
  show ?thesis
    unfolding redeem_tail_def tx binding_req_def [symmetric] breq_def [symmetric]
    by (rule tr_bind, rule tr_mono [OF trace]) (auto simp: step_goes_def intro!: tr_rules)
qed

lemma step_goes:
  assumes plan: "job_plan (effect_env lib uid req) (select req) as p"
  shows "tr (plan_step (effect_env lib uid req) p (job_targets (select req)) (job_token (select req)) oc)
    (step_goes lib verb select environ uid req as p) (goes lib verb select environ (Planning uid req as))"
proof (rule tr_I)
  let ?env = "effect_env lib uid req" and ?ts = "job_targets (select req)" and ?tok = "job_token (select req)"
  fix w
  show "wp (plan_step ?env p ?ts ?tok oc)
      (\<lambda>x w'. \<exists>es. later w es w' \<and> step_goes lib verb select environ uid req as p x es)
      (\<lambda>w'. \<exists>es. later w es w' \<and> goes lib verb select environ (Planning uid req as) es) w"
    using plan_step_cases [of ?env p ?ts ?tok oc w]
  proof
    assume "plan_stopped (plan_step ?env p ?ts ?tok oc w) oc w"
    then obtain k r det where s: "plan_step ?env p ?ts ?tok oc w = (Some (r, oc, det), w\<lparr>acnt := k\<rparr>)" "r \<noteq> PLAN_OK"
      by (auto simp: plan_stopped_def)
    have "later w [] (w\<lparr>acnt := k\<rparr>)" by (simp add: later_def)
    with s show ?thesis
      by (auto simp: wp_def step_goes_def intro!: exI [of _ "[]"] goesI [OF helper_run.stop])
  next
    assume "plan_redeems (plan_step ?env p ?ts ?tok oc w) ?env p ?ts ?tok oc w"
    then obtain k hash where r: "plan_admitted ?env p hash" "plan_step ?env p ?ts ?tok oc w =
        redeem_tail ?env (plan_verb p) (plan_resource p ?ts ?tok) hash oc (w\<lparr>acnt := k\<rparr>)"
      by (auto simp: plan_redeems_def)
    from tr_D [OF tail_goes [where select = select and verb = verb and environ = environ and oc = oc, OF plan r(1)],
        where w = "w\<lparr>acnt := k\<rparr>"]
    show ?thesis by (simp add: wp_def r(2))
  qed
qed

lemma settle_goes:
  assumes plan: "job_plan (effect_env lib uid req) (select req) as p" and fin: "\<And>cid. stays acting_call (finish cid)"
    and t: "targets = job_targets (select req)" "token = job_token (select req)"
  shows "tr (ibind (plan_step (effect_env lib uid req) p targets token oc) (\<lambda>q. settle q finish))
    (\<lambda>x es. goes lib verb select environ (Planning uid req as) es) (goes lib verb select environ (Planning uid req as))"
  unfolding t
proof (rule tr_bind_seq [OF step_goes [where select = select, OF plan]])
  fix q and bs assume q: "step_goes lib verb select environ uid req as p q bs"
  obtain r cid det where r: "q = (r, cid, det)" by (cases q)
  show "tr (settle q finish) (\<lambda>x cs. goes lib verb select environ (Planning uid req as) (bs @ cs))
      (\<lambda>cs. goes lib verb select environ (Planning uid req as) (bs @ cs))"
  proof (cases "r = PLAN_OK")
    case True
    with q r have "helper_run lib verb select environ (Planning uid req as) bs (Acting uid req p)"
      by (simp add: step_goes_def)
    then have "goes lib verb select environ (Planning uid req as) (bs @ cs)" if "list_all (makes acting_call) cs" for cs
      by (rule goes_after) (rule goes_stays, use that in simp_all)
    then show ?thesis
      by (simp add: r True settle_def refusal_status_def, intro stays_tr [OF fin])
  next
    case False
    have "\<exists>x. settle q finish = ireturn x"
      using False by (cases r) (simp_all add: r settle_def refusal_status_def del: split_paired_Ex, blast+)
    then show ?thesis using q r by (auto simp: step_goes_def intro!: tr_return)
  qed
qed

section \<open>The effectors\<close>

text \<open>A preparation, and what follows it in the planning phase.\<close>

lemma planning_bind:
  assumes m: "tr m (\<lambda>x es. list_all (makes planning_call) es \<and> Q x es) (list_all (makes planning_call))"
    and f: "\<And>x bs. list_all (makes planning_call) bs \<Longrightarrow> Q x bs \<Longrightarrow>
      tr (f x) (\<lambda>y es. goes lib verb select environ (Planning uid req (as @ bs)) es)
        (goes lib verb select environ (Planning uid req (as @ bs)))"
  shows "tr (ibind m f) (\<lambda>y es. goes lib verb select environ (Planning uid req as) es)
    (goes lib verb select environ (Planning uid req as))"
proof (rule tr_bind_seq [OF tr_mono [OF m]])
  fix x bs assume b: "list_all (makes planning_call) bs \<and> Q x bs"
  then have "helper_run lib verb select environ (Planning uid req as) bs (Planning uid req (as @ bs))"
    using run_phase [of "Planning uid req as" bs] by simp
  from goes_after [OF this] b
  show "tr (f x) (\<lambda>y es. goes lib verb select environ (Planning uid req as) (bs @ es))
      (\<lambda>es. goes lib verb select environ (Planning uid req as) (bs @ es))"
    by (intro tr_mono [OF f]) auto
qed (auto intro: goes_stays)

lemma goes_nothing: "ph \<noteq> Opening \<Longrightarrow> tr (ireturn x) (\<lambda>y es. goes lib verb select environ ph es) (goes lib verb select environ ph)"
  by (rule tr_return) (rule goesI [OF helper_run.stop])

lemma prepared_goes:
  assumes "stays planning_call m"
    and "\<And>bs. tr body (\<lambda>y es. goes lib verb select environ (Planning uid req (as @ bs)) es)
      (goes lib verb select environ (Planning uid req (as @ bs)))"
  shows "tr (prepared_for m cid body) (\<lambda>y es. goes lib verb select environ (Planning uid req as) es)
    (goes lib verb select environ (Planning uid req as))"
  unfolding prepared_for_def
proof (rule planning_bind [where Q = "\<lambda>x es. True"])
  fix x :: early and bs
  show "tr (case x of Some (st, d) \<Rightarrow> ireturn (st, cid, False, pkgx_detail_set (Some d)) | None \<Rightarrow> body)
      (\<lambda>y es. goes lib verb select environ (Planning uid req (as @ bs)) es)
      (goes lib verb select environ (Planning uid req (as @ bs)))"
    by (intro tr_rules assms(2) goes_nothing [unfolded tr_def, folded tr_def]) (auto intro: goesI [OF helper_run.stop])
qed (rule assms(1) [unfolded stays_def, THEN tr_mono]; simp)

lemma txn_goes:
  assumes job: "select req = TxnJob v targets" and v: "cstr v = v"
  shows "tr (pkgx_apt_txn_effect (effect_env lib uid req) v targets timeout)
    (\<lambda>y es. goes lib verb select environ (Planning uid req []) es) (goes lib verb select environ (Planning uid req []))"
  unfolding pkgx_apt_txn_effect_def Let_def txn_open_def
proof (rule prepared_goes)
  fix cid and bs :: "event list"
  show "tr (txn_plan_and_commit (effect_env lib uid req) v targets cid)
      (\<lambda>y es. goes lib verb select environ (Planning uid req ([] @ bs)) es) (goes lib verb select environ (Planning uid req ([] @ bs)))"
    unfolding txn_plan_and_commit_def
  proof (rule planning_bind [where Q = "\<lambda>ps es. \<exists>r. es = [Sys (Apt ReadCache) r] \<and> ps = r_pkgs r"])
    fix ps cs assume "\<exists>r. cs = [Sys (Apt ReadCache) r] \<and> ps = r_pkgs r"
    then have "job_plan (effect_env lib uid req) (select req) (([] @ bs) @ cs) (Txn (Some v) (pkgx_apt_map_txn ps))"
      by (auto simp: job)
    from settle_goes [where select = select and verb = verb and environ = environ and oc = cid, OF this stays_finish(1) refl refl]
    show "tr (ibind (pkgx_plan_and_redeem (effect_env lib uid req) v (pkgx_apt_map_txn ps) (map Some targets) cid)
          (\<lambda>p. settle p txn_finish))
        (\<lambda>y es. goes lib verb select environ (Planning uid req (([] @ bs) @ cs)) es)
        (goes lib verb select environ (Planning uid req (([] @ bs) @ cs)))"
      by (simp add: job v)
  qed (intro tr_rules; auto)
qed (intro stays_and_then stays_early)

lemma update_goes:
  assumes job: "select req = UpdateJob token"
  shows "tr (pkgx_apt_update_effect (effect_env lib uid req) token timeout)
    (\<lambda>y es. goes lib verb select environ (Planning uid req []) es) (goes lib verb select environ (Planning uid req []))"
  unfolding pkgx_apt_update_effect_def Let_def update_open_def
proof (rule prepared_goes)
  fix cid and bs :: "event list"
  let ?env = "effect_env lib uid req"
  show "tr (update_plan_and_commit ?env token cid)
      (\<lambda>y es. goes lib verb select environ (Planning uid req ([] @ bs)) es) (goes lib verb select environ (Planning uid req ([] @ bs)))"
    unfolding update_plan_and_commit_def
  proof (rule planning_bind [where Q = "\<lambda>r es. es = [Sys (Apt ReadMainList) r]"], goal_cases)
    case (2 r cs)
    show ?case
    proof (rule tr_if, rule goes_nothing, simp, rule planning_bind [where Q = "\<lambda>u es. True"], goal_cases)
      case (2 u ds)
      have "job_plan ?env (select req) ((([] @ bs) @ cs) @ ds) (Upd (pkgx_apt_map_sources (pe_evp ?env) (r_sources r)))"
        using \<open>cs = _\<close> by (auto simp: job)
      from settle_goes [where select = select and verb = verb and environ = environ and oc = cid, OF this stays_finish(2) refl refl]
      show ?case by (simp add: job)
    qed (intro tr_rules; auto)
  qed (intro tr_rules; auto)
qed (intro stays_and_then stays_early)

lemma hold_goes:
  assumes job: "select req = HoldJob v targets" and v: "cstr v = v"
  shows "tr (pkgx_apt_hold_effect (effect_env lib uid req) env' v targets timeout)
    (\<lambda>y es. goes lib verb select environ (Planning uid req []) es) (goes lib verb select environ (Planning uid req []))"
  unfolding pkgx_apt_hold_effect_def Let_def
proof (rule prepared_goes)
  fix cid and bs :: "event list"
  let ?env = "effect_env lib uid req"
  show "tr (hold_plan_and_commit ?env env' v targets cid)
      (\<lambda>y es. goes lib verb select environ (Planning uid req ([] @ bs)) es) (goes lib verb select environ (Planning uid req ([] @ bs)))"
    unfolding hold_plan_and_commit_def pkgx_apt_map_hold_def
  proof (rule planning_bind, rule tr_mono [OF tr_both [OF stays_map_hold [unfolded stays_def] map_hold_trace]], assumption,
      blast)
    fix m cs
    assume m: "calm cs \<and> (\<forall>hs. m = HOLD_MAP_OK hs \<longrightarrow>
      map fst (lookups cs) = targets \<and> hs = [] @ changes_of (v = ''apt.hold'') (lookups cs))"
    show "tr (case m of
          HOLD_MAP_OK changes \<Rightarrow> ibind (pkgx_plan_and_redeem_hold ?env v (map hold_record_of changes) (map Some targets) cid)
            (\<lambda>p. settle p (hold_finish env' changes))
        | HOLD_MAP_UNKNOWN t \<Rightarrow> ireturn (APT_RESOLVE_FAILED, cid, False, pkgx_detail_set (Some t))
        | HOLD_MAP_INVALID t \<Rightarrow> ireturn (APT_RESOLVE_FAILED, cid, False, pkgx_detail_set (Some t)))
        (\<lambda>y es. goes lib verb select environ (Planning uid req (([] @ bs) @ cs)) es)
        (goes lib verb select environ (Planning uid req (([] @ bs) @ cs)))"
    proof (cases m)
      case (HOLD_MAP_OK changes)
      have "job_plan ?env (select req) (([] @ bs) @ cs) (Hold (Some v) (map hold_record_of changes))"
        using m HOLD_MAP_OK by (auto simp: job)
      from settle_goes [where select = select and verb = verb and environ = environ and oc = cid, OF this stays_finish(3) refl refl]
      show ?thesis by (simp add: job HOLD_MAP_OK v)
    qed (auto intro: goes_nothing)
  qed
qed (intro stays_and_then stays_early)

lemma configure_goes:
  assumes job: "select req = ConfigureJob"
  shows "tr (pkgx_apt_configure_effect (effect_env lib uid req) env' timeout)
    (\<lambda>y es. goes lib verb select environ (Planning uid req []) es) (goes lib verb select environ (Planning uid req []))"
  unfolding pkgx_apt_configure_effect_def Let_def
proof (rule prepared_goes)
  fix cid and bs :: "event list"
  let ?env = "effect_env lib uid req"
  show "tr (configure_plan_and_commit ?env env' cid)
      (\<lambda>y es. goes lib verb select environ (Planning uid req ([] @ bs)) es) (goes lib verb select environ (Planning uid req ([] @ bs)))"
    unfolding configure_plan_and_commit_def
  proof (rule planning_bind [where Q = "\<lambda>ps es. \<exists>r. es = [Sys (Apt ReadCache) r] \<and> ps = r_pkgs r"], goal_cases)
    case (2 ps cs)
    show ?case
    proof (rule tr_sum, rule goes_nothing, simp)
      fix cfgs assume "pkgx_apt_map_configure ps = Inr cfgs"
      with 2 have "job_plan ?env (select req) (([] @ bs) @ cs) (Cfg cfgs)" by (auto simp: job)
      from settle_goes [where select = select and verb = verb and environ = environ and oc = cid, OF this stays_finish(4) refl refl]
      show "tr (ibind (pkgx_plan_and_redeem_configure ?env cfgs cid) (\<lambda>p. settle p (configure_finish env')))
          (\<lambda>y es. goes lib verb select environ (Planning uid req (([] @ bs) @ cs)) es)
          (goes lib verb select environ (Planning uid req (([] @ bs) @ cs)))"
        by (simp add: job)
    qed
  qed (intro tr_rules; auto)
qed (intro stays_and_then stays_early)

lemma job_goes:
  assumes "cstr (job_verb (select req)) = job_verb (select req)"
  shows "tr (run_job (effect_env lib uid req) env' timeout (select req))
    (\<lambda>y es. goes lib verb select environ (Planning uid req []) es) (goes lib verb select environ (Planning uid req []))"
  using assms txn_goes [where select = select] update_goes [where select = select] hold_goes [where select = select]
    configure_goes [where select = select] by (cases "select req") simp_all

section \<open>The whole helper\<close>

definition reaches :: "libraries \<Rightarrow> string \<Rightarrow> (pkgx_request \<Rightarrow> job) \<Rightarrow> string list \<Rightarrow> phase \<Rightarrow> event list \<Rightarrow> bool" where
  "reaches lib verb select environ ph es \<longleftrightarrow> (\<exists>ph'. helper_run lib verb select environ ph es ph')"

lemma reachesI: "helper_run lib verb select environ ph es ph' \<Longrightarrow> reaches lib verb select environ ph es"
  unfolding reaches_def by blast

lemma reaches_after: "helper_run lib verb select environ ph es ph' \<Longrightarrow> reaches lib verb select environ ph' fs \<Longrightarrow>
    reaches lib verb select environ ph (es @ fs)"
  unfolding reaches_def using run_append by blast

lemma reaches_turn: "helper_turn lib verb select environ ph ph' \<Longrightarrow> reaches lib verb select environ ph' es \<Longrightarrow>
    reaches lib verb select environ ph es"
  unfolding reaches_def using helper_run.turn by blast

lemma reaches_phase: "list_all (makes (fits ph)) es \<Longrightarrow> \<not> asking ph \<Longrightarrow> reaches lib verb select environ ph es"
  by (rule reachesI [OF run_phase])

lemma goes_reaches: "goes lib verb select environ ph es \<Longrightarrow> reaches lib verb select environ ph es"
  unfolding goes_def reaches_def by blast

text \<open>A report may follow in any phase but the first.\<close>

lemma goes_reports: "goes lib verb select environ ph es \<Longrightarrow> list_all (makes reporting_call) fs \<Longrightarrow>
    reaches lib verb select environ ph (es @ fs)"
  unfolding goes_def
  by (elim exE conjE) (rule reaches_after, assumption, rule reaches_turn [OF helper_turn.reports], assumption, rule reaches_phase; simp)

lemma stays_report:
  "stays reporting_call (ibind (pkgx_result_emit jn rfd st issued cid det) (\<lambda>ec. ibind (release req) (\<lambda>u. ireturn (f ec))))"
  "stays reporting_call (ibind (fail_result lib rfd cid det) (\<lambda>rc. ibind (release req) (\<lambda>u. ireturn rc)))"
  "stays reporting_call (fail_result lib rfd cid det)"
  unfolding release_def fail_result_def by - (rule staysI, intro tr_rules stays_tr [OF stays_result]; simp)+

lemma perform_reaches:
  assumes verb: "cstr (job_verb (select req)) = job_verb (select req)"
  shows "tr (perform lib rfd uid req (select req)) (\<lambda>rc es. reaches lib verb select environ (Cleaning uid req []) es)
    (reaches lib verb select environ (Cleaning uid req []))"
  unfolding perform_def
proof (rule tr_bind_seq [OF tr_mono [OF tr_both [OF hygiene_trace stays_hygiene [unfolded stays_def]]]], assumption)
  fix h hs assume h: "(calm hs \<and> (h \<noteq> None \<longrightarrow> h = Some safe_environ \<and> hygienic hs)) \<and> list_all (makes cleaning_call) hs"
  have clean: "helper_run lib verb select environ (Cleaning uid req []) hs (Cleaning uid req hs)"
    using run_phase [of "Cleaning uid req []" hs] h by simp
  let ?R = "reaches lib verb select environ (Cleaning uid req [])"
  show "tr (case h of None \<Rightarrow> ibind (fail_result lib rfd (correlation_id req) ''hygiene'') (\<lambda>rc.
        ibind (release req) (\<lambda>u. ireturn rc))
      | Some env \<Rightarrow> ibind (run_job (effect_env lib uid req) env (c_int (lock_timeout req)) (select req)) (\<lambda>(st, cid, issued, detail).
          ibind (pkgx_result_emit (lb_jansson lib) rfd st issued cid detail) (\<lambda>emitted.
          ibind (release req) (\<lambda>u. ireturn (if emitted \<noteq> 0 then 1 else exit_code st)))))
      (\<lambda>rc es. ?R (hs @ es)) (\<lambda>es. ?R (hs @ es))"
  proof (rule tr_option)
    have "?R (hs @ es)" if "list_all (makes reporting_call) es" for es
      by (rule goes_reports [OF goesI [OF clean] that]) simp
    then show "tr (ibind (fail_result lib rfd (correlation_id req) ''hygiene'') (\<lambda>rc. ibind (release req) (\<lambda>u. ireturn rc)))
        (\<lambda>rc es. ?R (hs @ es)) (\<lambda>es. ?R (hs @ es))"
      by (intro stays_tr [OF stays_report(2)])
  next
    fix env assume "h = Some env"
    with h have "hygienic hs" by simp
    then have plan: "helper_run lib verb select environ (Cleaning uid req []) hs (Planning uid req [])"
      using run_append [OF clean helper_run.turn [OF helper_turn.cleaned helper_run.stop]] by simp
    show "tr (ibind (run_job (effect_env lib uid req) env (c_int (lock_timeout req)) (select req)) (\<lambda>(st, cid, issued, detail).
          ibind (pkgx_result_emit (lb_jansson lib) rfd st issued cid detail) (\<lambda>emitted.
          ibind (release req) (\<lambda>u. ireturn (if emitted \<noteq> 0 then 1 else exit_code st)))))
        (\<lambda>rc es. ?R (hs @ es)) (\<lambda>es. ?R (hs @ es))"
    proof (rule tr_bind_seq [OF tr_mono [OF job_goes [where select = select and verb = verb and environ = environ, OF verb]]],
        assumption)
      fix x :: effect_outcome and js assume j: "goes lib verb select environ (Planning uid req []) js"
      have "?R (hs @ js @ es)" if "list_all (makes reporting_call) es" for es
        by (rule reaches_after [OF plan goes_reports [OF j that]])
      then show "tr (case x of (st, cid, issued, detail) \<Rightarrow>
            ibind (pkgx_result_emit (lb_jansson lib) rfd st issued cid detail) (\<lambda>emitted.
            ibind (release req) (\<lambda>u. ireturn (if emitted \<noteq> 0 then 1 else exit_code st))))
          (\<lambda>rc es. ?R (hs @ js @ es)) (\<lambda>es. ?R (hs @ js @ es))"
        by (intro tr_prod stays_tr [OF stays_report(1)])
    qed (use reaches_after [OF plan goes_reaches] in blast)
  qed
qed (auto intro: reaches_phase)

lemma main_reaches:
  assumes verb: "\<And>req. cstr (job_verb (select req)) = job_verb (select req)"
  shows "tr (helper_main lib verb select environ) (\<lambda>rc es. reaches lib verb select environ Opening es)
    (reaches lib verb select environ Opening)"
  unfolding helper_main_def
proof (rule tr_bind_seq [OF stays_tr [OF stays_channel]], assumption)
  fix rfd ch assume ch: "list_all (makes opening_call) ch"
  have "helper_run lib verb select environ Opening ch Opening" using run_phase [of Opening ch] ch by simp
  from run_append [OF this helper_run.turn [OF helper_turn.opened helper_run.stop]]
  have opened: "helper_run lib verb select environ Opening ch (Receiving [])" by simp
  let ?R = "reaches lib verb select environ Opening"
  show "tr (if rfd < 0 then ireturn 1 else ibind (read_request lib verb environ) (\<lambda>r. case r of
        Inl detail \<Rightarrow> fail_result lib rfd [] detail
      | Inr (uid, req) \<Rightarrow> perform lib rfd uid req (select req)))
      (\<lambda>rc es. ?R (ch @ es)) (\<lambda>es. ?R (ch @ es))"
  proof (rule tr_if)
    show "tr (ireturn 1) (\<lambda>rc es. ?R (ch @ es)) (\<lambda>es. ?R (ch @ es))"
      by (rule tr_return) (use opened in \<open>auto intro: reachesI\<close>)
    show "tr (ibind (read_request lib verb environ) (\<lambda>r. case r of
          Inl detail \<Rightarrow> fail_result lib rfd [] detail
        | Inr (uid, req) \<Rightarrow> perform lib rfd uid req (select req)))
        (\<lambda>rc es. ?R (ch @ es)) (\<lambda>es. ?R (ch @ es))"
    proof (rule tr_bind_seq [OF tr_mono [OF tr_both [OF read_request_trace stays_request [unfolded stays_def]]]], assumption)
      fix r :: "string + int \<times> pkgx_request" and rs
      assume r: "(calm rs \<and> (\<forall>uid req. r = Inr (uid, req) \<longrightarrow> request_read lib verb environ uid req rs)) \<and>
        list_all (makes receiving_call) rs"
      have got: "helper_run lib verb select environ Opening (ch @ rs) (Receiving rs)"
        using run_append [OF opened run_phase [of "Receiving []" rs]] r by simp
      have "?R ((ch @ rs) @ es)" if "list_all (makes reporting_call) es" for es
        by (rule goes_reports [OF goesI [OF got] that]) simp
      moreover have "?R ((ch @ rs) @ es)" if "r = Inr (uid, req)" "reaches lib verb select environ (Cleaning uid req []) es"
        for uid req es
        by (rule reaches_after [OF got reaches_turn [OF helper_turn.received that(2)]]) (use r that(1) in blast)
      ultimately show "tr (case r of Inl detail \<Rightarrow> fail_result lib rfd [] detail
          | Inr (uid, req) \<Rightarrow> perform lib rfd uid req (select req))
          (\<lambda>rc es. ?R (ch @ rs @ es)) (\<lambda>es. ?R (ch @ rs @ es))"
        by (intro tr_sum tr_prod stays_tr [OF stays_report(3)] tr_mono [OF perform_reaches [where verb = verb and environ = environ, OF verb]]) auto
    qed (use reaches_after [OF opened reaches_phase [of "Receiving []"]] in simp)
  qed
qed (auto intro: reaches_phase)

section \<open>What the machine never does\<close>

inductive_cases turn_of_acting: "helper_turn lib verb select environ (Acting uid req p) ph"
inductive_cases turn_of_reporting: "helper_turn lib verb select environ Reporting ph"

text \<open>Calls to the broker.\<close>

fun broker_call :: "call \<Rightarrow> bool" where
  "broker_call SocketUnix \<longleftrightarrow> True"
| "broker_call (ConnectUnix fd path) \<longleftrightarrow> True"
| "broker_call (GetPeerCred fd) \<longleftrightarrow> True"
| "broker_call (SendFd fd d) \<longleftrightarrow> True"
| "broker_call c \<longleftrightarrow> False"

fun asks_broker :: "event \<Rightarrow> bool" where
  "asks_broker (Sys c r) = broker_call c"
| "asks_broker (Blocked c) = broker_call c"
| "asks_broker e = False"

text \<open>Only a phase that was granted a plan changes the host.\<close>

lemma step_mutates:
  assumes "helper_step ph e ph'" "mutates e"
  obtains uid req p where "ph = Acting uid req p" "ph' = ph"
  using assms
proof (cases rule: helper_step.cases)
  case calls
  have "\<not> mutating_call c" if "fits ph c" "\<not> asking ph" "\<And>uid req p. ph \<noteq> Acting uid req p" for c
    using that by (cases ph; cases c) (auto split: fd_call.splits proc_call.splits)
  with calls assms(2) that show thesis by (cases e; cases ph) auto
next
  case asks
  then show thesis using sess_calm assms(2) by (metis option.distinct(1))
qed (use assms(2) in simp)

text \<open>After that it does not talk to the broker again, and serves nobody else.\<close>

lemma after_acting:
  "helper_run lib verb select environ ph es ph' \<Longrightarrow> (\<exists>uid req p. ph = Acting uid req p) \<or> ph = Reporting \<Longrightarrow>
   \<not> list_ex asks_broker es \<and> (ph' = ph \<or> ph' = Reporting)"
proof (induction rule: helper_run.induct)
  case (turn ph ph' es ph'')
  then show ?case by (auto elim: turn_of_acting turn_of_reporting)
next
  case (move ph e ph' es ph'')
  from move.hyps(1) move.prems have "makes (fits ph) e" "ph' = ph" by (cases rule: helper_step.cases; auto)+
  moreover have "\<not> broker_call c" if "fits ph c" for c
    using that move.prems by (cases c) auto
  ultimately show ?case using move.IH move.prems by (cases e) auto
qed simp

lemma run_split:
  "helper_run lib verb select environ ph es ph' \<Longrightarrow> es = us @ e # vs \<Longrightarrow>
   \<exists>a b. helper_run lib verb select environ ph us a \<and> helper_step a e b \<and> helper_run lib verb select environ b vs ph'"
proof (induction arbitrary: us rule: helper_run.induct)
  case (turn ph ph' es ph'')
  from turn.IH [OF turn.prems] obtain a b where "helper_run lib verb select environ ph' us a" "helper_step a e b"
    "helper_run lib verb select environ b vs ph''" by blast
  with turn.hyps(1) show ?case using helper_run.turn by blast
next
  case (move ph d ph' es ph'')
  show ?case
  proof (cases us)
    case Nil
    with move.prems have "es = vs" "d = e" by simp_all
    with move.hyps Nil show ?thesis using helper_run.stop by blast
  next
    case (Cons x xs)
    with move.prems have "es = xs @ e # vs" "d = x" by simp_all
    from move.IH [OF this(1)] obtain a b where "helper_run lib verb select environ ph' xs a" "helper_step a e b"
      "helper_run lib verb select environ b vs ph''" by blast
    with move.hyps(1) Cons \<open>d = x\<close> show ?thesis using helper_run.move by blast
  qed
qed simp

section \<open>Property\<close>

text \<open>C5. Every helper refines the protocol. The log of any run, finished or cut off, is a run of the abstract machine, call by
call: the channel is saved, the request is read from descriptor 0 and from nowhere else, the process is cleaned,
libapt is asked without being made to change anything, one conversation that the session machine allows is held with
the broker about the digest of the plan those answers make, and only a granted plan lets the host be
changed; no phase makes the calls of another. And from the first change of the host on, the broker is not talked to again.\<close>

theorem helper_refines_protocol:
  assumes "cstr verb = verb" and "entrypoint_main lib family verb environ w = (res, w')"
  shows "\<exists>es ph. log w' = log w @ es \<and> helper_run lib verb (family_job family verb) environ Opening es ph \<and>
    (\<forall>us e vs. es = us @ e # vs \<and> mutates e \<longrightarrow>
       (\<exists>uid req p. helper_run lib verb (family_job family verb) environ Opening us (Acting uid req p)) \<and>
       \<not> list_ex asks_broker vs)"
proof -
  let ?run = "helper_run lib verb (family_job family verb) environ"
  obtain es ph where es: "log w' = log w @ es" "?run Opening es ph"
    using tr_run [OF main_reaches [OF family_verb [OF assms(1)]] assms(2) [unfolded entrypoint_main_def]]
    unfolding reaches_def by blast
  have "(\<exists>uid req p. ?run Opening us (Acting uid req p)) \<and> \<not> list_ex asks_broker vs"
    if m: "es = us @ e # vs" "mutates e" for us e vs
  proof -
    from run_split [OF es(2) m(1)] obtain a b where s: "?run Opening us a" "helper_step a e b" "?run b vs ph" by blast
    from step_mutates [OF s(2) m(2)] obtain uid req p where "a = Acting uid req p" "b = a" by blast
    with s(1) after_acting [OF s(3)] show ?thesis by blast
  qed
  with es show ?thesis by blast
qed

theorem helper_refines_protocol_witness:
  "\<exists>us uid req p. helper_run ex_lib ''apt.hold'' (family_job FAMILY_HOLD ''apt.hold'') main_environ Opening us (Acting uid req p)"
proof -
  obtain w' where run: "entrypoint_main ex_lib FAMILY_HOLD ''apt.hold'' main_environ main_world = (Some 0, w')"
    "list_ex mutates (log w')" by (rule main_run)
  then obtain us e vs where "log w' = us @ e # vs" "mutates e" by (auto simp: list_ex_iff dest!: split_list)
  then have "log w' = log main_world @ us @ e # vs" by (simp add: main_fresh(1))
  with helper_refines_protocol [OF main_fresh(2) run(1)] \<open>mutates e\<close> show ?thesis by fastforce
qed

end
