(* ===== verification/Probe.thy ===== *)
theory Probe
  imports Plan_Tool
begin

text \<open>
  Two small programs around the helper: the libapt diagnostic \<open>tools/probe.cc\<close>, which reads the
  cache and prints what a digest is made of, and the fuzzing harness \<open>fuzz/fuzz_request.c\<close>. The result
  of the probe is its exit code and its standard output.
\<close>

section \<open>The probe\<close>

text \<open>Linked, never run: \<open>never\<close> below is 0.\<close>

definition commit_path_link_check :: "unit io" where
  "commit_path_link_check =
     ibind (apt_do (OpenCache True)) (\<lambda>_. ibind (apt_do GetDepCache) (\<lambda>_. ibind (apt_do SystemLock) (\<lambda>_.
     ibind (apt_do NewResolver) (\<lambda>_. ibind (apt_do (Resolve False)) (\<lambda>_. ibind (apt_do ApplyStatus) (\<lambda>_.
     ibind (apt_do (Upgrade ALLOW_EVERYTHING)) (\<lambda>_. ibind (apt_do MinimizeUpgrade) (\<lambda>_.
     ibind (apt_do CreatePM) (\<lambda>_. ibind (apt_do GetArchives) (\<lambda>_. apt_do DoInstall))))))))))"

definition yes_no :: "bool \<Rightarrow> string" where
  "yes_no b = (if b then ''yes'' else ''no'')"

definition version_text :: "version option \<Rightarrow> string" where
  "version_text v = (case v of None \<Rightarrow> [] | Some v \<Rightarrow> v_str v)"

text \<open>What is printed about the package before the lock and the marker; \<open>cand\<close> is the candidate's version, if any.\<close>

definition package_lines :: "apt_pkg \<Rightarrow> string \<Rightarrow> string" where
  "package_lines p cand =
     line (''package='' @ a_name p) @ line (''architecture='' @ a_arch p) @
     line (''current_version='' @ version_text (a_current_ver p)) @ line (''candidate_version='' @ cand) @
     line (''essential='' @ yes_no (a_essential p)) @ line (''important='' @ yes_no (a_important p)) @
     line (''held='' @ yes_no (a_selected p = SelHold)) @ line (''auto_installed='' @ yes_no (a_auto p))"

definition probe_package :: "apt_pkg \<Rightarrow> (int \<times> string) io" where
  "probe_package p =
     (let never = 0 :: int in
      ibind (syscall (Apt (CandidateVer (a_name p)))) (\<lambda>cand.
      ibind (apt IsLocked) (\<lambda>locked.
      ibind (apt_do (ConfigSet ''CommandLine::AsString'' ''runix:00000000000000000000-0000000000000000'')) (\<lambda>_.
      ibind (syscall (Apt (ConfigFind ''CommandLine::AsString'' []))) (\<lambda>marker.
      ibind (if never \<noteq> 0 then commit_path_link_check else ireturn ()) (\<lambda>_.
        ireturn (0, package_lines p (if r_ret cand = 0 then [] else r_data cand) @
          line (''system_locked='' @ yes_no locked) @ line (''marker='' @ r_data marker))))))))"

definition probe_main :: "string list \<Rightarrow> (int \<times> string) io" where
  "probe_main argv =
     ibind (apt InitConfig) (\<lambda>i. if \<not> i then ireturn (1, []) else
     ibind (apt InitSystem) (\<lambda>s. if \<not> s then ireturn (1, []) else
     ibind (apt (OpenCache False)) (\<lambda>opened. if \<not> opened then ireturn (1, []) else
     ibind (apt GetPkgCache) (\<lambda>c. ibind (apt GetDepCache) (\<lambda>dc. ibind (apt GetPolicy) (\<lambda>pol.
       if \<not> c \<or> \<not> dc \<or> \<not> pol then ireturn (1, [])
       else let target = (case argv of _ # a # _ \<Rightarrow> cstr a | _ \<Rightarrow> ''bash'') in
         ibind (apt_packages (FindPkg target)) (\<lambda>found. case found of
             [] \<Rightarrow> ireturn (0, line (''not found: '' @ target))
           | p # ps \<Rightarrow> probe_package p)))))))"

section \<open>The fuzzing harness\<close>

definition LLVMFuzzerTestOneInput :: "libraries \<Rightarrow> string \<Rightarrow> int io" where
  "LLVMFuzzerTestOneInput lib data =
     ibind (parsing (pkgx_parse_request (j_loadb (lb_jansson lib)) ''apt.install'' data)) (\<lambda>(pe, req).
     ibind (if pe = None then release req else ireturn ()) (\<lambda>_. ireturn 0))"

end
