(* ===== verification/Probe_Proofs.thy ===== *)
theory Probe_Proofs
  imports Preview_Props Probe
begin

text \<open>
  The probe reads, prints, and changes nothing; the fuzzing harness lets no receipt survive.
\<close>

section \<open>The probe\<close>

text \<open>What the probe may do beyond a preview: ask libapt for the policy, a candidate, the state of the lock, and write
one key of libapt's configuration, which lives in the process.\<close>

definition probe_extra :: "call \<Rightarrow> bool" where
  "probe_extra c \<longleftrightarrow> (case c of Apt a \<Rightarrow>
     (case a of GetPolicy \<Rightarrow> True | CandidateVer t \<Rightarrow> True | IsLocked \<Rightarrow> True
        | ConfigSet k v \<Rightarrow> k = ''CommandLine::AsString'' | ConfigFind k v \<Rightarrow> True | _ \<Rightarrow> False) | _ \<Rightarrow> False)"

fun probing :: "event \<Rightarrow> bool" where
  "probing (Sys c r) \<longleftrightarrow> reading_call c \<or> probe_extra c"
| "probing (Blocked c) \<longleftrightarrow> reading_call c \<or> probe_extra c"
| "probing e = False"

lemma probing_calm: "list_all probing es \<Longrightarrow> calm es"
proof (induction es)
  case (Cons e es)
  then have "\<not> mutates e"
    by (cases e) (auto simp: probe_extra_def split: call.splits apt_call.splits elim!: reading_call.elims)
  with Cons show ?case by (simp add: calm_def)
qed (simp add: calm_def)

text \<open>The link check is never run: nothing is locked, resolved or committed, in any run, finished or cut off.\<close>

lemma probe_reads: "tr (probe_main argv) (\<lambda>x es. list_all probing es) (list_all probing)"
  unfolding probe_main_def probe_package_def Let_def
  by (intro tr_rules) (auto simp: probe_extra_def intro!: tr_rules split: list.split)

lemma probe_exits: "probe_main argv w = (Some x, w') \<Longrightarrow> x = (1, []) \<or> fst x = 0"
proof -
  have "tr (probe_main argv) (\<lambda>x es. x = (1, []) \<or> fst x = 0) (\<lambda>es. True)"
    unfolding probe_main_def probe_package_def Let_def by (intro tr_rules) (auto intro!: tr_rules split: list.split)
  then show "probe_main argv w = (Some x, w') \<Longrightarrow> x = (1, []) \<or> fst x = 0" by (blast dest: tr_returns)
qed

section \<open>The fuzzing harness\<close>

text \<open>It always returns 0, makes no call, and what it logs is at most the wipe of an accepted receipt.\<close>

lemma fuzz_target: "\<exists>w'. LLVMFuzzerTestOneInput lib data w = (Some 0, w') \<and> answers w' = answers w \<and>
   (log w' = log w \<or> (\<exists>req :: pkgx_request. log w' = log w @ [Wipe (effect_receipt req)]))"
  by (auto simp: LLVMFuzzerTestOneInput_def parsing_def release_def emit_def ibind_def ireturn_def split: prod.split)

end
