(* ===== verification/Returns.thy ===== *)
theory Returns
  imports Transport_Proofs Preview_Props Probe
begin

text \<open>
  Whole programs end. Every loop of the helper, of the two planners and of the probe makes a
  call in each round, so a program that has not returned is waiting for an answer; and the calls of a run are
  paid for as in \<open>Budget\<close>, up to a bound for each program, so it never spins.
\<close>

section \<open>Processes and channels\<close>

lemma ct_write [ct_rules]: "(\<And>x. P x 1) \<Longrightarrow> ct (write_fd fd d) P"
  unfolding write_fd_def by (intro ct_rules) auto

lemma ct_push [ct_rules]: "(\<And>x n. P x n) \<Longrightarrow> ct (push fd buf) P"
  unfolding push_def push_round_def by (intro ct_rules) auto

lemma ct_channel [ct_rules]: "(\<And>x n. P x n) \<Longrightarrow> ct pkgx_result_channel_open P"
  unfolding pkgx_result_channel_open_def Let_def by (intro ct_rules) auto

lemma ct_emit_result [ct_rules]: "(\<And>x n. P x n) \<Longrightarrow> ct (pkgx_result_emit jn fd st issued cid det) P"
  unfolding pkgx_result_emit_def emit_line_def by (intro ct_rules) auto

lemma ct_wait_child [ct_rules]: "(\<And>x n. P x n) \<Longrightarrow> ct (wait_child pid ok) P"
  unfolding wait_child_def wait_child_round_def by (intro ct_rules) auto

lemma ct_deliver [ct_rules]: "(\<And>x n. P x n) \<Longrightarrow> ct (deliver fd input) P"
  unfolding deliver_def by (intro ct_rules) auto

lemma ct_run_child [ct_rules]: "(\<And>x n. P x n) \<Longrightarrow> ct (run_child argv env input pipes) P"
  unfolding run_child_def by (cases input; cases pipes; simp; intro ct_rules; simp)

lemma ct_pipe [ct_rules]: "(\<And>x n. P x n) \<Longrightarrow> ct (open_pipe input) P"
  unfolding open_pipe_def by (intro ct_rules) auto

lemma ct_actions [ct_rules]: "(\<And>x n. P x n) \<Longrightarrow> ct (file_actions pipes) P"
  unfolding file_actions_def add_actions_def close_pipe_def by (intro ct_rules) auto

lemma ct_environment [ct_rules]: "(\<And>x n. P x n) \<Longrightarrow> ct (child_environment environ extra) P"
  unfolding child_environment_def build_child_env_def by (intro ct_rules) auto

lemma ct_spawn [ct_rules]: "(\<And>x n. P x n) \<Longrightarrow> ct (pkgx_spawn_wait_env environ argv input extra) P"
  unfolding pkgx_spawn_wait_env_def by (intro ct_rules) auto

section \<open>Hygiene\<close>

lemma ct_set_all [ct_rules]: "(\<And>x n. P x n) \<Longrightarrow> ct (set_all kvs env) P"
proof (induction kvs arbitrary: env P)
  case (Cons kv kvs)
  obtain k v where kv: "kv = (k, v)" by (cases kv)
  show ?case by (simp add: kv, intro ct_rules Cons.IH) (use Cons.prems in auto)
qed (simp add: ct_return)

lemma ct_hygiene [ct_rules]: "(\<And>x n. P x n) \<Longrightarrow> ct hygiene P"
  unfolding hygiene_def pkgx_scrub_env_def pkgx_null_stdin_def keep_stdin_def pkgx_cloexec_from_def cloexec_round_def
    set_cloexec_def Let_def
  by (intro ct_rules) auto

section \<open>libapt\<close>

lemma ct_apt [ct_rules]: "(\<And>x. P x 1) \<Longrightarrow> ct (apt c) P"
  unfolding apt_def by (intro ct_rules) auto

lemma ct_apt_do [ct_rules]: "(\<And>x. P x 1) \<Longrightarrow> ct (apt_do c) P"
  unfolding apt_do_def by (intro ct_rules) auto

lemma ct_apt_packages [ct_rules]: "(\<And>x. P x 1) \<Longrightarrow> ct (apt_packages c) P"
  unfolding apt_packages_def by (intro ct_rules) auto

lemma ct_targets [ct_rules]: "(\<And>x n. P x n) \<Longrightarrow> ct (mark_targets removal purge ts) P"
proof (induction ts arbitrary: P)
  case (Cons t ts)
  show ?case by (simp only: mark_targets.simps, intro ct_rules Cons.IH) (use Cons.prems in auto)
qed (simp add: ct_return)

lemma ct_list [ct_rules]:
  "(x = [] \<Longrightarrow> ct m P) \<Longrightarrow> (\<And>y ys. x = y # ys \<Longrightarrow> ct (f y ys) P) \<Longrightarrow> ct (case x of [] \<Rightarrow> m | y # ys \<Rightarrow> f y ys) P"
  by (cases x) auto

lemma ct_hold_targets [ct_rules]: "(\<And>x n. P x n) \<Longrightarrow> ct (map_hold_targets hold ts changes) P"
proof (induction ts arbitrary: changes P)
  case (Cons t ts)
  show ?case by (simp only: map_hold_targets.simps Let_def, intro ct_rules Cons.IH) (use Cons.prems in auto)
qed (simp add: ct_return)

lemma ct_selections [ct_rules]: "(\<And>x n. P x n) \<Longrightarrow> ct (selections_of hs) P"
proof (induction hs arbitrary: P)
  case (Cons h hs)
  show ?case by (simp only: selections_of.simps Let_def, intro ct_rules Cons.IH) (use Cons.prems in auto)
qed (simp add: ct_return)

lemma ct_scan [ct_rules]: "(\<And>x n. P x n) \<Longrightarrow> ct pkgx_apt_ground_truth_broken P"
  unfolding pkgx_apt_ground_truth_broken_def scan_broken_def by (intro ct_rules) auto

lemma ct_dpkg [ct_rules]: "(\<And>x n. P x n) \<Longrightarrow> ct (dpkg_commit environ argv input c cid) P"
  unfolding dpkg_commit_def run_dpkg_def Let_def by (intro ct_rules) auto

section \<open>The plan step and the effectors\<close>

lemma ct_tx [ct_rules]: "(\<And>x n. P x n) \<Longrightarrow> ct (pkgx_transport_tx t body) P"
  unfolding pkgx_transport_tx_def by (intro ct_rules ct_mono [OF ct_transport]) auto

lemma ct_redeem:
  assumes "pe_tx env = pkgx_transport_tx t" and "\<And>x n. P x n"
  shows "ct (redeem_tail env verb resource hash oc) P"
  unfolding redeem_tail_def pkgx_redeem_def redeem_after_def assms(1)
  by (intro ct_rules) (use assms(2) in auto)

lemma ct_verdict [ct_rules]:
  "ct f P \<Longrightarrow> ct g P \<Longrightarrow> ct h P \<Longrightarrow> ct k P \<Longrightarrow>
   ct (case a of POLICY_OK \<Rightarrow> f | POLICY_NOT_OWNED \<Rightarrow> g | POLICY_HELD \<Rightarrow> h | POLICY_PROTECTED \<Rightarrow> k) P"
  by (cases a) auto

lemma ct_plan:
  assumes tx: "pe_tx env = pkgx_transport_tx t" and "\<And>x n. P x n"
  shows "ct (pkgx_plan_and_redeem env verb rs targets oc) P"
    and "ct (pkgx_plan_and_redeem_update env srcs token oc) P"
    and "ct (pkgx_plan_and_redeem_hold env verb hs targets oc) P"
    and "ct (pkgx_plan_and_redeem_configure env cs oc) P"
  unfolding pkgx_plan_and_redeem_def pkgx_plan_and_redeem_update_def pkgx_plan_and_redeem_hold_def
    pkgx_plan_and_redeem_configure_def
  by (intro ct_rules ct_redeem [OF tx]; simp add: assms(2))+

lemma ct_gate:
  assumes "\<And>c cid P. (\<And>x n. P x n) \<Longrightarrow> ct (commit c cid) P" and "\<And>x n. P x n"
  shows "ct (pkgx_effect_gate PLAN_OK v (Some commit) c) P"
  unfolding pkgx_effect_gate_def by (simp, intro conjI impI ct_rules assms(1)) (use assms(2) in auto)

lemma ct_txn_commit: "(\<And>x n. P x n) \<Longrightarrow> ct (txn_commit c cid) P"
  unfolding txn_commit_def txn_fetch_def txn_install_def Let_def by (intro ct_rules) auto

lemma ct_update_commit: "(\<And>x n. P x n) \<Longrightarrow> ct (update_commit c cid) P"
  unfolding update_commit_def by (intro ct_rules) auto

lemma ct_finish [ct_rules]:
  fixes P :: "effect_outcome \<Rightarrow> nat \<Rightarrow> bool"
  assumes "\<And>x n. P x n"
  shows "ct (txn_finish cid) P" "ct (update_finish cid) P" "ct (hold_finish environ changes cid) P"
    "ct (configure_finish environ cid) P"
  unfolding txn_finish_def update_finish_def hold_finish_def configure_finish_def indexes_readable_def selections_match_def
    find_dpkg_def hold_commit_def configure_commit_def Let_def
  by (intro ct_rules ct_gate [OF ct_txn_commit] ct_gate [OF ct_update_commit] ct_gate [OF ct_dpkg]; simp add: assms)+

lemma ct_settle:
  "(\<And>cid. ct (finish cid) P) \<Longrightarrow> (\<And>x n. P x n) \<Longrightarrow> ct (settle q finish) P"
  unfolding settle_def by (intro ct_rules) auto

lemma ct_early [ct_rules]:
  "(\<And>x n. P x n) \<Longrightarrow> ct (check ok st d) P"
  "(\<And>x n. P x n) \<Longrightarrow> ct (apt_start timeout) P"
  "(\<And>x n. P x n) \<Longrightarrow> ct (open_cache dep) P"
  "(\<And>x n. P x n) \<Longrightarrow> ct (txn_resolve verb targets) P"
  "(\<And>x n. P x n) \<Longrightarrow> ct probe_lists P"
  unfolding check_def apt_start_def pkgx_apt_init_def pkgx_apt_set_lock_timeout_def open_cache_def txn_resolve_def
    probe_lists_def Let_def
  by (intro ct_rules; simp)+

lemma ct_hold_map [ct_rules]:
  "(\<And>cs. ct (f cs) P) \<Longrightarrow> (\<And>t. ct (g t) P) \<Longrightarrow> (\<And>t. ct (h t) P) \<Longrightarrow>
   ct (case m of HOLD_MAP_OK cs \<Rightarrow> f cs | HOLD_MAP_UNKNOWN t \<Rightarrow> g t | HOLD_MAP_INVALID t \<Rightarrow> h t) P"
  by (cases m) auto

lemma ct_job:
  assumes tx: "pe_tx env = pkgx_transport_tx t" and "\<And>x n. P x n"
  shows "ct (run_job env environ timeout job) P"
proof -
  note parts = pkgx_apt_txn_effect_def pkgx_apt_update_effect_def pkgx_apt_hold_effect_def pkgx_apt_configure_effect_def
    prepared_for_def and_then_def txn_open_def update_open_def txn_plan_and_commit_def update_plan_and_commit_def
    hold_plan_and_commit_def configure_plan_and_commit_def pkgx_apt_map_hold_def Let_def
  show ?thesis
    by (cases job; simp only: run_job.simps parts)
       (intro ct_rules ct_plan [OF tx] ct_settle; simp add: assms(2))+
qed

section \<open>The programs\<close>

lemma ct_parsing [ct_rules]: "(\<And>x. P x 0) \<Longrightarrow> ct (parsing f) P"
  by (auto simp: ct_def wp_def parsing_def split: prod.split)

lemma ct_read_stdin [ct_rules]: "(\<And>x n. P x n) \<Longrightarrow> ct (pkgx_read_stdin fd) P"
  unfolding pkgx_read_stdin_def by (rule ct_mono [OF ct_stdin]) auto

lemma ct_read_request [ct_rules]: "(\<And>x n. P x n) \<Longrightarrow> ct (read_request lib verb environ) P"
  unfolding read_request_def by (intro ct_rules) auto

lemma ct_helper: "ct (helper_main lib verb select environ) (\<lambda>x n. True)"
proof -
  have tx: "pe_tx (effect_env lib uid req) = pkgx_transport_tx broker_cfg" for uid req by (simp add: effect_env_def)
  show ?thesis
    unfolding helper_main_def perform_def fail_result_def release_def by (intro ct_rules ct_job [OF tx]) auto
qed

lemma ct_emit_line [ct_rules]:
  "(\<And>x. P x 0) \<Longrightarrow> ct (emit_result jn status verb pkgs resource plan_hash records detail) P"
  unfolding emit_result_def by (intro ct_rules) auto

lemma ct_preview_plan [ct_rules]: "(\<And>x n. P x n) \<Longrightarrow> ct (preview_plan lib verb pkgs resource kind digest fault) P"
  unfolding preview_plan_def Let_def by (intro ct_rules) auto

lemma ct_preview: "ct (preview_main lib) (\<lambda>x n. True)"
  unfolding preview_main_def preview_request_def preview_run_def preview_txn_def preview_update_def preview_hold_def
    preview_configure_def preview_resolve_def compute_resource_def pkgx_apt_map_hold_def Let_def
  by (intro ct_rules) auto

lemma ct_print_plan [ct_rules]: "(\<And>x n. P x n) \<Longrightarrow> ct (print_plan out resource digest) P"
  unfolding print_plan_def by (intro ct_rules) auto

lemma ct_plan_tool: "ct (plan_main lib argv) (\<lambda>x n. True)"
  unfolding plan_main_def plan_run_def plan_txn_def plan_update_def plan_hold_def plan_configure_def plan_resolve_def
    resource_for_def pkgx_apt_map_hold_def Let_def
  by (intro ct_rules) auto

lemma ct_probe: "ct (probe_main argv) (\<lambda>x n. True)"
  unfolding probe_main_def probe_package_def Let_def by (intro ct_rules) (auto intro!: ct_rules split: list.split)

lemma ct_outcome: "ct m P \<Longrightarrow> (\<exists>x. fst (m w) = Some x) \<or> answers (snd (m w)) = []"
  by (cases "m w", cases "fst (m w)") (auto dest: ct_None)

section \<open>Overhead\<close>

lemma effort_calls:
  "effort.within 1 (apt c)" "effort.within 1 (apt_do c)" "effort.within 1 (apt_packages c)"
  unfolding apt_def apt_do_def apt_packages_def by - (rule effort.within_mono, (rule effort_rules)+, simp)+

lemma effort_push: "effort.within 1 (push fd buf)"
  unfolding push_def push_round_def
  by (rule effort.within_loop) (intro tr_rules; auto simp: taken_of_def min_def)

lemma effort_wait_child: "effort.within 1 (io_loop (wait_child_round pid) u)"
  unfolding wait_child_round_def by (rule effort.within_loop) (intro tr_rules; auto)

lemma effort_cloexec: "effort.within 1 (io_loop (cloexec_round lowest d) rc)"
  unfolding cloexec_round_def set_cloexec_def Let_def by (rule effort.within_loop) (intro tr_rules; auto)

lemma effort_stdin: "effort.within 3 (io_loop (stdin_round fd dl start) s)"
  unfolding stdin_round_def grow_stdin_def
  by (rule effort.within_loop) (auto intro!: tr_rules dest!: some_bytes split: prod.split)

lemmas effort_loops = effort_rules effort_calls effort_push effort_wait_child effort_cloexec effort_stdin

lemma effort_channel: "effort.within 3 pkgx_result_channel_open"
  unfolding pkgx_result_channel_open_def Let_def by (rule effort.within_mono, (rule effort_loops)+, simp)

lemma effort_result: "effort.within 3 (pkgx_result_emit jn fd st issued cid det)"
  unfolding pkgx_result_emit_def emit_line_def by (rule effort.within_mono, (rule effort_loops)+, simp)

lemma effort_spawn: "effort.within 10 (pkgx_spawn_wait_env environ argv input extra)"
  unfolding pkgx_spawn_wait_env_def child_environment_def build_child_env_def open_pipe_def file_actions_def
    add_actions_def close_pipe_def run_child_def deliver_def wait_child_def
  by (rule effort.within_mono, (rule effort_loops)+, simp)

lemma effort_set_all: "effort.within (length kvs) (set_all kvs env)"
proof (induction kvs arbitrary: env)
  case (Cons kv kvs)
  obtain k v where kv: "kv = (k, v)" by (cases kv)
  show ?case unfolding kv set_all.simps by (rule effort.within_mono, (rule effort_rules Cons.IH)+, simp)
qed (simp add: effort.within_return)

lemma effort_hygiene: "effort.within 12 hygiene"
  unfolding hygiene_def pkgx_scrub_env_def pkgx_null_stdin_def keep_stdin_def pkgx_cloexec_from_def Let_def
  by (rule effort.within_mono, (rule effort_loops effort_set_all)+, simp add: SAFE_ENV_def)

lemma effort_targets: "effort.within (4 * length ts) (mark_targets removal purge ts)"
proof (induction ts)
  case (Cons t ts)
  show ?case unfolding mark_targets.simps by (rule effort.within_mono, (rule effort_loops Cons.IH)+, simp)
qed (simp add: effort.within_return)

lemma effort_selections: "effort.within (length hs) (selections_of hs)"
proof (induction hs)
  case (Cons h hs)
  show ?case unfolding selections_of.simps by (rule effort.within_mono, (rule effort_loops Cons.IH)+, simp)
qed (simp add: effort.within_return)

lemma hold_targets_effort:
  "tr (map_hold_targets hold ts changes)
    (\<lambda>m es. overhead es \<le> int (length ts) \<and> (\<forall>cs. m = HOLD_MAP_OK cs \<longrightarrow> length cs \<le> length changes + length ts))
    (\<lambda>es. overhead es \<le> int (length ts))"
proof (induction ts arbitrary: hold changes)
  case (Cons t ts)
  show ?case
    unfolding map_hold_targets.simps Let_def
    by (intro tr_rules) (auto intro!: tr_rules tr_mono [OF Cons.IH] split: list.split)
qed (simp add: tr_return)

lemma effort_hold_targets: "effort.within (length ts) (map_hold_targets hold ts changes)"
  by (rule effort.withinI, rule tr_mono [OF hold_targets_effort]) auto

lemma effort_hold_map:
  "(\<And>cs. effort.within a (f cs)) \<Longrightarrow> (\<And>t. effort.within b (g t)) \<Longrightarrow> (\<And>t. effort.within c (h t)) \<Longrightarrow>
   effort.within (max a (max b c)) (case m of HOLD_MAP_OK cs \<Rightarrow> f cs | HOLD_MAP_UNKNOWN t \<Rightarrow> g t | HOLD_MAP_INVALID t \<Rightarrow> h t)"
  by (cases m) (simp_all add: effort.within_max max.assoc [symmetric] max.left_commute [of b])

lemma effort_verdict:
  "effort.within n f \<Longrightarrow> effort.within a g \<Longrightarrow> effort.within b h \<Longrightarrow> effort.within c k \<Longrightarrow>
   effort.within (max (max n a) (max b c))
     (case v of POLICY_OK \<Rightarrow> f | POLICY_NOT_OWNED \<Rightarrow> g | POLICY_HELD \<Rightarrow> h | POLICY_PROTECTED \<Rightarrow> k)"
  by (cases v) (auto elim: effort.within_mono)

lemma effort_ground_truth: "effort.within 7 pkgx_apt_ground_truth_broken"
  unfolding pkgx_apt_ground_truth_broken_def scan_broken_def by (rule effort.within_mono, (rule effort_loops)+, simp)

lemma effort_dpkg: "effort.within 12 (dpkg_commit environ argv input c cid)"
  unfolding dpkg_commit_def run_dpkg_def Let_def by (rule effort.within_mono, (rule effort_loops effort_spawn)+, simp)

lemma effort_txn_commit: "effort.within 12 (txn_commit c cid)"
  unfolding txn_commit_def txn_fetch_def txn_install_def Let_def by (rule effort.within_mono, (rule effort_loops)+, simp)

lemma effort_gate: "(\<And>cid. effort.within b (commit c cid)) \<Longrightarrow> effort.within b (pkgx_effect_gate PLAN_OK v (Some commit) c)"
  unfolding pkgx_effect_gate_def plan_result.case option.case
  by (rule effort.within_mono, (rule effort_rules | assumption)+, simp)

lemmas effort_parts = effort_loops effort_channel effort_result effort_spawn effort_hygiene effort_targets effort_selections
  effort_hold_targets effort_hold_map effort_verdict effort_ground_truth

lemma effort_finish:
  "effort.within 20 (txn_finish cid)" "effort.within 10 (update_finish cid)"
  "effort.within (20 + length changes) (hold_finish environ changes cid)" "effort.within 20 (configure_finish environ cid)"
  unfolding txn_finish_def update_finish_def hold_finish_def configure_finish_def update_commit_def indexes_readable_def
    selections_match_def find_dpkg_def hold_commit_def configure_commit_def Let_def
  by - (rule effort.within_mono, (rule effort_parts effort_gate effort_txn_commit effort_dpkg)+, simp)+

section \<open>Overhead of the programs\<close>

lemma effort_redeem:
  assumes "pe_tx env = pkgx_transport_tx t"
  shows "effort.within 16 (redeem_tail env verb resource hash oc)"
  unfolding redeem_tail_def pkgx_redeem_def redeem_after_def assms pkgx_transport_tx_def
  by (rule effort.within_mono, (rule effort_parts effort_transport)+, simp)

lemma effort_plan:
  assumes tx: "pe_tx env = pkgx_transport_tx t"
  shows "effort.within 16 (pkgx_plan_and_redeem env verb rs targets oc)"
    and "effort.within 16 (pkgx_plan_and_redeem_update env srcs token oc)"
    and "effort.within 16 (pkgx_plan_and_redeem_hold env verb hs targets oc)"
    and "effort.within 16 (pkgx_plan_and_redeem_configure env cs oc)"
  unfolding pkgx_plan_and_redeem_def pkgx_plan_and_redeem_update_def pkgx_plan_and_redeem_hold_def
    pkgx_plan_and_redeem_configure_def
  by - (rule effort.within_mono, (rule effort_parts effort_redeem [OF tx])+, simp)+

lemma effort_settle: "(\<And>cid. effort.within b (finish cid)) \<Longrightarrow> effort.within b (settle q finish)"
  unfolding settle_def by (rule effort.within_mono, (rule effort_rules | assumption)+, simp)

lemma effort_early:
  "effort.within 0 (check ok st d)" "effort.within 3 (apt_start timeout)" "effort.within 4 (open_cache dep)"
  "effort.within (2 + 4 * length targets) (txn_resolve verb targets)" "effort.within 2 probe_lists"
  unfolding check_def apt_start_def pkgx_apt_init_def pkgx_apt_set_lock_timeout_def open_cache_def txn_resolve_def
    probe_lists_def Let_def
  by - (rule effort.within_mono, (rule effort_parts)+, simp)+

lemma effort_hold:
  assumes tx: "pe_tx env = pkgx_transport_tx t"
  shows "effort.within (length targets + (36 + length targets)) (hold_plan_and_commit env environ verb targets cid)"
  unfolding hold_plan_and_commit_def pkgx_apt_map_hold_def
proof (rule effort.within_bind_post [OF hold_targets_effort])
  fix m assume m: "\<forall>cs. m = HOLD_MAP_OK cs \<longrightarrow> length cs \<le> length [] + length targets"
  have run: "effort.within (16 + (20 + length cs))
      (ibind (pkgx_plan_and_redeem_hold env verb (map hold_record_of cs) (map Some targets) cid)
        (\<lambda>p. settle p (hold_finish environ cs)))" for cs
    by (rule effort.within_bind [OF effort_plan(3) [OF tx]], rule effort_settle, rule effort_finish)
  show "effort.within (36 + length targets) (case m of
      HOLD_MAP_OK changes \<Rightarrow> ibind (pkgx_plan_and_redeem_hold env verb (map hold_record_of changes) (map Some targets) cid)
        (\<lambda>p. settle p (hold_finish environ changes))
    | HOLD_MAP_UNKNOWN t \<Rightarrow> ireturn (APT_RESOLVE_FAILED, cid, False, pkgx_detail_set (Some t))
    | HOLD_MAP_INVALID t \<Rightarrow> ireturn (APT_RESOLVE_FAILED, cid, False, pkgx_detail_set (Some t)))"
  proof (cases m)
    case (HOLD_MAP_OK cs)
    with m run [of cs] show ?thesis by (auto elim: effort.within_mono)
  qed (auto intro: effort.within_mono [OF effort.within_return(1)])
qed

lemma effort_job:
  assumes tx: "pe_tx env = pkgx_transport_tx t" and n: "length (job_targets job) \<le> 256"
  shows "effort.within 1100 (run_job env environ timeout job)"
proof -
  note parts = pkgx_apt_txn_effect_def pkgx_apt_update_effect_def pkgx_apt_hold_effect_def pkgx_apt_configure_effect_def
    prepared_for_def and_then_def txn_open_def update_open_def txn_plan_and_commit_def update_plan_and_commit_def
    configure_plan_and_commit_def Let_def
  show ?thesis
    by (cases job; simp only: run_job.simps parts; rule effort.within_mono,
        (rule effort_parts effort_early effort_plan [OF tx] effort_hold [OF tx] effort_settle effort_finish)+,
        use n in simp)
qed

text \<open>The length of an accepted package list bounds the job.\<close>

lemma shape_targets: "request_shape verb root req \<Longrightarrow> length (requested req) \<le> 256"
  by (auto simp: request_shape_def package_value_def requested_def)

lemma effort_read_stdin: "effort.within 4 (pkgx_read_stdin fd)"
  unfolding pkgx_read_stdin_def pkgx_read_stdin_deadline_def stdin_finish_def
  by (rule effort.within_mono, (rule effort_parts)+, simp)

lemma effort_parsing: "effort.within 0 (parsing f)"
  by (rule effort.withinI, rule tr_parsing) simp_all

lemma read_request_effort:
  "tr (read_request lib verb environ)
    (\<lambda>r es. overhead es \<le> int 4 \<and> (\<forall>uid req. r = Inr (uid, req) \<longrightarrow> length (requested req) \<le> 256))
    (\<lambda>es. overhead es \<le> int 4)"
proof -
  have "effort.within 4 (read_request lib verb environ)"
    unfolding read_request_def by (rule effort.within_mono, (rule effort_parts effort_read_stdin effort_parsing)+, simp)
  from tr_both [OF this [unfolded effort.within_def] read_request_trace] show ?thesis
    by (rule tr_mono) (auto simp: request_read_def dest: shape_targets)
qed

lemma effort_perform:
  assumes "length (job_targets job) \<le> 256"
  shows "effort.within 1120 (perform lib rfd uid req job)"
proof -
  have tx: "pe_tx (effect_env lib uid req) = pkgx_transport_tx broker_cfg" by (simp add: effect_env_def)
  show ?thesis
    unfolding perform_def fail_result_def release_def
    by (rule effort.within_mono, (rule effort_parts effort_job [OF tx assms])+, simp)
qed

lemma effort_helper:
  assumes "\<And>req. length (job_targets (select req)) \<le> length (requested req)"
  shows "effort.within 1130 (helper_main lib verb select environ)"
proof -
  have "effort.within (4 + 1120) (ibind (read_request lib verb environ) (\<lambda>r. case r of
      Inl detail \<Rightarrow> fail_result lib rfd [] detail | Inr (uid, req) \<Rightarrow> perform lib rfd uid req (select req)))" for rfd
  proof (rule effort.within_bind_post [OF read_request_effort])
    fix r :: "string + int \<times> pkgx_request"
    assume r: "\<forall>uid req. r = Inr (uid, req) \<longrightarrow> length (requested req) \<le> 256"
    show "effort.within 1120 (case r of
        Inl detail \<Rightarrow> fail_result lib rfd [] detail | Inr (uid, req) \<Rightarrow> perform lib rfd uid req (select req))"
    proof (cases r)
      case (Inl detail)
      have "effort.within 1120 (fail_result lib rfd [] detail)"
        unfolding fail_result_def by (rule effort.within_mono, (rule effort_parts)+, simp)
      then show ?thesis by (simp add: Inl)
    next
      case (Inr q)
      obtain uid req where q: "q = (uid, req)" by (cases q)
      have "length (job_targets (select req)) \<le> 256" using assms [of req] r by (auto simp: Inr q)
      then show ?thesis by (simp add: Inr q effort_perform)
    qed
  qed
  then show ?thesis
    unfolding helper_main_def by (intro effort.within_mono [OF effort.within_bind [OF effort_channel effort.within_if]])
      (rule effort.within_return, assumption, simp)
qed

lemma job_targets_requested:
  "length (job_targets (family_job family verb req)) \<le> length (requested req)"
  "length (job_targets (verb_job verb req)) \<le> length (requested req)"
  by (cases family) (simp_all add: family_job_def verb_job_def)

lemma effort_emit_line: "effort.within 0 (emit_result jn status verb pkgs resource plan_hash records detail)"
  unfolding emit_result_def by (rule effort.within_mono, (rule effort_parts)+, simp)

lemma effort_preview_plan: "effort.within 0 (preview_plan lib verb pkgs resource kind digest fault)"
  unfolding preview_plan_def Let_def by (rule effort.within_mono, (rule effort_parts effort_emit_line)+, simp)

lemma effort_preview_run: "effort.within (20 + 4 * length pkgs) (preview_run lib verb pkgs)"
  unfolding preview_run_def preview_txn_def preview_update_def preview_hold_def
    preview_configure_def preview_resolve_def compute_resource_def pkgx_apt_map_hold_def Let_def
  by (rule effort.within_mono, (rule effort_parts effort_emit_line effort_preview_plan)+, simp)

lemma preview_request_effort:
  "tr (preview_request lib)
    (\<lambda>r es. overhead es \<le> int 4 \<and> (\<forall>req. r = Inr req \<longrightarrow> length (case p_packages req of None \<Rightarrow> [] | Some ps \<Rightarrow> ps) \<le> 256))
    (\<lambda>es. overhead es \<le> int 4)"
  unfolding preview_request_def
  by (intro tr_rules effort.within_tr [OF effort_read_stdin])
     (auto dest!: preview_sound simp: preview_shape_def package_value_def intro!: tr_rules)

lemma effort_preview: "effort.within 1060 (preview_main lib)"
  unfolding preview_main_def
proof (rule effort.within_mono [OF effort.within_bind_post [OF preview_request_effort]])
  fix r :: "(string \<times> string) + preview_request"
  assume r: "\<forall>req. r = Inr req \<longrightarrow> length (case p_packages req of None \<Rightarrow> [] | Some ps \<Rightarrow> ps) \<le> 256"
  show "effort.within (20 + 4 * 256) (case r of
      Inl (status, detail) \<Rightarrow> emit_result (lb_jansson lib) status None [] None None None (Some detail)
    | Inr req \<Rightarrow> preview_run lib (p_verb req) (case p_packages req of None \<Rightarrow> [] | Some ps \<Rightarrow> ps))"
  proof (cases r)
    case (Inr req)
    with r show ?thesis by (auto intro!: effort.within_mono [OF effort_preview_run])
  qed (auto intro!: effort.within_mono [OF effort_emit_line] split: prod.split)
qed simp

lemma effort_plan_tool: "effort.within (20 + 4 * length argv) (plan_main lib argv)"
proof -
  have "effort.within (16 + 4 * length (map cstr ts)) (plan_run lib verb (map cstr ts))" for verb ts
    unfolding plan_run_def plan_txn_def plan_update_def plan_hold_def plan_configure_def plan_resolve_def
      resource_for_def pkgx_apt_map_hold_def print_plan_def Let_def
    by (rule effort.within_mono, (rule effort_parts)+, simp)
  note run = effort.within_mono [OF this]
  show ?thesis
    unfolding plan_main_def
    by (auto split: list.split intro!: effort.within_mono [OF effort.within_return(1)]
      effort.within_mono [OF effort.within_bind [OF run effort.within_prod [OF effort.within_return(1)]]])
qed

lemma effort_probe: "effort.within 25 (probe_main argv)"
  unfolding probe_main_def probe_package_def commit_path_link_check_def Let_def
  by (rule effort.within_mono, (rule effort_parts)+, simp)

section \<open>Property\<close>

text \<open>A run has a bounded number of calls that neither move bytes nor hand over a directory entry nor are sent back,
and it has returned unless it waits for an answer.\<close>

definition ends_within :: "nat \<Rightarrow> 'a io \<Rightarrow> bool" where
  "ends_within b m \<longleftrightarrow> (\<forall>w. \<exists>es. log (snd (m w)) = log w @ es \<and>
     calls_in es \<le> b + 4 * retries es + 3 * traffic es + 3 * entries es \<and>
     ((\<exists>x. fst (m w) = Some x) \<or> answers (snd (m w)) = []))"

lemma ends_withinI:
  assumes "effort.within b m" "ct m P"
  shows "ends_within b m"
  unfolding ends_within_def
proof
  fix w
  obtain es where "log (snd (m w)) = log w @ es" "overhead es \<le> int b" using effort.within_log [OF assms(1)] by blast
  then show "\<exists>es. log (snd (m w)) = log w @ es \<and> calls_in es \<le> b + 4 * retries es + 3 * traffic es + 3 * entries es \<and>
      ((\<exists>x. fst (m w) = Some x) \<or> answers (snd (m w)) = [])"
    using ct_outcome [OF assms(2), of w] by (intro exI [of _ es]) (simp add: overhead_def)
qed

text \<open>C10. Every program ends. In every run of a helper, of the effect diagnostic, of the two planners or of the probe, the
number of calls is at most a fixed number (linear in \<open>argv\<close> for the acceptance planner) plus three for
each byte that a call moved and each directory entry it handed over and four for each call that was
interrupted, not ready or timed out; a call that moves nothing is never repeated otherwise. And a run that has not returned
is waiting for an answer.\<close>

theorem programs_end:
  "ends_within 1130 (entrypoint_main lib family verb environ) \<and> ends_within 1130 (effect_tool_main lib argv environ) \<and>
   ends_within 1060 (preview_main lib) \<and> ends_within (20 + 4 * length argv) (plan_main lib argv) \<and>
   ends_within 25 (probe_main argv)"
proof (intro conjI)
  note helper = ends_withinI [OF effort_helper ct_helper]
  show "ends_within 1130 (entrypoint_main lib family verb environ)"
    unfolding entrypoint_main_def by (rule helper) (rule job_targets_requested)
  have "ends_within 1130 (ireturn x)" for x :: int
    by (rule ends_withinI [OF effort.within_mono [OF effort.within_return(1)] ct_return [where P = "\<lambda>x n. True"]]) simp_all
  then show "ends_within 1130 (effect_tool_main lib argv environ)"
    unfolding effect_tool_main_def Let_def by (auto intro: helper job_targets_requested split: list.split)
qed (rule ends_withinI [OF effort_preview ct_preview] ends_withinI [OF effort_plan_tool ct_plan_tool]
  ends_withinI [OF effort_probe ct_probe])+

end
