(* ===== verification/Spec2Isabelle.thy ===== *)
theory Spec2Isabelle
  imports Digest_Props Stdin_Proofs Request_Proofs Redeem_Proofs Gate Plan_Proofs Transport_Proofs
    Spawn_Proofs Result_Proofs Harden_Proofs Effect_Runs Entry_Runs Preview_Runs
    Secrets Protocol Probe_Proofs Returns
begin

text \<open>
  A verification development for pkgexec, the privileged apt effector of Runix.

  \<^bold>\<open>The program.\<close> pkexec starts one helper binary per verb as root. The helper
  (\<open>src/entrypoint.c\<close>) saves its result channel, learns the caller's uid from \<open>PKEXEC_UID\<close>, reads one
  JSON request from standard input (\<open>src/request.c\<close>), cleans up its process (\<open>src/harden.c\<close>) and runs the
  effector of its verb (\<open>src/apt_txn.cc\<close>, \<open>apt_update.cc\<close>, \<open>apt_hold.cc\<close>, \<open>apt_configure.cc\<close> over
  \<open>apt_common.cc\<close>). An effector opens libapt, maps what libapt answers to plan records, and runs the plan step
  (\<open>src/plan.c\<close>): policy (\<open>src/policy.c\<close>), digest of the plan (\<open>src/digest.c\<close>), then redemption of the
  request's effect receipt (\<open>src/redeem.c\<close>) for exactly that digest, over the authenticated broker
  socket (\<open>src/transport.c\<close>). Only a redeemed plan passes the gate (\<open>src/effect.c\<close>) to the committer, which
  runs libapt's installer or dpkg (\<open>src/spawn.c\<close>); the outcome is classified (\<open>src/apt_status.c\<close>) and
  written as one JSON line to the channel (\<open>src/result.c\<close>). The unprivileged \<open>tools/preview.cc\<close> and the
  acceptance driver's \<open>tools/plan.cc\<close> compute the same plan without redeeming it; \<open>tools/effect.cc\<close> is the
  helper with its verb in \<open>argv\<close>.

  \<^bold>\<open>Execution model.\<close> Memory: \<open>Alloc\<close> has computations over an oracle that lets any allocation fail, with
  the judgements \<open>pcorrect\<close> (whatever the oracle does) and \<open>tcorrect\<close> (when it never fails). System: \<open>Os\<close> has
  computations over a script of replies, one per call to the kernel or to libapt, and a log of the calls
  with their replies and of the wipes, closes and reallocations; \<open>tr m P E\<close> bounds the log of a finished run
  by \<open>P\<close> and of a run cut off by the end of its script by \<open>E\<close>, so that safety also holds for
  unfinished runs. Loops around calls are \<open>io_loop\<close>; its bound is the length of the script plus one, which
  a loop that makes a call per round never reaches (\<open>io_loop_unfold\<close>; \<open>Progress\<close> and \<open>Returns\<close> show it of every
  loop). There is no other fuel; how many calls a run can make is a matter of \<open>Budget\<close>. C strings are \<open>string\<close> with the part after a NUL cut
  off by \<open>cstr\<close>; sizes and lengths that the code bounds are naturals with the bounds written out,
  conversions to \<open>int\<close> and the frame header are words.

  \<^bold>\<open>Components, in the order of the program.\<close>
  \<^item> \<open>Prelude\<close>, \<open>Utf8\<close>, \<open>Bytewise\<close>: C strings and joins; \<open>utf8_valid\<close> of \<open>digest.c\<close> against the Unicode
    encoder; \<open>cmp_bytewise\<close> and a sort, under the locale \<open>comparator\<close>.
  \<^item> \<open>Digest_Buffer\<close>, \<open>Digest\<close>, \<open>Digest_Spec\<close>, \<open>Digest_Codec\<close>, \<open>Digest_Kinds\<close>, \<open>Digest_Props\<close>: the buffer
    with its 4 MiB cap, the four digests and the resource token of \<open>digest.c\<close>; a reference encoding; the locale
    \<open>record_codec\<close>, interpreted on the four record kinds; which plans are accepted, what is hashed, order
    independence, and that equal digests mean equal plans.
  \<^item> \<open>Policy\<close>: ownership, holds and protection, as a verdict on a record list.
  \<^item> \<open>Stdin\<close>, \<open>Stdin_Proofs\<close>, \<open>Json\<close>, \<open>Request\<close>, \<open>Request_Proofs\<close>: the reader with its deadline and cap, and the
    parsers, whose accepted language is given in closed form.
  \<^item> \<open>Redeem\<close>, \<open>Redeem_Proofs\<close>: the client of the broker, over any transport; the locale \<open>redeem_transport\<close>
    is what it asks of one, interpreted on the broker's in \<open>Transport_Proofs\<close>.
  \<^item> \<open>Plan\<close>, \<open>Gate\<close>, \<open>Plan_Proofs\<close>: the four \<open>pkgx_plan_and_redeem\<close> functions as one step over the datatype
    \<open>plan\<close>; policy comes first, a refusal spends nothing, success binds the receipt to the plan.
  \<^item> \<open>Transport\<close>, \<open>Session\<close>, \<open>Progress\<close>, \<open>Transport_Proofs\<close>: the socket code, an abstract session machine that
    every log refines, the deadline, a bound on the number of calls, and the meaning of each error.
  \<^item> \<open>Apt_Status\<close>, \<open>Result\<close>, \<open>Spawn\<close>, \<open>Harden\<close> and their proofs: classifiers, the result channel, child processes,
    process hygiene.
  \<^item> \<open>Libapt\<close>, \<open>Apt_Common\<close>, \<open>Effectors\<close>: what libapt answers, the record builders, and the four effectors as
    \<open>run_job\<close> over the datatype \<open>job\<close>. \<open>Effect_Trace\<close> and \<open>Effect_Proofs\<close> show that nothing is fetched, run or
    refreshed before the redemption of the very plan, and that \<open>effect_issued\<close> tells whether the host was
    touched; \<open>Effect_Runs\<close> evaluates a whole hold.
  \<^item> \<open>Entrypoint\<close>, \<open>Entry_Proofs\<close>, \<open>Entry_Runs\<close>: the helper from its start to its exit code, the order of its
    steps in the log, what the record says, and a whole evaluated run.
  \<^item> \<open>Preview\<close>, \<open>Plan_Tool\<close>, \<open>Preview_Decode\<close>, \<open>Preview_Proofs\<close>, \<open>Preview_Props\<close>, \<open>Preview_Runs\<close>: the two planners. The
    locale \<open>record_view\<close> extends \<open>record_codec\<close> with the decoder of a record kind; the printed records are the
    hashed ones, the printed hash and resource are those that the effector would redeem for the same
    answers, and a preview calls nothing but readers.
  \<^item> \<open>Secrets\<close>: when the request and the receipt of a helper that returns were wiped.
  \<^item> \<open>Protocol\<close>: the helper as an abstract machine, an inductive step relation over seven phases that names
    the calls of each phase and guards each change of phase by what happened before; the calls to the broker are a run of
    the machine of \<open>Session\<close>. Every log of every helper is a run of it, call by call; its invariants are by rule induction.
  \<^item> \<open>Probe\<close>, \<open>Probe_Proofs\<close>: the diagnostic \<open>tools/probe.cc\<close>, which only reads, and \<open>fuzz/fuzz_request.c\<close>.
  \<^item> \<open>Budget\<close>, \<open>Returns\<close>: the locale \<open>log_measure\<close> for additive measures of a log, interpreted on the calls that
    nothing pays for and on the bytes moved. A call is paid for by a byte that it or its successor moves, by a directory
    entry, or by being sent back (interrupted, not ready, timed out); the others are at most 16 for an exchange with the
    broker, 1130 for a helper (256 packages are the most a request has), 1060 for the preview and 25 for the probe. So
    no program repeats a call that does nothing.
  \<^item> This theory ends with the property over all parts: the digest that a preview printed and the digest
    that was redeemed before a helper touched the host are equal exactly when the plans are the same.

  \<^bold>\<open>Parameters.\<close> Code that is not in the repository is an argument: OpenSSL's SHA-256 as a partial
  function \<open>lb_evp\<close> (collision freedom is a premise only where two digests are compared, and only for the two
  strings at hand), Jansson as the record \<open>jansson\<close> (parser, dump, and which strings it takes), libapt and
  the kernel as the script. Theorems quantify over all of them; premises such as \<open>takes_utf8\<close> state documented
  behaviour and are met by the concrete libraries of the witnesses.

  \<^bold>\<open>Not modelled.\<close> Text on standard error; failing C++ allocations (they raise, and no handler
  catches them); Jansson's private copies of strings, which it frees without wiping; the bytes a C buffer holds
  beyond its string; signals other than \<open>SIGPIPE\<close>; the life time of libapt's objects, of which the model keeps the
  copied strings; the tests, the Debian packaging and the polkit policy.
\<close>

section \<open>What was previewed is what runs\<close>

text \<open>As \<open>redeemed_for\<close>, with the digest that was redeemed.\<close>

definition redeemed_hash ::
  "plan_env \<Rightarrow> transport_cfg \<Rightarrow> plan \<Rightarrow> string option list \<Rightarrow> string option \<Rightarrow> event list \<Rightarrow> string \<Rightarrow> bool" where
  "redeemed_hash env t p targets token es hash \<longleftrightarrow> plan_admitted env p hash \<and> (\<exists>body resp as ts bs.
     j_dumps (pe_jansson env) (request_json (binding_req env p targets token hash)) = Some body \<and>
     es = as @ ts @ bs \<and> exchanged t body resp ts \<and>
     redeemed_reply (j_loadb (pe_jansson env) resp) (pe_expected_cid env))"

lemma redeemed_hash_ex: "redeemed_for env t p targets token es \<longleftrightarrow> (\<exists>hash. redeemed_hash env t p targets token es hash)"
  unfolding redeemed_for_def redeemed_hash_def by blast

lemma hashes_bind:
  assumes "hashed evp (h, plan_canon p)" "plan_ok p" "hashed evp (g, plan_canon q)" "plan_ok q"
    and "evp (plan_canon p) = evp (plan_canon q) \<longrightarrow> plan_canon p = plan_canon q"
  shows "h = g \<longleftrightarrow> same_plan p q"
proof -
  have "h = g \<longleftrightarrow> plan_canon p = plan_canon q"
    using assms(1,3,5) by (auto simp: hashed_def hex_of_inject)
  with plan_ok_norm_records [OF assms(2,4)] show ?thesis by simp
qed

text \<open>C2. What was previewed is what runs. Take any preview of a verb and a package list and any run of the installed
helper of that verb, in whatever world each ran and for whatever request the helper read. If the
helper came to a call that can change the host, the broker had redeemed a digest before it; if the preview printed
a digest, the two digests are equal exactly when the plan that was previewed and the plan that was redeemed are
the same verb and the same records, as long as the hash tells the two canonical strings apart. So a broker that
issues a receipt for the digest the user saw lets nothing else through.\<close>

theorem preview_binds_effect:
  assumes "cstr verb = verb" and "family_job family verb = verb_job verb"
    and "preview_run lib verb (requested req) w = (Some x, w')"
    and "entrypoint_main lib family verb environ v = (res, v')" and "log v' = log v @ us @ e # vs" and "mutates e"
  shows "\<exists>es status verb' resource plan_hash detail before as bs after uid req' q g.
    log w' = log w @ es \<and> says (lb_jansson lib) status verb' resource plan_hash detail x \<and>
    us = before @ as @ bs @ after \<and> calm (before @ as @ bs) \<and>
    job_plan (effect_env lib uid req') (verb_job verb req') as q \<and>
    redeemed_hash (effect_env lib uid req') broker_cfg q (job_targets (verb_job verb req')) (job_token (verb_job verb req')) bs g \<and>
    (status = ''ok'' \<longrightarrow> plan_hash \<noteq> None) \<and>
    (\<forall>h. plan_hash = Some h \<longrightarrow> (\<exists>p. job_plan (effect_env lib uid req) (verb_job verb req) es p \<and>
       ((lb_evp lib (plan_canon p) = lb_evp lib (plan_canon q) \<longrightarrow> plan_canon p = plan_canon q) \<longrightarrow> (h = g \<longleftrightarrow> same_plan p q))))"
proof -
  have "tr (entrypoint_main lib family verb environ) (\<lambda>rc. main_events lib verb (family_job family verb) environ)
      (main_events lib verb (family_job family verb) environ)"
    unfolding entrypoint_main_def by (rule tr_mono [OF main_trace [OF family_verb [OF assms(1)]]]) auto
  from tr_run [OF this assms(4)] assms(5) have "main_events lib verb (family_job family verb) environ (us @ e # vs)" by auto
  from main_mutation [OF this assms(6), unfolded assms(2)] obtain ch rs hs as bs cs uid req' q where
    m: "us = ch @ rs @ hs @ as @ bs @ cs" "calm (ch @ rs @ hs @ as @ bs)"
      "job_plan (effect_env lib uid req') (verb_job verb req') as q"
      "redeemed_for (effect_env lib uid req') broker_cfg q (job_targets (verb_job verb req')) (job_token (verb_job verb req')) bs"
    by metis
  from m(4) obtain g where g: "redeemed_hash (effect_env lib uid req') broker_cfg q (job_targets (verb_job verb req'))
      (job_token (verb_job verb req')) bs g" unfolding redeemed_hash_ex by blast
  then have q: "plan_ok q" "hashed (lb_evp lib) (g, plan_canon q)"
    by (simp_all add: redeemed_hash_def plan_admitted_def effect_env_def)
  have env: "pe_evp (effect_env lib uid req) = lb_evp lib" by (simp add: effect_env_def)
  obtain es where es: "log w' = log w @ es" "agrees lib (effect_env lib uid req) (verb_job verb req) x es"
    using tr_returns [OF run_agrees [OF env] assms(3)] by blast
  obtain status verb' resource plan_hash detail where a: "says (lb_jansson lib) status verb' resource plan_hash detail x"
    "case plan_hash of
        None \<Rightarrow> status \<notin> set (''ok'' # REFUSALS)
      | Some h \<Rightarrow> status \<in> set (''ok'' # REFUSALS) \<and>
          (\<exists>p. job_plan (effect_env lib uid req) (verb_job verb req) es p \<and> planned lib p h \<and>
          resource = Some (plan_resource p (job_targets (verb_job verb req)) (job_token (verb_job verb req))) \<and>
          (status = ''ok'' \<longleftrightarrow> \<not> policy_fault p))"
    using es(2) unfolding agrees_def by blast
  have "status = ''ok'' \<longrightarrow> plan_hash \<noteq> None" using a(2) by (cases plan_hash) simp_all
  moreover have "\<forall>h. plan_hash = Some h \<longrightarrow> (\<exists>p. job_plan (effect_env lib uid req) (verb_job verb req) es p \<and>
      ((lb_evp lib (plan_canon p) = lb_evp lib (plan_canon q) \<longrightarrow> plan_canon p = plan_canon q) \<longrightarrow> (h = g \<longleftrightarrow> same_plan p q)))"
    using a(2) hashes_bind [OF _ _ q(2,1)] by (fastforce simp: planned_def simp del: job_plan.simps)
  moreover have "us = (ch @ rs @ hs) @ as @ bs @ cs" "calm ((ch @ rs @ hs) @ as @ bs)" using m(1,2) by simp_all
  ultimately show ?thesis using es(1) a(1) m(3) g by blast
qed

theorem preview_binds_effect_witness:
  "\<exists>bs uid req' q g. redeemed_hash (effect_env ex_lib uid req') broker_cfg q
    (job_targets (verb_job ''apt.hold'' req')) (job_token (verb_job ''apt.hold'' req')) bs g"
proof -
  have fam: "family_job FAMILY_HOLD ''apt.hold'' = verb_job ''apt.hold''"
    by (simp add: fun_eq_iff family_job_def verb_job_def)
  obtain p' where prev: "preview_run ex_lib ''apt.hold'' (requested hold_request) preview_world = (Some (0, ''body'' @ [CHR 0x0A]), p')"
    using ex_preview by blast
  obtain w' where run: "entrypoint_main ex_lib FAMILY_HOLD ''apt.hold'' main_environ main_world = (Some 0, w')"
    "list_ex mutates (log w')" by (rule main_run)
  then obtain us e vs where "log w' = log main_world @ us @ e # vs" "mutates e"
    by (auto simp: list_ex_iff main_fresh dest!: split_list)
  from preview_binds_effect [OF main_fresh(2) fam prev run(1) this] show ?thesis by blast
qed

end
